theory Spec2Isabelle
  imports Complex_Main "HOL-Library.Multiset"
begin

section \<open>Numbers, constants and errors\<close>

text \<open>
  The program is TypeScript. Its numbers are modelled as real numbers: there is no
  rounding and no NaN, so the \<open>isNaN\<close> assertions of the source never fire and are
  left out. The one exception is the section on costs as JavaScript numbers, where the
  costs of a search node are real numbers or NaN. Every other assertion and every \<open>throw\<close> of the source is a branch of the
  model that returns \<open>Inl\<close> of an error.

  The repository holds two generations of the program. The current one is the tree
  \<open>src/classes\<close> that \<open>main.ts\<close> imports (Vector, Point, Vertex, Polygon, Mesh,
  PriorityQueue, SearchNode, SearchInstance); the earlier one is the tree \<open>classes\<close>
  (Point, Mesh, SearchNode, SearchInstance with plain indices). Definitions follow the
  current generation; the few definitions taken from the earlier one carry the suffix
  \<open>_legacy\<close>.

  The file \<open>constants.ts\<close> is not among the sources. Its tolerance \<open>EPSILON\<close> is a
  parameter of every function that reads it.
\<close>

text \<open>
  Modelled from the spec: \<open>constants.ts\<close> is missing; the spec gives the distance in
  degrees as \<open>acos(..) * 180 / pi\<close> and all latitudes and longitudes in degrees, so
  the two conversion factors are \<open>pi / 180\<close> and \<open>180 / pi\<close>.
\<close>

definition TO_RAD :: real where
  "TO_RAD = pi / 180"

definition TO_DEG :: real where
  "TO_DEG = 180 / pi"

datatype error = AssertionError string | Error string

text \<open>utils.ts: \<open>isZero\<close> and \<open>isEqual\<close>.\<close>

definition isZero :: "real \<Rightarrow> real \<Rightarrow> bool" where
  "isZero EPSILON v = (\<bar>v\<bar> < EPSILON)"

definition isEqual :: "real \<Rightarrow> real \<Rightarrow> real \<Rightarrow> bool" where
  "isEqual EPSILON a b = isZero EPSILON (a - b)"

text \<open>
  \<open>Math.atan2(y, x)\<close> on real numbers (the sign of a floating-point zero is not
  modelled: \<open>atan2 0 x\<close> is \<open>pi\<close> for negative \<open>x\<close>).
\<close>

definition atan2 :: "real \<Rightarrow> real \<Rightarrow> real" where
  "atan2 b a =
     (if 0 < a then arctan (b / a)
      else if a < 0 \<and> 0 \<le> b then arctan (b / a) + pi
      else if a < 0 then arctan (b / a) - pi
      else if 0 < b then pi / 2
      else if b < 0 then - (pi / 2)
      else 0)"

section \<open>Vector.ts\<close>

record Vector =
  x :: real
  y :: real
  z :: real

definition normV :: "'a Vector_scheme \<Rightarrow> real" where
  "normV v = sqrt ((x v)\<^sup>2 + (y v)\<^sup>2 + (z v)\<^sup>2)"

definition cross :: "'a Vector_scheme \<Rightarrow> 'b Vector_scheme \<Rightarrow> Vector" where
  "cross this other =
     \<lparr> x = y this * z other - z this * y other,
       y = z this * x other - x this * z other,
       z = x this * y other - y this * x other \<rparr>"

definition dot :: "'a Vector_scheme \<Rightarrow> 'b Vector_scheme \<Rightarrow> real" where
  "dot this other = x this * x other + y this * y other + z this * z other"

definition scale :: "'a Vector_scheme \<Rightarrow> real \<Rightarrow> Vector" where
  "scale this factor = \<lparr> x = x this * factor, y = y this * factor, z = z this * factor \<rparr>"

definition subtract :: "'a Vector_scheme \<Rightarrow> 'b Vector_scheme \<Rightarrow> Vector" where
  "subtract this other =
     \<lparr> x = x this - x other, y = y this - y other, z = z this - z other \<rparr>"

definition Vector_negate :: "'a Vector_scheme \<Rightarrow> Vector" where
  "Vector_negate this = \<lparr> x = - x this, y = - y this, z = - z this \<rparr>"

definition normalise :: "real \<Rightarrow> 'a Vector_scheme \<Rightarrow> error + Vector" where
  "normalise EPSILON this =
     (if isZero EPSILON (normV this) then Inl (AssertionError ''Cannot normalise a zero vector'')
      else Inr (scale this (1 / normV this)))"

section \<open>Point.ts\<close>

record Point = Vector +
  lat :: real
  lon :: real

datatype Orientation = ANTICLOCKWISE | COLLINEAR | CLOCKWISE

text \<open>The constructor \<open>new Point(lat, lon, vector?)\<close>.\<close>

definition Point_new :: "real \<Rightarrow> real \<Rightarrow> Vector option \<Rightarrow> error + Point" where
  "Point_new la lo vector =
     (if \<not> (- 90 \<le> la \<and> la \<le> 90)
      then Inl (AssertionError ''Latitude must be between -90 and 90 degrees'')
      else if \<not> (- 180 \<le> lo \<and> lo \<le> 180)
      then Inl (AssertionError ''Longitude must be between -180 and 180 degrees'')
      else (case vector of
              Some v \<Rightarrow> Inr \<lparr> x = x v, y = y v, z = z v, lat = la, lon = lo \<rparr>
            | None \<Rightarrow>
                Inr \<lparr> x = cos (la * TO_RAD) * cos (lo * TO_RAD),
                      y = cos (la * TO_RAD) * sin (lo * TO_RAD),
                      z = sin (la * TO_RAD),
                      lat = la, lon = lo \<rparr>))"

definition fromVector :: "real \<Rightarrow> 'a Vector_scheme \<Rightarrow> bool \<Rightarrow> error + Point" where
  "fromVector EPSILON vector normalised =
     (if isZero EPSILON (normV vector)
      then Inl (AssertionError ''Cannot create a point from a zero vector'')
      else
        let la = arcsin (z vector / normV vector) * TO_DEG;
            lo = atan2 (y vector) (x vector) * TO_DEG
        in if normalised
           then (case normalise EPSILON vector of
                   Inl e \<Rightarrow> Inl e
                 | Inr u \<Rightarrow> Point_new la lo (Some u))
           else Point_new la lo (Some (Vector.truncate vector)))"

definition isPolar :: "real \<Rightarrow> 'a Point_scheme \<Rightarrow> bool" where
  "isPolar EPSILON point = isEqual EPSILON \<bar>lat point\<bar> 90"

definition equals :: "real \<Rightarrow> 'a Point_scheme \<Rightarrow> 'b Point_scheme \<Rightarrow> bool" where
  "equals EPSILON this other =
     (if isZero EPSILON (lat this - lat other)
      then isPolar EPSILON this \<or> isZero EPSILON (lon this - lon other)
      else False)"

text \<open>The earlier generation's \<open>Point.eq\<close> (classes/Point.ts).\<close>

definition eq_legacy :: "real \<Rightarrow> 'a Point_scheme \<Rightarrow> 'b Point_scheme \<Rightarrow> bool" where
  "eq_legacy EPSILON this other =
     (if \<bar>lat this - lat other\<bar> < EPSILON
      then (if \<bar>\<bar>lat this\<bar> - 90\<bar> < EPSILON \<and> \<bar>\<bar>lat other\<bar> - 90\<bar> < EPSILON then True
            else \<bar>lon this - lon other\<bar> < EPSILON)
      else False)"

definition getIntersection ::
  "real \<Rightarrow> 'a Point_scheme \<Rightarrow> 'b Point_scheme \<Rightarrow> 'c Point_scheme \<Rightarrow> 'd Point_scheme
     \<Rightarrow> error + (Point \<times> Point) option" where
  "getIntersection EPSILON p1 p2 p3 p4 =
     (let c1 = cross p1 p2; c2 = cross p3 p4; c3 = cross c1 c2
      in if isZero EPSILON (normV c3) then Inr None
         else (case fromVector EPSILON c3 False of
                 Inl e \<Rightarrow> Inl e
               | Inr pInt \<Rightarrow>
                   (case fromVector EPSILON (Vector_negate c3) False of
                      Inl e \<Rightarrow> Inl e
                    | Inr negInt \<Rightarrow> Inr (Some (pInt, negInt)))))"

definition getOrientation ::
  "real \<Rightarrow> 'a Point_scheme \<Rightarrow> 'b Point_scheme \<Rightarrow> 'c Point_scheme \<Rightarrow> Orientation" where
  "getOrientation EPSILON p1 p2 p3 =
     (if equals EPSILON p1 p2 \<or> equals EPSILON p1 p3 \<or> equals EPSILON p2 p3 then COLLINEAR
      else
        let c1 = cross p1 p2; d = dot c1 p3
        in if d > EPSILON then ANTICLOCKWISE
           else if d < - EPSILON then CLOCKWISE
           else COLLINEAR)"

definition negate :: "real \<Rightarrow> 'a Point_scheme \<Rightarrow> error + Point" where
  "negate EPSILON this = fromVector EPSILON (Vector_negate this) True"

definition isBounded ::
  "real \<Rightarrow> 'a Point_scheme \<Rightarrow> 'b Point_scheme \<Rightarrow> 'c Point_scheme \<Rightarrow> error + bool" where
  "isBounded EPSILON this r l =
     (if equals EPSILON this r \<or> equals EPSILON this l then Inr True
      else (case negate EPSILON this of
              Inl e \<Rightarrow> Inl e
            | Inr negated \<Rightarrow>
                if equals EPSILON negated r \<or> equals EPSILON negated l then Inr False
                else
                  let rp = cross r this; rl = cross r l;
                      lp = cross l this; lr = cross l r
                  in Inr (dot rp rl \<ge> - EPSILON \<and> dot lp lr \<ge> - EPSILON)))"

definition reflectPoint ::
  "real \<Rightarrow> 'a Point_scheme \<Rightarrow> 'b Point_scheme \<Rightarrow> 'c Point_scheme \<Rightarrow> error + Point" where
  "reflectPoint EPSILON this r l =
     (let c1 = cross r l;
          d = dot this c1;
          double = scale c1 (2 * d);
          reflected = subtract this double
      in fromVector EPSILON reflected True)"

definition cosDistance :: "'a Point_scheme \<Rightarrow> 'b Point_scheme \<Rightarrow> real" where
  "cosDistance this other =
     (let lat1 = lat this * TO_RAD;
          lat2 = lat other * TO_RAD;
          dLon = (lon this - lon other) * TO_RAD;
          a = sin lat1 * sin lat2 + cos lat1 * cos lat2 * cos dLon
      in arccos a * TO_DEG)"

definition distance :: "real \<Rightarrow> 'a Point_scheme \<Rightarrow> 'b Point_scheme \<Rightarrow> real" where
  "distance EPSILON this other =
     (if equals EPSILON this other then 0 else cosDistance this other)"

text \<open>
  \<open>asKey\<close> builds the string \<open>P(q(lat), q(lon))\<close> with \<open>q v = Math.round(v / EPSILON)\<close>;
  the string is determined by, and determines, the pair of integers, which is the key
  of the model. \<open>Math.round\<close> rounds half-way cases up.
\<close>

definition quantise :: "real \<Rightarrow> real \<Rightarrow> int" where
  "quantise EPSILON v = \<lfloor>v / EPSILON + 1 / 2\<rfloor>"

definition asKey :: "real \<Rightarrow> 'a Point_scheme \<Rightarrow> int \<times> int" where
  "asKey EPSILON this = (quantise EPSILON (lat this), quantise EPSILON (lon this))"

section \<open>The earlier generation's reflection (classes/Point.ts, Mesh.reflectPoint)\<close>

text \<open>
  In the earlier generation every vector operation of \<open>Point\<close> goes through
  \<open>Point.fromCartesian\<close>, which asserts a norm above EPSILON, computes latitude and
  longitude, and normalises unless told otherwise. \<open>cross\<close> and \<open>subtract\<close> normalise,
  \<open>scale\<close> does not.
\<close>

definition fromCartesian_legacy :: "real \<Rightarrow> real \<Rightarrow> real \<Rightarrow> real \<Rightarrow> bool \<Rightarrow> error + Point" where
  "fromCartesian_legacy EPSILON a b c normalised =
     (let nrm = sqrt (a * a + b * b + c * c)
      in if \<not> nrm > EPSILON then Inl (AssertionError ''Cannot create point from zero vector'')
         else
           let la = arcsin (c / nrm) * TO_DEG;
               lo = atan2 b a * TO_DEG
           in if \<not> (- 90 \<le> la \<and> la \<le> 90)
              then Inl (AssertionError ''Latitude must be between -90 and 90 degrees'')
              else if \<not> (- 180 \<le> lo \<and> lo \<le> 180)
              then Inl (AssertionError ''Longitude must be between -180 and 180 degrees'')
              else if \<not> normalised
              then Inr \<lparr> x = a, y = b, z = c, lat = la, lon = lo \<rparr>
              else Inr \<lparr> x = a / nrm, y = b / nrm, z = c / nrm, lat = la, lon = lo \<rparr>)"

definition cross_legacy :: "real \<Rightarrow> Point \<Rightarrow> Point \<Rightarrow> error + Point" where
  "cross_legacy EPSILON this other =
     fromCartesian_legacy EPSILON
       (y this * z other - z this * y other)
       (z this * x other - x this * z other)
       (x this * y other - y this * x other) True"

definition scale_legacy :: "real \<Rightarrow> Point \<Rightarrow> real \<Rightarrow> error + Point" where
  "scale_legacy EPSILON this factor =
     fromCartesian_legacy EPSILON (x this * factor) (y this * factor) (z this * factor) False"

definition subtract_legacy :: "real \<Rightarrow> Point \<Rightarrow> Point \<Rightarrow> error + Point" where
  "subtract_legacy EPSILON this other =
     fromCartesian_legacy EPSILON (x this - x other) (y this - y other) (z this - z other) True"

definition reflectPoint_legacy :: "real \<Rightarrow> Point \<Rightarrow> Point \<Rightarrow> Point \<Rightarrow> error + Point" where
  "reflectPoint_legacy EPSILON p right left =
     (case cross_legacy EPSILON right left of
        Inl e \<Rightarrow> Inl e
      | Inr N \<Rightarrow>
          (case scale_legacy EPSILON N (2 * dot p N) of
             Inl e \<Rightarrow> Inl e
           | Inr double \<Rightarrow> subtract_legacy EPSILON p double))"

section \<open>Vertex.ts, Polygon.ts and the mesh as a store\<close>

text \<open>
  A vertex is a point with an id, the ids of its incident polygons and the two flags
  that \<open>setPolygons\<close> derives from them. A polygon holds its id, the ids of its vertices
  and neighbours, and its vertices resolved by \<open>setVertices\<close> (vertices are never
  changed after the mesh is read, so the polygon holds them by value). Polygons refer to
  each other cyclically (neighbours, a vertex's polygons): such a reference is the
  polygon's id, resolved through the mesh by \<open>resolve\<close>, with \<open>Obstacle\<close> for -1.
\<close>

record Vertex = Point +
  v_id :: int
  isCorner :: bool
  isAmbiguous :: bool
  pIndices :: "int list"

record Polygon =
  p_id :: int
  vIndices :: "int list"
  nIndices :: "int list"
  vertices :: "Vertex list"
  isOneWay :: bool

record Mesh =
  m_vertices :: "Vertex list"
  m_polygons :: "Polygon list"

definition Obstacle :: Polygon where
  "Obstacle = \<lparr> p_id = - 1, vIndices = [], nIndices = [], vertices = [], isOneWay = True \<rparr>"

definition resolve :: "Mesh \<Rightarrow> int \<Rightarrow> Polygon" where
  "resolve m i = (if i = - 1 then Obstacle else m_polygons m ! nat i)"

definition neighbours :: "Mesh \<Rightarrow> Polygon \<Rightarrow> Polygon list" where
  "neighbours m polygon = map (resolve m) (nIndices polygon)"

definition polygonsOf :: "Mesh \<Rightarrow> Vertex \<Rightarrow> Polygon list" where
  "polygonsOf m vertex = map (resolve m) (pIndices vertex)"

datatype PolyContainmentType = OUTSIDE | INSIDE | ON_EDGE | ON_VERTEX

record PolyContainment =
  pc_type :: PolyContainmentType
  pc_adjPoly :: Polygon
  pc_verts :: "Vertex list"

text \<open>
  \<open>Polygon.containsPoint\<close>: the loop over \<open>i = 0 .. n - 1\<close> with the flag \<open>onEdge\<close>,
  and the code after the loop. \<open>v i\<close> is \<open>vertices[i % n]\<close>.
\<close>

definition v :: "Polygon \<Rightarrow> nat \<Rightarrow> Vertex" where
  "v polygon i = vertices polygon ! (i mod length (vertices polygon))"

function containsPoint_loop ::
  "Mesh \<Rightarrow> real \<Rightarrow> Polygon \<Rightarrow> 'a Point_scheme \<Rightarrow> bool \<Rightarrow> nat \<Rightarrow> error + PolyContainment" where
  "containsPoint_loop m EPSILON polygon point onEdge i =
     (if i < length (vertices polygon) then
        (let vertex = v polygon i; nextVertex = v polygon (i + 1)
         in if equals EPSILON point vertex
            then Inr \<lparr> pc_type = ON_VERTEX, pc_adjPoly = Obstacle, pc_verts = [vertex] \<rparr>
            else if onEdge
            then Inr \<lparr> pc_type = ON_EDGE, pc_adjPoly = neighbours m polygon ! i,
                       pc_verts = [v polygon (i - 1), vertex] \<rparr>
            else
              let orientation = getOrientation EPSILON vertex nextVertex point
              in if orientation = COLLINEAR
                 then (case isBounded EPSILON point vertex nextVertex of
                         Inl e \<Rightarrow> Inl e
                       | Inr b \<Rightarrow> containsPoint_loop m EPSILON polygon point b (i + 1))
                 else if orientation = CLOCKWISE
                 then Inr \<lparr> pc_type = OUTSIDE, pc_adjPoly = Obstacle, pc_verts = [] \<rparr>
                 else containsPoint_loop m EPSILON polygon point onEdge (i + 1))
      else if onEdge
      then Inr \<lparr> pc_type = ON_EDGE, pc_adjPoly = neighbours m polygon ! 0,
                 pc_verts = [v polygon (length (vertices polygon) - 1), v polygon 0] \<rparr>
      else Inr \<lparr> pc_type = INSIDE, pc_adjPoly = Obstacle, pc_verts = [] \<rparr>)"
  by pat_completeness auto
termination
  by (relation "measure (\<lambda>(m, EPSILON, polygon, point, onEdge, i). length (vertices polygon) - i)")
     auto

declare containsPoint_loop.simps [simp del]

definition containsPoint ::
  "Mesh \<Rightarrow> real \<Rightarrow> Polygon \<Rightarrow> 'a Point_scheme \<Rightarrow> error + PolyContainment" where
  "containsPoint m EPSILON polygon point = containsPoint_loop m EPSILON polygon point False 0"

text \<open>
  The geometric part of a well-formed mesh, for one polygon: its ring has at least
  three vertices and is strictly convex in anticlockwise order, that is, every vertex
  is \<open>ANTICLOCKWISE\<close> of every edge of the ring it is not an end of (edge \<open>i\<close> runs
  from vertex \<open>i\<close> to vertex \<open>(i + 1) mod n\<close>).
\<close>

definition strictlyConvex :: "real \<Rightarrow> Vertex list \<Rightarrow> bool" where
  "strictlyConvex EPSILON vs =
     (3 \<le> length vs \<and>
      (\<forall>i<length vs. \<forall>k<length vs.
         k \<noteq> i \<and> k \<noteq> (i + 1) mod length vs \<longrightarrow>
         getOrientation EPSILON (vs ! i) (vs ! ((i + 1) mod length vs)) (vs ! k) = ANTICLOCKWISE))"

section \<open>SearchNode.ts\<close>

text \<open>
  A search node. The fields \<open>_parent\<close>, \<open>_root\<close>, ... of the class are the selectors
  \<open>n_parent\<close>, \<open>n_root\<close>, ...; a vertex passed where the class expects a point is
  passed as its point part (\<open>Point.truncate\<close>).
\<close>

datatype SearchNode =
  SearchNode (n_parent: "SearchNode option") (n_root: Point) (n_right: Point) (n_left: Point)
    (n_rightVertex: "Vertex option") (n_leftVertex: "Vertex option")
    (n_nextPolygon: Polygon) (n_g: real) (n_h: real) (n_goal: Point)

definition n_f :: "SearchNode \<Rightarrow> real" where
  "n_f this = n_g this + n_h this"

text \<open>The constructor: the two assertions, then the heuristic \<open>h\<close>.\<close>

definition SearchNode_new ::
  "real \<Rightarrow> SearchNode option \<Rightarrow> Point \<Rightarrow> Point \<Rightarrow> Point \<Rightarrow> Vertex option \<Rightarrow> Vertex option
     \<Rightarrow> Polygon \<Rightarrow> real \<Rightarrow> Point \<Rightarrow> error + SearchNode" where
  "SearchNode_new EPSILON parent root' right left rightVertex leftVertex nextPolygon g goal =
     (if getOrientation EPSILON root' right left = CLOCKWISE
      then Inl (AssertionError ''Root is on the right of edge'')
      else if p_id nextPolygon = - 1
      then Inl (AssertionError ''Next polygon must not be an obstacle'')
      else if equals EPSILON root' left \<or> equals EPSILON root' right
      then Inr (SearchNode parent root' right left rightVertex leftVertex nextPolygon g
                  (distance EPSILON root' goal) goal)
      else
        (case (if getOrientation EPSILON goal right left = ANTICLOCKWISE
               then reflectPoint EPSILON goal right left else Inr goal) of
           Inl e \<Rightarrow> Inl e
         | Inr end' \<Rightarrow>
             Inr (SearchNode parent root' right left rightVertex leftVertex nextPolygon g
                    (if getOrientation EPSILON root' right end' = CLOCKWISE
                     then distance EPSILON root' right + distance EPSILON right end'
                     else if getOrientation EPSILON root' left end' = ANTICLOCKWISE
                     then distance EPSILON root' left + distance EPSILON left end'
                     else distance EPSILON root' end')
                    goal)))"

definition genFinalNode :: "Mesh \<Rightarrow> real \<Rightarrow> SearchNode \<Rightarrow> error + SearchNode" where
  "genFinalNode m EPSILON this =
     (case containsPoint m EPSILON (n_nextPolygon this) (n_goal this) of
        Inl e \<Rightarrow> Inl e
      | Inr c \<Rightarrow>
          if pc_type c = OUTSIDE
          then Inl (AssertionError ''Goal point is not yet in the next polygon'')
          else
            let rightAngle = getOrientation EPSILON (n_root this) (n_right this) (n_goal this);
                leftAngle = getOrientation EPSILON (n_root this) (n_left this) (n_goal this)
            in if rightAngle \<noteq> ANTICLOCKWISE
               then SearchNode_new EPSILON (Some this) (n_right this) (n_goal this) (n_goal this)
                      None None (n_nextPolygon this)
                      (n_g this + distance EPSILON (n_root this) (n_right this)) (n_goal this)
               else if leftAngle \<noteq> CLOCKWISE
               then SearchNode_new EPSILON (Some this) (n_left this) (n_goal this) (n_goal this)
                      None None (n_nextPolygon this)
                      (n_g this + distance EPSILON (n_root this) (n_left this)) (n_goal this)
               else if rightAngle = ANTICLOCKWISE \<and> leftAngle = CLOCKWISE
               then SearchNode_new EPSILON (Some this) (n_root this) (n_goal this) (n_goal this)
                      None None (n_nextPolygon this) (n_g this) (n_goal this)
               else Inl (Error ''Goal point is not visible from root point''))"

text \<open>\<open>SearchNode.lt\<close>: the order of the open list.\<close>

definition lt :: "SearchNode \<Rightarrow> SearchNode \<Rightarrow> bool" where
  "lt this other = (if n_f this = n_f other then n_g this > n_g other else n_f this < n_f other)"

section \<open>Reading a mesh (Vertex.ts, Polygon.ts, Mesh.read)\<close>

text \<open>
  A loop whose body may throw: \<open>mapE f xs\<close> runs \<open>f\<close> over \<open>xs\<close> from the left and
  stops at the first error.
\<close>

fun mapE :: "('a \<Rightarrow> error + 'b) \<Rightarrow> 'a list \<Rightarrow> error + 'b list" where
  "mapE f [] = Inr []"
| "mapE f (a # as) =
     (case f a of
        Inl e \<Rightarrow> Inl e
      | Inr b \<Rightarrow> (case mapE f as of Inl e \<Rightarrow> Inl e | Inr bs \<Rightarrow> Inr (b # bs)))"

text \<open>The constructor \<open>new Vertex(id, lat, lon, polygons)\<close>.\<close>

definition Vertex_new :: "int \<Rightarrow> real \<Rightarrow> real \<Rightarrow> int list \<Rightarrow> error + Vertex" where
  "Vertex_new i la lo polygons =
     (case Point_new la lo None of
        Inl e \<Rightarrow> Inl e
      | Inr p \<Rightarrow>
          if \<not> length polygons > 1
          then Inl (AssertionError ''Vertices must have at least 2 polygons'')
          else Inr \<lparr> x = x p, y = y p, z = z p, lat = lat p, lon = lon p,
                     v_id = i, isCorner = False, isAmbiguous = False, pIndices = polygons \<rparr>)"

text \<open>
  \<open>Vertex.setPolygons\<close>: the loop over the incident polygon ids, with the number \<open>P\<close> of
  polygons of the mesh; it checks each id and derives the two flags.
\<close>

fun setPolygons_loop :: "nat \<Rightarrow> int list \<Rightarrow> bool \<Rightarrow> bool \<Rightarrow> error + (bool \<times> bool)" where
  "setPolygons_loop P [] corner ambiguous = Inr (corner, ambiguous)"
| "setPolygons_loop P (pIndex # rest) corner ambiguous =
     (if \<not> (pIndex \<ge> - 1 \<and> pIndex < int P)
      then Inl (AssertionError ''Polygon index is out of bounds for the mesh polygons array'')
      else if pIndex = - 1
      then (if corner then setPolygons_loop P rest corner True
            else setPolygons_loop P rest True ambiguous)
      else setPolygons_loop P rest corner ambiguous)"

definition setPolygons :: "nat \<Rightarrow> Vertex \<Rightarrow> error + Vertex" where
  "setPolygons P vertex =
     (case setPolygons_loop P (pIndices vertex) (isCorner vertex) (isAmbiguous vertex) of
        Inl e \<Rightarrow> Inl e
      | Inr (corner, ambiguous) \<Rightarrow> Inr (vertex\<lparr> isCorner := corner, isAmbiguous := ambiguous \<rparr>))"

text \<open>The constructor \<open>new Polygon(id, vertices, neighbours)\<close>.\<close>

definition Polygon_new :: "int \<Rightarrow> int list \<Rightarrow> int list \<Rightarrow> error + Polygon" where
  "Polygon_new i vs ns =
     (if i \<noteq> - 1 \<and> \<not> length vs \<ge> 3
      then Inl (AssertionError ''A polygon must have at least 3 vertices'')
      else if i \<noteq> - 1 \<and> length vs \<noteq> length ns
      then Inl (AssertionError ''Vertices and neighbours arrays must have the same length'')
      else Inr \<lparr> p_id = i, vIndices = vs, nIndices = ns, vertices = [], isOneWay = True \<rparr>)"

definition setVertices :: "Vertex list \<Rightarrow> Polygon \<Rightarrow> error + Polygon" where
  "setVertices mvs polygon =
     (case mapE (\<lambda>vIndex.
                   if \<not> (vIndex \<ge> 0 \<and> vIndex < int (length mvs))
                   then Inl (AssertionError ''Vertex index is out of bounds for the mesh vertices array'')
                   else Inr (mvs ! nat vIndex))
             (vIndices polygon) of
        Inl e \<Rightarrow> Inl e
      | Inr vs \<Rightarrow> Inr (polygon\<lparr> vertices := vs \<rparr>))"

text \<open>
  \<open>Polygon.setNeighbours\<close>: the loop with the flag \<open>foundTrav\<close>; the resolved neighbours
  themselves are read through \<open>neighbours\<close>.
\<close>

fun setNeighbours_loop :: "nat \<Rightarrow> int list \<Rightarrow> bool \<Rightarrow> bool \<Rightarrow> error + bool" where
  "setNeighbours_loop P [] foundTrav oneWay = Inr oneWay"
| "setNeighbours_loop P (nIndex # rest) foundTrav oneWay =
     (if \<not> (nIndex \<ge> - 1 \<and> nIndex < int P)
      then Inl (AssertionError ''Neighbour index is out of bounds for the mesh polygons array'')
      else if nIndex = - 1 then setNeighbours_loop P rest foundTrav oneWay
      else if foundTrav then setNeighbours_loop P rest foundTrav False
      else setNeighbours_loop P rest True oneWay)"

definition setNeighbours :: "nat \<Rightarrow> Polygon \<Rightarrow> error + Polygon" where
  "setNeighbours P polygon =
     (case setNeighbours_loop P (nIndices polygon) False (isOneWay polygon) of
        Inl e \<Rightarrow> Inl e
      | Inr oneWay \<Rightarrow> Inr (polygon\<lparr> isOneWay := oneWay \<rparr>))"

text \<open>
  \<open>Mesh.read\<close> after tokenisation. A vertex line is \<open>(lat, lon, n, rest)\<close>, a polygon
  line is \<open>(n, rest)\<close>; the header (the token \<open>sph\<close>, then the counts \<open>V\<close> and \<open>P\<close>) is
  not modelled: \<open>V\<close> and \<open>P\<close> are the numbers of vertex and polygon lines given. The ids
  in a line are integers.
\<close>

definition readVertexLine :: "nat \<times> real \<times> real \<times> int \<times> int list \<Rightarrow> error + Vertex" where
  "readVertexLine = (\<lambda>(i, la, lo, n, rest).
     if int (length rest) \<noteq> n then Inl (AssertionError ''Invalid vertex format'')
     else Vertex_new (int i) la lo rest)"

definition readPolygonLine :: "nat \<times> int \<times> int list \<Rightarrow> error + Polygon" where
  "readPolygonLine = (\<lambda>(i, n, rest).
     if int (length rest) \<noteq> 2 * n then Inl (AssertionError ''Invalid polygon format'')
     else Polygon_new (int i) (take (nat n) rest) (drop (nat n) rest))"

definition read ::
  "(real \<times> real \<times> int \<times> int list) list \<Rightarrow> (int \<times> int list) list \<Rightarrow> error + Mesh" where
  "read vlines plines =
     (case mapE readVertexLine (zip [0..<length vlines] vlines) of
        Inl e \<Rightarrow> Inl e
      | Inr vs0 \<Rightarrow>
     (case mapE readPolygonLine (zip [0..<length plines] plines) of
        Inl e \<Rightarrow> Inl e
      | Inr ps0 \<Rightarrow>
     (case mapE (setPolygons (length ps0)) vs0 of
        Inl e \<Rightarrow> Inl e
      | Inr vs \<Rightarrow>
     (case mapE (\<lambda>polygon.
                   case setVertices vs polygon of
                     Inl e \<Rightarrow> Inl e
                   | Inr polygon' \<Rightarrow> setNeighbours (length ps0) polygon')
             ps0 of
        Inl e \<Rightarrow> Inl e
      | Inr ps \<Rightarrow> Inr \<lparr> m_vertices = vs, m_polygons = ps \<rparr>))))"

text \<open>
  The earlier generation's \<open>Mesh.read\<close> (README.md holds the file), for one vertex line:
  the vertex is built, each incident id is checked against \<open>P\<close> and the flags are set,
  and then \<open>assert(vertex.polygons.findIndex(..))\<close> is run. \<open>findIndex\<close> returns the
  first index \<open>i\<close> whose entry and whose cyclic successor are both -1, and -1 when there
  is none; the assertion fails exactly when that value is falsy, that is, 0.
\<close>

definition findIndex :: "(nat \<Rightarrow> bool) \<Rightarrow> nat \<Rightarrow> int" where
  "findIndex pred n = (case filter pred [0..<n] of [] \<Rightarrow> - 1 | i # _ \<Rightarrow> int i)"

definition adjacentObstacles :: "int list \<Rightarrow> int" where
  "adjacentObstacles polygons =
     findIndex (\<lambda>i. polygons ! i = - 1 \<and> polygons ! ((i + 1) mod length polygons) = - 1)
       (length polygons)"

definition readVertexLine_legacy ::
  "nat \<Rightarrow> nat \<times> real \<times> real \<times> int \<times> int list \<Rightarrow> error + Vertex" where
  "readVertexLine_legacy P = (\<lambda>(i, la, lo, n, rest).
     if n \<noteq> int (length rest) then Inl (AssertionError ''Invalid vertex format'')
     else (case Point_new la lo None of
             Inl e \<Rightarrow> Inl e
           | Inr p \<Rightarrow>
               (case setPolygons_loop P rest False False of
                  Inl e \<Rightarrow> Inl (AssertionError ''Invalid polygon index'')
                | Inr (corner, ambiguous) \<Rightarrow>
                    if adjacentObstacles rest = 0
                    then Inl (AssertionError ''Vertex has adjacent obstacles'')
                    else Inr \<lparr> x = x p, y = y p, z = z p, lat = lat p, lon = lon p,
                               v_id = int i, isCorner = corner, isAmbiguous = ambiguous,
                               pIndices = rest \<rparr>)))"

section \<open>PriorityQueue.ts\<close>

text \<open>
  The binary heap in an array, with the comparator given at construction. The index
  functions of the source use 32-bit shifts (\<open>((i + 1) >>> 1) - 1\<close>, \<open>(i << 1) + 1\<close>,
  \<open>(i + 1) << 1\<close>), which agree with the arithmetic below for every index below 2^30;
  a heap of that size is not modelled. The module-level names \<open>parent\<close>, \<open>left\<close>,
  \<open>right\<close> and the methods \<open>_swap\<close>, \<open>_siftUp\<close>, \<open>_siftDown\<close> carry the prefix
  \<open>heap_\<close> or lose the underscore. \<open>_greater i j\<close> is \<open>comparator (heap ! i) (heap ! j)\<close>.
\<close>

definition heap_parent :: "nat \<Rightarrow> nat" where
  "heap_parent i = (i + 1) div 2 - 1"

definition heap_left :: "nat \<Rightarrow> nat" where
  "heap_left i = 2 * i + 1"

definition heap_right :: "nat \<Rightarrow> nat" where
  "heap_right i = 2 * (i + 1)"

definition heap_swap :: "'a list \<Rightarrow> nat \<Rightarrow> nat \<Rightarrow> 'a list" where
  "heap_swap heap i j = heap[i := heap ! j, j := heap ! i]"

function siftUp_loop :: "('a \<Rightarrow> 'a \<Rightarrow> bool) \<Rightarrow> 'a list \<Rightarrow> nat \<Rightarrow> 'a list" where
  "siftUp_loop comparator heap node =
     (if node > 0 \<and> comparator (heap ! node) (heap ! heap_parent node)
      then siftUp_loop comparator (heap_swap heap node (heap_parent node)) (heap_parent node)
      else heap)"
  by pat_completeness auto
termination
  by (relation "measure (\<lambda>(comparator, heap, node). node)") (auto simp: heap_parent_def)

declare siftUp_loop.simps [simp del]

definition siftUp :: "('a \<Rightarrow> 'a \<Rightarrow> bool) \<Rightarrow> 'a list \<Rightarrow> 'a list" where
  "siftUp comparator heap = siftUp_loop comparator heap (length heap - 1)"

function siftDown_loop :: "('a \<Rightarrow> 'a \<Rightarrow> bool) \<Rightarrow> 'a list \<Rightarrow> nat \<Rightarrow> 'a list" where
  "siftDown_loop comparator heap node =
     (if (heap_left node < length heap \<and> comparator (heap ! heap_left node) (heap ! node)) \<or>
         (heap_right node < length heap \<and> comparator (heap ! heap_right node) (heap ! node))
      then
        let maxChild =
              (if heap_right node < length heap \<and>
                  comparator (heap ! heap_right node) (heap ! heap_left node)
               then heap_right node else heap_left node)
        in siftDown_loop comparator (heap_swap heap node maxChild) maxChild
      else heap)"
  by pat_completeness auto
termination
  by (relation "measure (\<lambda>(comparator, heap, node). length heap - node)")
     (auto simp: heap_left_def heap_right_def heap_swap_def)

declare siftDown_loop.simps [simp del]

definition siftDown :: "('a \<Rightarrow> 'a \<Rightarrow> bool) \<Rightarrow> 'a list \<Rightarrow> 'a list" where
  "siftDown comparator heap = siftDown_loop comparator heap 0"

text \<open>\<open>push(...values)\<close>: each value is appended and sifted up; the new heap is the state.\<close>

fun push :: "('a \<Rightarrow> 'a \<Rightarrow> bool) \<Rightarrow> 'a list \<Rightarrow> 'a list \<Rightarrow> 'a list" where
  "push comparator heap [] = heap"
| "push comparator heap (a # as) = push comparator (siftUp comparator (heap @ [a])) as"

definition peek :: "'a list \<Rightarrow> 'a option" where
  "peek heap = (case heap of [] \<Rightarrow> None | a # _ \<Rightarrow> Some a)"

definition isEmpty :: "'a list \<Rightarrow> bool" where
  "isEmpty heap = (length heap = 0)"

text \<open>\<open>pop()\<close> returns the popped element and the new heap, or fails on an empty heap.\<close>

definition pop :: "('a \<Rightarrow> 'a \<Rightarrow> bool) \<Rightarrow> 'a list \<Rightarrow> error + ('a \<times> 'a list)" where
  "pop comparator heap =
     (if \<not> length heap > 0 then Inl (AssertionError ''Cannot pop from an empty priority queue'')
      else
        let poppedValue = heap ! 0;
            bottom = length heap - 1;
            heap1 = (if bottom > 0 then heap_swap heap 0 bottom else heap);
            heap2 = butlast heap1
        in Inr (poppedValue, siftDown comparator heap2))"

text \<open>
  The states of a queue: the empty queue of the constructor, and every heap reached
  from it by \<open>push\<close> and successful \<open>pop\<close> (the array is private to the class).
\<close>

inductive queueState :: "('a \<Rightarrow> 'a \<Rightarrow> bool) \<Rightarrow> 'a list \<Rightarrow> bool" for comparator where
  constructed: "queueState comparator []"
| pushed: "queueState comparator heap \<Longrightarrow> queueState comparator (push comparator heap as)"
| popped: "queueState comparator heap \<Longrightarrow> pop comparator heap = Inr (a, heap') \<Longrightarrow>
           queueState comparator heap'"

text \<open>The heap property of an array, and the two weakened forms used by the sifts.\<close>

definition heap_inv :: "('a \<Rightarrow> 'a \<Rightarrow> bool) \<Rightarrow> 'a list \<Rightarrow> bool" where
  "heap_inv comparator heap =
     (\<forall>i<length heap. 0 < i \<longrightarrow> \<not> comparator (heap ! i) (heap ! heap_parent i))"

definition except_up :: "('a \<Rightarrow> 'a \<Rightarrow> bool) \<Rightarrow> 'a list \<Rightarrow> nat \<Rightarrow> bool" where
  "except_up comparator heap k =
     ((\<forall>i<length heap. 0 < i \<and> i \<noteq> k \<longrightarrow> \<not> comparator (heap ! i) (heap ! heap_parent i)) \<and>
      (\<forall>c<length heap. 0 < k \<and> heap_parent c = k \<and> 0 < c \<longrightarrow>
         \<not> comparator (heap ! c) (heap ! heap_parent k)))"

definition except_down :: "('a \<Rightarrow> 'a \<Rightarrow> bool) \<Rightarrow> 'a list \<Rightarrow> nat \<Rightarrow> bool" where
  "except_down comparator heap k =
     ((\<forall>i<length heap. 0 < i \<and> heap_parent i \<noteq> k \<longrightarrow>
         \<not> comparator (heap ! i) (heap ! heap_parent i)) \<and>
      (\<forall>c<length heap. 0 < k \<and> heap_parent c = k \<and> 0 < c \<longrightarrow>
         \<not> comparator (heap ! c) (heap ! heap_parent k)))"

text \<open>What the heap needs of its comparator: a strict weak order.\<close>

definition strictWeakOrder :: "('a \<Rightarrow> 'a \<Rightarrow> bool) \<Rightarrow> bool" where
  "strictWeakOrder comparator =
     ((\<forall>a. \<not> comparator a a) \<and>
      (\<forall>a b c. comparator a b \<and> comparator b c \<longrightarrow> comparator a c) \<and>
      (\<forall>a b c. \<not> comparator a b \<and> \<not> comparator b c \<longrightarrow> \<not> comparator a c))"

section \<open>Costs as JavaScript numbers\<close>

text \<open>
  The costs \<open>g\<close> and \<open>h\<close> of a search node are JavaScript numbers. In the rest of the
  model they are real numbers; a JavaScript number can also be NaN, and \<open>Math.acos\<close>,
  from which \<open>cosDistance\<close> computes every distance, returns NaN for an argument outside
  [-1, 1]. \<open>number\<close> is a real number or NaN (the infinities are not modelled), with the
  operators \<open>+\<close>, \<open>===\<close> and \<open><\<close> of the language: a sum with NaN is NaN, and every
  comparison with NaN is false.
\<close>

datatype number = NaN | Num real

fun number_add :: "number \<Rightarrow> number \<Rightarrow> number" where
  "number_add (Num a) (Num b) = Num (a + b)"
| "number_add NaN b = NaN"
| "number_add (Num a) NaN = NaN"

fun number_eq :: "number \<Rightarrow> number \<Rightarrow> bool" where
  "number_eq (Num a) (Num b) = (a = b)"
| "number_eq NaN b = False"
| "number_eq (Num a) NaN = False"

fun number_less :: "number \<Rightarrow> number \<Rightarrow> bool" where
  "number_less (Num a) (Num b) = (a < b)"
| "number_less NaN b = False"
| "number_less (Num a) NaN = False"

definition Math_acos :: "real \<Rightarrow> number" where
  "Math_acos a = (if a < - 1 \<or> 1 < a then NaN else Num (arccos a))"

text \<open>
  The two cost fields of a search node as numbers, the getter \<open>f\<close>, and \<open>SearchNode.lt\<close>
  on them (\<open>this.g > other._g\<close> is \<open>other._g < this.g\<close>).
\<close>

record NodeCosts =
  c_g :: number
  c_h :: number

definition c_f :: "NodeCosts \<Rightarrow> number" where
  "c_f this = number_add (c_g this) (c_h this)"

definition lt_number :: "NodeCosts \<Rightarrow> NodeCosts \<Rightarrow> bool" where
  "lt_number this other =
     (if number_eq (c_f this) (c_f other) then number_less (c_g other) (c_g this)
      else number_less (c_f this) (c_f other))"

definition costs :: "SearchNode \<Rightarrow> NodeCosts" where
  "costs node = \<lparr> c_g = Num (n_g node), c_h = Num (n_h node) \<rparr>"

section \<open>Mesh.getPointLocation\<close>

text \<open>
  The location types carry the prefix \<open>L_\<close> (the enum \<open>PointLocationType\<close> shares the
  name \<open>ON_EDGE\<close> with \<open>PolyContainmentType\<close>).
\<close>

datatype PointLocationType =
  L_IN_OBSTACLE | L_IN_POLYGON | L_ON_BORDER | L_ON_EDGE
  | L_ON_AMBIG_CORNER_VERTEX | L_ON_UNAMBIG_CORNER_VERTEX | L_ON_NON_CORNER_VERTEX

record PointLocation =
  pl_type :: PointLocationType
  pl_polygons :: "Polygon list"
  pl_vertices :: "Vertex list"

fun getPointLocation_loop ::
  "Mesh \<Rightarrow> real \<Rightarrow> 'a Point_scheme \<Rightarrow> Polygon list \<Rightarrow> error + PointLocation" where
  "getPointLocation_loop m EPSILON p [] =
     Inr \<lparr> pl_type = L_IN_OBSTACLE, pl_polygons = [], pl_vertices = [] \<rparr>"
| "getPointLocation_loop m EPSILON p (polygon # rest) =
     (case containsPoint m EPSILON polygon p of
        Inl e \<Rightarrow> Inl e
      | Inr result \<Rightarrow>
          (case pc_type result of
             OUTSIDE \<Rightarrow> getPointLocation_loop m EPSILON p rest
           | INSIDE \<Rightarrow>
               Inr \<lparr> pl_type = L_IN_POLYGON, pl_polygons = [polygon], pl_vertices = [] \<rparr>
           | ON_EDGE \<Rightarrow>
               if p_id (pc_adjPoly result) = - 1
               then Inr \<lparr> pl_type = L_ON_BORDER, pl_polygons = [polygon],
                          pl_vertices = pc_verts result \<rparr>
               else Inr \<lparr> pl_type = L_ON_EDGE, pl_polygons = [polygon, pc_adjPoly result],
                          pl_vertices = pc_verts result \<rparr>
           | ON_VERTEX \<Rightarrow>
               Inr \<lparr> pl_type =
                       (if isCorner (pc_verts result ! 0)
                        then (if isAmbiguous (pc_verts result ! 0)
                              then L_ON_AMBIG_CORNER_VERTEX else L_ON_UNAMBIG_CORNER_VERTEX)
                        else L_ON_NON_CORNER_VERTEX),
                     pl_polygons =
                       filter (\<lambda>q. p_id q \<noteq> - 1) (polygonsOf m (pc_verts result ! 0)),
                     pl_vertices = pc_verts result \<rparr>))"

definition getPointLocation :: "Mesh \<Rightarrow> real \<Rightarrow> 'a Point_scheme \<Rightarrow> error + PointLocation" where
  "getPointLocation m EPSILON p = getPointLocation_loop m EPSILON p (m_polygons m)"

section \<open>SearchNode.ts: projection and successors\<close>

text \<open>
  \<open>project\<close>. The variables of the loop that start undefined are options:
  the two new points, the two ends of the observable range, the upper end of the
  non-observable right range and the lower end of the non-observable left range.
\<close>

record Projection =
  newRightPoint :: "Point option"
  newLeftPoint :: "Point option"
  observable0 :: "nat option"
  observable1 :: "nat option"
  nonObservableRight1 :: "nat option"
  nonObservableLeft0 :: "nat option"

definition indexOf :: "int list \<Rightarrow> int \<Rightarrow> int" where
  "indexOf xs a = findIndex (\<lambda>i. xs ! i = a) (length xs)"

text \<open>
  \<open>intersection.find(p => containsPoint(p).type !== OUTSIDE)\<close>: the first of the two
  intersection points that is not outside the polygon.
\<close>

definition findInside ::
  "Mesh \<Rightarrow> real \<Rightarrow> Polygon \<Rightarrow> Point \<times> Point \<Rightarrow> error + Point option" where
  "findInside m EPSILON polygon intersection =
     (case containsPoint m EPSILON polygon (fst intersection) of
        Inl e \<Rightarrow> Inl e
      | Inr c1 \<Rightarrow>
          if pc_type c1 \<noteq> OUTSIDE then Inr (Some (fst intersection))
          else (case containsPoint m EPSILON polygon (snd intersection) of
                  Inl e \<Rightarrow> Inl e
                | Inr c2 \<Rightarrow>
                    if pc_type c2 \<noteq> OUTSIDE then Inr (Some (snd intersection))
                    else Inr None))"

text \<open>
  The two regions of the loop body. Each returns the new state and whether the body
  ended in \<open>continue\<close>.
\<close>

definition projectRight ::
  "Mesh \<Rightarrow> real \<Rightarrow> SearchNode \<Rightarrow> bool \<Rightarrow> Point \<Rightarrow> nat \<Rightarrow> Vertex \<Rightarrow> Vertex \<Rightarrow> Projection
     \<Rightarrow> error + (Projection \<times> bool)" where
  "projectRight m EPSILON this reversed right i vertex nextVertex st =
     (case getIntersection EPSILON (n_root this) right vertex nextVertex of
        Inl e \<Rightarrow> Inl e
      | Inr (Some intersection) \<Rightarrow>
          (case findInside m EPSILON (n_nextPolygon this) intersection of
             Inl e \<Rightarrow> Inl e
           | Inr None \<Rightarrow> Inr (st, True)
           | Inr (Some r) \<Rightarrow>
               let orientation = getOrientation EPSILON (n_root this) r nextVertex
               in if orientation = CLOCKWISE then Inr (st, True)
                  else if orientation = COLLINEAR
                  then (if \<not> equals EPSILON r nextVertex
                        then Inl (AssertionError ''Right intersection is not equal to next vertex'')
                        else if reversed
                        then Inr (st\<lparr> newRightPoint := Some (Point.truncate nextVertex),
                                      observable0 := Some (i + 1),
                                      nonObservableLeft0 := Some (i + 1) \<rparr>, False)
                        else Inr (st\<lparr> newRightPoint := Some (Point.truncate nextVertex),
                                      observable0 := Some (i + 1),
                                      nonObservableRight1 := Some (i + 1) \<rparr>, False))
                  else (if reversed
                        then Inr (st\<lparr> newRightPoint := Some r,
                                      observable0 := Some i,
                                      nonObservableLeft0 := Some i \<rparr>, False)
                        else Inr (st\<lparr> newRightPoint := Some r,
                                      observable0 := Some i,
                                      nonObservableRight1 :=
                                        Some (if equals EPSILON r vertex then i else i + 1) \<rparr>,
                                  False)))
      | Inr None \<Rightarrow>
          if reversed
          then Inl (AssertionError ''Right intersection should not be collinear as it should have been handled by the previous edge'')
          else Inr (st\<lparr> newRightPoint := Some (Point.truncate vertex),
                        observable0 := Some i,
                        nonObservableRight1 := Some i \<rparr>, False))"

definition projectLeft ::
  "Mesh \<Rightarrow> real \<Rightarrow> SearchNode \<Rightarrow> bool \<Rightarrow> Point \<Rightarrow> nat \<Rightarrow> Vertex \<Rightarrow> Vertex \<Rightarrow> Projection
     \<Rightarrow> error + (Projection \<times> bool)" where
  "projectLeft m EPSILON this reversed left i vertex nextVertex st =
     (case getIntersection EPSILON (n_root this) left vertex nextVertex of
        Inl e \<Rightarrow> Inl e
      | Inr (Some intersection) \<Rightarrow>
          (case findInside m EPSILON (n_nextPolygon this) intersection of
             Inl e \<Rightarrow> Inl e
           | Inr None \<Rightarrow> Inr (st, True)
           | Inr (Some l) \<Rightarrow>
               if getOrientation EPSILON (n_root this) l vertex \<noteq> CLOCKWISE
               then Inl (AssertionError
                           ''Left intersection should not be collinear or anticlockwise as it should have been handled prior'')
               else if equals EPSILON l nextVertex
               then (if reversed
                     then Inr (st\<lparr> newLeftPoint := Some (Point.truncate nextVertex),
                                   observable1 := Some (i + 1),
                                   nonObservableRight1 := Some (i + 1) \<rparr>, False)
                     else Inr (st\<lparr> newLeftPoint := Some (Point.truncate nextVertex),
                                   observable1 := Some (i + 1),
                                   nonObservableLeft0 := Some (i + 1) \<rparr>, False))
               else (if reversed
                     then Inr (st\<lparr> newLeftPoint := Some l,
                                   observable1 := Some (i + 1),
                                   nonObservableRight1 := Some (i + 1) \<rparr>, False)
                     else Inr (st\<lparr> newLeftPoint := Some l,
                                   observable1 := Some (i + 1),
                                   nonObservableLeft0 := Some i \<rparr>, False)))
      | Inr None \<Rightarrow>
          if reversed
          then Inr (st\<lparr> newLeftPoint := Some (Point.truncate nextVertex),
                        observable1 := Some (i + 1),
                        nonObservableRight1 := Some i \<rparr>, False)
          else Inr (st\<lparr> newLeftPoint := Some (Point.truncate nextVertex),
                        observable1 := Some (i + 1),
                        nonObservableLeft0 := Some (i + 1) \<rparr>, False))"

text \<open>The scan of the perimeter: the \<open>for\<close> loop with its \<open>continue\<close> and \<open>break\<close>.\<close>

fun project_loop ::
  "Mesh \<Rightarrow> real \<Rightarrow> SearchNode \<Rightarrow> bool \<Rightarrow> Point \<Rightarrow> Point \<Rightarrow> nat list \<Rightarrow> Projection
     \<Rightarrow> error + Projection" where
  "project_loop m EPSILON this reversed right left [] st = Inr st"
| "project_loop m EPSILON this reversed right left (i # rest) st =
     (let vertex = v (n_nextPolygon this) i;
          nextVertex = v (n_nextPolygon this) (i + 1)
      in case (if newRightPoint st = None
               then projectRight m EPSILON this reversed right i vertex nextVertex st
               else Inr (st, False)) of
           Inl e \<Rightarrow> Inl e
         | Inr (st1, continue1) \<Rightarrow>
             if continue1 then project_loop m EPSILON this reversed right left rest st1
             else
               (case (if newRightPoint st1 \<noteq> None \<and> newLeftPoint st1 = None
                      then projectLeft m EPSILON this reversed left i vertex nextVertex st1
                      else Inr (st1, False)) of
                  Inl e \<Rightarrow> Inl e
                | Inr (st2, continue2) \<Rightarrow>
                    if continue2 then project_loop m EPSILON this reversed right left rest st2
                    else if newRightPoint st2 \<noteq> None \<and> newLeftPoint st2 \<noteq> None
                    then Inr st2
                    else project_loop m EPSILON this reversed right left rest st2))"

definition project ::
  "Mesh \<Rightarrow> real \<Rightarrow> SearchNode \<Rightarrow> bool
     \<Rightarrow> error + (Point \<times> Point \<times> (nat \<times> nat) \<times> (nat \<times> nat) \<times> (nat \<times> nat))" where
  "project m EPSILON this reversed =
     (case n_rightVertex this of
        None \<Rightarrow> Inl (AssertionError ''Right vertex is not set'')
      | Some rightVertex \<Rightarrow>
     (case n_leftVertex this of
        None \<Rightarrow> Inl (AssertionError ''Left vertex is not set'')
      | Some leftVertex \<Rightarrow>
          let nVertices = length (vertices (n_nextPolygon this));
              leftLocalIndex =
                nat (indexOf (vIndices (n_nextPolygon this)) (v_id leftVertex) + int nVertices);
              rightLocalIndex =
                nat (indexOf (vIndices (n_nextPolygon this)) (v_id leftVertex) + int nVertices
                     + 1 - int nVertices);
              right = (if reversed then n_left this else n_right this);
              left = (if reversed then n_right this else n_left this)
          in case project_loop m EPSILON this reversed right left
                    [rightLocalIndex..<leftLocalIndex]
                    \<lparr> newRightPoint = None, newLeftPoint = None,
                      observable0 = None, observable1 = None,
                      nonObservableRight1 = None, nonObservableLeft0 = None \<rparr> of
               Inl e \<Rightarrow> Inl e
             | Inr st \<Rightarrow>
                 (case newRightPoint st of
                    None \<Rightarrow> Inl (AssertionError ''Right point is undefined'')
                  | Some newRight \<Rightarrow>
                 (case newLeftPoint st of
                    None \<Rightarrow> Inl (AssertionError ''Left point is undefined'')
                  | Some newLeft \<Rightarrow>
                 (case observable0 st of
                    None \<Rightarrow> Inl (AssertionError ''Observable range is undefined'')
                  | Some o0 \<Rightarrow>
                 (case observable1 st of
                    None \<Rightarrow> Inl (AssertionError ''Observable range is undefined'')
                  | Some o1 \<Rightarrow>
                      if \<not> o0 < o1 then Inl (AssertionError ''Observable range is invalid'')
                      else
                 (case nonObservableRight1 st of
                    None \<Rightarrow> Inl (AssertionError ''Non-observable right range is undefined'')
                  | Some r1 \<Rightarrow>
                 (case nonObservableLeft0 st of
                    None \<Rightarrow> Inl (AssertionError ''Non-observable left range is undefined'')
                  | Some l0 \<Rightarrow>
                      Inr (newRight, newLeft, (o0, o1), (rightLocalIndex, r1),
                           (l0, leftLocalIndex))))))))))"

fun splitSuccessors_loop ::
  "Mesh \<Rightarrow> real \<Rightarrow> SearchNode \<Rightarrow> Point \<Rightarrow> Point \<Rightarrow> nat \<times> nat \<Rightarrow> Point \<Rightarrow> nat list
     \<Rightarrow> error + SearchNode list" where
  "splitSuccessors_loop m EPSILON this right left range' newRoot [] = Inr []"
| "splitSuccessors_loop m EPSILON this right left range' newRoot (i # rest) =
     (let nVertices = length (vertices (n_nextPolygon this));
          vertex = v (n_nextPolygon this) i;
          nextVertex = v (n_nextPolygon this) (i + 1);
          rightPoint = (if i = fst range' then right else Point.truncate vertex);
          leftPoint = (if i + 1 = snd range' then left else Point.truncate nextVertex);
          nextPolygon = neighbours m (n_nextPolygon this) ! ((i + 1) mod nVertices)
      in if p_id nextPolygon = - 1
         then splitSuccessors_loop m EPSILON this right left range' newRoot rest
         else
           (case SearchNode_new EPSILON (Some this) newRoot rightPoint leftPoint
                   (Some vertex) (Some nextVertex) nextPolygon
                   (n_g this + distance EPSILON (n_root this) newRoot) (n_goal this) of
              Inl e \<Rightarrow> Inl e
            | Inr node \<Rightarrow>
                (case splitSuccessors_loop m EPSILON this right left range' newRoot rest of
                   Inl e \<Rightarrow> Inl e
                 | Inr nodes \<Rightarrow> Inr (node # nodes))))"

definition splitSuccessors ::
  "Mesh \<Rightarrow> real \<Rightarrow> SearchNode \<Rightarrow> Point \<Rightarrow> Point \<Rightarrow> nat \<times> nat \<Rightarrow> Point
     \<Rightarrow> error + SearchNode list" where
  "splitSuccessors m EPSILON this right left range' newRoot =
     splitSuccessors_loop m EPSILON this right left range' newRoot [fst range'..<snd range']"

definition genSuccessors :: "Mesh \<Rightarrow> real \<Rightarrow> SearchNode \<Rightarrow> error + SearchNode list" where
  "genSuccessors m EPSILON this =
     (case n_rightVertex this of
        None \<Rightarrow> Inl (AssertionError ''Right vertex is not set'')
      | Some rightVertex \<Rightarrow>
     (case n_leftVertex this of
        None \<Rightarrow> Inl (AssertionError ''Left vertex is not set'')
      | Some leftVertex \<Rightarrow>
     (case negate EPSILON (n_root this) of
        Inl e \<Rightarrow> Inl e
      | Inr negated \<Rightarrow>
     (case containsPoint m EPSILON (n_nextPolygon this) negated of
        Inl e \<Rightarrow> Inl e
      | Inr c \<Rightarrow>
     (case project m EPSILON this (pc_type c \<noteq> OUTSIDE) of
        Inl e \<Rightarrow> Inl e
      | Inr (newRight, newLeft, observableRange, nonObservableRightRange,
             nonObservableLeftRange) \<Rightarrow>
     (case splitSuccessors m EPSILON this newRight newLeft observableRange (n_root this) of
        Inl e \<Rightarrow> Inl e
      | Inr s1 \<Rightarrow>
     (case (if equals EPSILON (n_right this) rightVertex \<and> isCorner rightVertex \<and>
               snd nonObservableRightRange > fst nonObservableRightRange
            then splitSuccessors m EPSILON this (Point.truncate rightVertex) newRight
                   nonObservableRightRange (n_right this)
            else Inr []) of
        Inl e \<Rightarrow> Inl e
      | Inr s2 \<Rightarrow>
     (case (if equals EPSILON (n_left this) leftVertex \<and> isCorner leftVertex \<and>
               snd nonObservableLeftRange > fst nonObservableLeftRange
            then splitSuccessors m EPSILON this newLeft (Point.truncate leftVertex)
                   nonObservableLeftRange (n_left this)
            else Inr []) of
        Inl e \<Rightarrow> Inl e
      | Inr s3 \<Rightarrow> Inr (s1 @ s2 @ s3)))))))))"

section \<open>SearchInstance.ts\<close>

text \<open>
  The instance's state is its open list (a heap ordered by \<open>lt\<close>), its history map
  and its final node; \<open>_start\<close> and \<open>_end\<close> are the parameters \<open>start\<close> and \<open>end'\<close>.
  \<open>genInitNodes\<close> returns the open list and the final node, if it set one.
\<close>

fun genInitNodes_edges ::
  "Mesh \<Rightarrow> real \<Rightarrow> Point \<Rightarrow> Point \<Rightarrow> Polygon \<Rightarrow> nat list \<Rightarrow> SearchNode list
     \<Rightarrow> error + SearchNode list" where
  "genInitNodes_edges m EPSILON start end' polygon [] openList = Inr openList"
| "genInitNodes_edges m EPSILON start end' polygon (i # rest) openList =
     (let nVertices = length (vertices polygon);
          right = vertices polygon ! i;
          left = vertices polygon ! ((i + 1) mod nVertices)
      in case (if getOrientation EPSILON start right left = COLLINEAR
               then isBounded EPSILON start right left else Inr False) of
           Inl e \<Rightarrow> Inl e
         | Inr onEdge \<Rightarrow>
             if onEdge then genInitNodes_edges m EPSILON start end' polygon rest openList
             else
               let nextPolygon = neighbours m polygon ! ((i + 1) mod nVertices)
               in if p_id nextPolygon = - 1
                  then genInitNodes_edges m EPSILON start end' polygon rest openList
                  else
                    (case SearchNode_new EPSILON None start (Point.truncate right)
                            (Point.truncate left) (Some right) (Some left) nextPolygon 0 end' of
                       Inl e \<Rightarrow> Inl e
                     | Inr node \<Rightarrow>
                         genInitNodes_edges m EPSILON start end' polygon rest
                           (push lt openList [node])))"

fun genInitNodes_polygons ::
  "Mesh \<Rightarrow> real \<Rightarrow> Point \<Rightarrow> Point \<Rightarrow> Polygon list \<Rightarrow> Polygon list \<Rightarrow> SearchNode list
     \<Rightarrow> error + (SearchNode list \<times> SearchNode option)" where
  "genInitNodes_polygons m EPSILON start end' endPolygons [] openList = Inr (openList, None)"
| "genInitNodes_polygons m EPSILON start end' endPolygons (polygon # rest) openList =
     (if list_ex (\<lambda>p. p_id p = p_id polygon) endPolygons
      then (case SearchNode_new EPSILON None start end' end' None None polygon 0 end' of
              Inl e \<Rightarrow> Inl e
            | Inr node \<Rightarrow> Inr (openList, Some node))
      else (case genInitNodes_edges m EPSILON start end' polygon
                   [0..<length (vertices polygon)] openList of
              Inl e \<Rightarrow> Inl e
            | Inr openList' \<Rightarrow>
                genInitNodes_polygons m EPSILON start end' endPolygons rest openList'))"

definition genInitNodes ::
  "Mesh \<Rightarrow> real \<Rightarrow> Point \<Rightarrow> Point \<Rightarrow> Polygon list \<Rightarrow> SearchNode list
     \<Rightarrow> error + (SearchNode list \<times> SearchNode option)" where
  "genInitNodes m EPSILON start end' endPolygons openList =
     (case getPointLocation m EPSILON start of
        Inl e \<Rightarrow> Inl e
      | Inr pl \<Rightarrow>
          if pl_type pl = L_IN_OBSTACLE then Inr (openList, None)
          else genInitNodes_polygons m EPSILON start end' endPolygons (pl_polygons pl) openList)"

text \<open>\<open>getPath\<close>: the walk up the parent links, from the node to the start.\<close>

fun getPath_loop :: "real \<Rightarrow> SearchNode option \<Rightarrow> Point \<Rightarrow> Point list \<Rightarrow> Point list" where
  "getPath_loop EPSILON None last' path = path"
| "getPath_loop EPSILON (Some (SearchNode parent root' right left rv lv np g h goal)) last' path =
     (if \<not> equals EPSILON root' last'
      then getPath_loop EPSILON parent root' (root' # path)
      else getPath_loop EPSILON parent last' path)"

definition getPath :: "real \<Rightarrow> Point \<Rightarrow> SearchNode \<Rightarrow> Point list" where
  "getPath EPSILON end' node = getPath_loop EPSILON (Some node) end' [end']"

text \<open>The loop over the successors of a popped node, with the history map.\<close>

fun pushSuccessors ::
  "real \<Rightarrow> SearchNode list \<Rightarrow> SearchNode list \<Rightarrow> (int \<times> int \<rightharpoonup> real)
     \<Rightarrow> SearchNode list \<times> (int \<times> int \<rightharpoonup> real)" where
  "pushSuccessors EPSILON [] openList history = (openList, history)"
| "pushSuccessors EPSILON (successor # rest) openList history =
     (let key = asKey EPSILON (n_root successor)
      in if (case history key of None \<Rightarrow> True | Some known \<Rightarrow> known \<ge> n_g successor)
         then pushSuccessors EPSILON rest (push lt openList [successor])
                (history(key \<mapsto> n_g successor))
         else pushSuccessors EPSILON rest openList history)"

text \<open>
  The \<open>while\<close> loop of \<open>search\<close>, which may run forever: not returning is \<open>None\<close>. It
  returns the pair \<open>(path, length)\<close> or the error thrown.
\<close>

partial_function (option) searchLoop ::
  "Mesh \<Rightarrow> real \<Rightarrow> Point \<Rightarrow> Polygon list \<Rightarrow> SearchNode list \<Rightarrow> (int \<times> int \<rightharpoonup> real)
     \<Rightarrow> (error + (Point list \<times> real)) option" where
  "searchLoop m EPSILON end' endPolygons openList history =
     (if isEmpty openList then Some (Inr ([], 0))
      else
        (case pop lt openList of
           Inl e \<Rightarrow> Some (Inl e)
         | Inr (node, openList') \<Rightarrow>
             if list_ex (\<lambda>p. p_id p = p_id (n_nextPolygon node)) endPolygons
             then (case genFinalNode m EPSILON node of
                     Inl e \<Rightarrow> Some (Inl e)
                   | Inr finalNode \<Rightarrow>
                       Some (Inr (getPath EPSILON end' finalNode, n_f finalNode)))
             else (case genSuccessors m EPSILON node of
                     Inl e \<Rightarrow> Some (Inl e)
                   | Inr successors \<Rightarrow>
                       (case pushSuccessors EPSILON successors openList' history of
                          (openList'', history') \<Rightarrow>
                            searchLoop m EPSILON end' endPolygons openList'' history'))))"

definition search ::
  "Mesh \<Rightarrow> real \<Rightarrow> Point \<Rightarrow> Point \<Rightarrow> (error + (Point list \<times> real)) option" where
  "search m EPSILON start end' =
     (case getPointLocation m EPSILON end' of
        Inl e \<Rightarrow> Some (Inl e)
      | Inr plEnd \<Rightarrow>
          let endPolygons = pl_polygons plEnd
          in if length endPolygons = 0 then Some (Inr ([], 0))
             else
               (case genInitNodes m EPSILON start end' endPolygons [] of
                  Inl e \<Rightarrow> Some (Inl e)
                | Inr (openList, finalNode) \<Rightarrow>
                    (case finalNode of
                       Some node \<Rightarrow> Some (Inr ([start, end'], distance EPSILON start end'))
                     | None \<Rightarrow> searchLoop m EPSILON end' endPolygons openList Map.empty)))"

section \<open>The heuristic as the specification words it\<close>

text \<open>
  Step 3 of the specification of the heuristic, for a goal \<open>goal'\<close> that has already
  been reflected if it had to be: through right when the goal is \<open>CLOCKWISE\<close> of
  (root, right), through left when it is \<open>ANTICLOCKWISE\<close> of (root, left), and straight
  otherwise. This definition follows the specification's words; \<open>SearchNode_new\<close> is the
  code.
\<close>

definition h_spec :: "real \<Rightarrow> Point \<Rightarrow> Point \<Rightarrow> Point \<Rightarrow> Point \<Rightarrow> real" where
  "h_spec EPSILON root' right left goal' =
     (if getOrientation EPSILON root' right goal' = CLOCKWISE
      then distance EPSILON root' right + distance EPSILON right goal'
      else if getOrientation EPSILON root' left goal' = ANTICLOCKWISE
      then distance EPSILON root' left + distance EPSILON left goal'
      else distance EPSILON root' goal')"

section \<open>A concrete mesh\<close>

text \<open>
  The data of the concrete scenarios: the tolerance 1e-9, the upper front face of the
  unit octahedron (vertices (90, 0), (0, 0), (0, 90)) as a mesh of one polygon, the
  point (45, 45) inside the face and the point (-45, 45) south of it.
\<close>

definition ex_EPSILON :: real where
  "ex_EPSILON = 1 / 10 ^ 9"

definition ex_N :: Vertex where
  "ex_N = \<lparr> x = 0, y = 0, z = 1, lat = 90, lon = 0,
            v_id = 0, isCorner = True, isAmbiguous = False, pIndices = [0, - 1] \<rparr>"

definition ex_A :: Vertex where
  "ex_A = \<lparr> x = 1, y = 0, z = 0, lat = 0, lon = 0,
            v_id = 1, isCorner = True, isAmbiguous = False, pIndices = [0, - 1] \<rparr>"

definition ex_B :: Vertex where
  "ex_B = \<lparr> x = 0, y = 1, z = 0, lat = 0, lon = 90,
            v_id = 2, isCorner = True, isAmbiguous = False, pIndices = [0, - 1] \<rparr>"

definition ex_face :: Polygon where
  "ex_face = \<lparr> p_id = 0, vIndices = [0, 1, 2], nIndices = [- 1, - 1, - 1],
               vertices = [ex_N, ex_A, ex_B], isOneWay = True \<rparr>"

definition ex_mesh :: Mesh where
  "ex_mesh = \<lparr> m_vertices = [ex_N, ex_A, ex_B], m_polygons = [ex_face] \<rparr>"

definition ex_G :: Point where
  "ex_G = \<lparr> x = 1 / 2, y = 1 / 2, z = sqrt 2 / 2, lat = 45, lon = 45 \<rparr>"

definition ex_S :: Point where
  "ex_S = \<lparr> x = 1 / 2, y = 1 / 2, z = - (sqrt 2 / 2), lat = - 45, lon = 45 \<rparr>"

text \<open>
  A search node whose root is (-45, 45), whose interval is the edge from (0, 90) to
  (0, 0) seen from the south, whose next polygon is the face and whose goal is (45, 45).
\<close>

definition ex_node :: SearchNode where
  "ex_node = SearchNode None ex_S (Point.truncate ex_B) (Point.truncate ex_A)
               (Some ex_B) (Some ex_A) ex_face 0 90 ex_G"

text \<open>The points (45, 0), (-45, 0) and (0, 45).\<close>

definition ex_P :: Point where
  "ex_P = \<lparr> x = sqrt 2 / 2, y = 0, z = sqrt 2 / 2, lat = 45, lon = 0 \<rparr>"

definition ex_P' :: Point where
  "ex_P' = \<lparr> x = sqrt 2 / 2, y = 0, z = - (sqrt 2 / 2), lat = - 45, lon = 0 \<rparr>"

definition ex_L :: Point where
  "ex_L = \<lparr> x = sqrt 2 / 2, y = sqrt 2 / 2, z = 0, lat = 0, lon = 45 \<rparr>"

text \<open>
  The mesh file of that mesh, line by line, and a second file in which the incident
  list of the first vertex ends in two adjacent obstacle sectors.
\<close>

definition ex_vlines :: "(real \<times> real \<times> int \<times> int list) list" where
  "ex_vlines = [(90, 0, 2, [0, - 1]), (0, 0, 2, [0, - 1]), (0, 90, 2, [0, - 1])]"

definition ex_plines :: "(int \<times> int list) list" where
  "ex_plines = [(3, [0, 1, 2, - 1, - 1, - 1])]"

definition ex_vlines_adj :: "(real \<times> real \<times> int \<times> int list) list" where
  "ex_vlines_adj = [(90, 0, 3, [0, - 1, - 1]), (0, 0, 2, [0, - 1]), (0, 90, 2, [0, - 1])]"

definition ex_N_adj :: Vertex where
  "ex_N_adj = \<lparr> x = 0, y = 0, z = 1, lat = 90, lon = 0,
                v_id = 0, isCorner = True, isAmbiguous = True, pIndices = [0, - 1, - 1] \<rparr>"

definition ex_mesh_adj :: Mesh where
  "ex_mesh_adj = \<lparr> m_vertices = [ex_N_adj, ex_A, ex_B],
                   m_polygons = [ex_face\<lparr> vertices := [ex_N_adj, ex_A, ex_B] \<rparr>] \<rparr>"

text \<open>
  A second node with the same \<open>f = 90\<close> as \<open>ex_node\<close> and the larger \<open>g = 10\<close>, and a
  third node with \<open>f = 95\<close>.
\<close>

definition ex_node_tie :: SearchNode where
  "ex_node_tie = SearchNode None ex_S (Point.truncate ex_B) (Point.truncate ex_A)
                   (Some ex_B) (Some ex_A) ex_face 10 80 ex_G"

definition ex_node_far :: SearchNode where
  "ex_node_far = SearchNode None ex_S (Point.truncate ex_B) (Point.truncate ex_A)
                   (Some ex_B) (Some ex_A) ex_face 5 90 ex_G"


text \<open>
  A mesh of three triangles around the edge from (0, 0) to (0, 45): the triangle
  \<open>tri_low\<close> = (0, 0), (0, 45), (45, 0) north of that edge, the triangle \<open>tri_high\<close> =
  (90, 0), (45, 0), (0, 45) above it, which reaches the pole, and the triangle
  \<open>tri_south\<close> = (0, 45), (0, 0), (-45, 0) south of the edge. Each ring is anticlockwise,
  the neighbour across the edge from vertex \<open>i\<close> to vertex \<open>i + 1\<close> is entry \<open>i + 1\<close> of
  the neighbour list, and each vertex lists its sectors anticlockwise. Then the mesh
  file, line by line, and the pole (90, 0) as a point.
\<close>

definition tri_A :: Vertex where
  "tri_A = \<lparr> x = 1, y = 0, z = 0, lat = 0, lon = 0,
             v_id = 0, isCorner = True, isAmbiguous = False, pIndices = [2, 0, - 1] \<rparr>"

definition tri_L :: Vertex where
  "tri_L = \<lparr> x = sqrt 2 / 2, y = sqrt 2 / 2, z = 0, lat = 0, lon = 45,
             v_id = 1, isCorner = True, isAmbiguous = False, pIndices = [1, 0, 2, - 1] \<rparr>"

definition tri_P :: Vertex where
  "tri_P = \<lparr> x = sqrt 2 / 2, y = 0, z = sqrt 2 / 2, lat = 45, lon = 0,
             v_id = 2, isCorner = True, isAmbiguous = False, pIndices = [0, 1, - 1] \<rparr>"

definition tri_N :: Vertex where
  "tri_N = \<lparr> x = 0, y = 0, z = 1, lat = 90, lon = 0,
             v_id = 3, isCorner = True, isAmbiguous = False, pIndices = [1, - 1] \<rparr>"

definition tri_Q :: Vertex where
  "tri_Q = \<lparr> x = sqrt 2 / 2, y = 0, z = - (sqrt 2 / 2), lat = - 45, lon = 0,
             v_id = 4, isCorner = True, isAmbiguous = False, pIndices = [2, - 1] \<rparr>"

definition tri_low :: Polygon where
  "tri_low = \<lparr> p_id = 0, vIndices = [0, 1, 2], nIndices = [- 1, 2, 1],
               vertices = [tri_A, tri_L, tri_P], isOneWay = False \<rparr>"

definition tri_high :: Polygon where
  "tri_high = \<lparr> p_id = 1, vIndices = [3, 2, 1], nIndices = [- 1, - 1, 0],
                vertices = [tri_N, tri_P, tri_L], isOneWay = True \<rparr>"

definition tri_south :: Polygon where
  "tri_south = \<lparr> p_id = 2, vIndices = [1, 0, 4], nIndices = [- 1, 0, - 1],
                 vertices = [tri_L, tri_A, tri_Q], isOneWay = True \<rparr>"

definition tri_mesh :: Mesh where
  "tri_mesh = \<lparr> m_vertices = [tri_A, tri_L, tri_P, tri_N, tri_Q],
                m_polygons = [tri_low, tri_high, tri_south] \<rparr>"

definition tri_vlines :: "(real \<times> real \<times> int \<times> int list) list" where
  "tri_vlines = [(0, 0, 3, [2, 0, - 1]), (0, 45, 4, [1, 0, 2, - 1]), (45, 0, 3, [0, 1, - 1]),
                 (90, 0, 2, [1, - 1]), (- 45, 0, 2, [2, - 1])]"

definition tri_plines :: "(int \<times> int list) list" where
  "tri_plines = [(3, [0, 1, 2, - 1, 2, 1]), (3, [3, 2, 1, - 1, - 1, 0]),
                 (3, [1, 0, 4, - 1, 0, - 1])]"

definition ex_pole :: Point where
  "ex_pole = \<lparr> x = 0, y = 0, z = 1, lat = 90, lon = 0 \<rparr>"

text \<open>
  Four nodes by their costs, with \<open>g = 0\<close> and \<open>h\<close> = 3, NaN, 5 and 1.
\<close>

definition ex_c3 :: NodeCosts where
  "ex_c3 = \<lparr> c_g = Num 0, c_h = Num 3 \<rparr>"

definition ex_cNaN :: NodeCosts where
  "ex_cNaN = \<lparr> c_g = Num 0, c_h = NaN \<rparr>"

definition ex_c5 :: NodeCosts where
  "ex_c5 = \<lparr> c_g = Num 0, c_h = Num 5 \<rparr>"

definition ex_c1 :: NodeCosts where
  "ex_c1 = \<lparr> c_g = Num 0, c_h = Num 1 \<rparr>"

text \<open>
  A mesh of one small triangle, with vertices (0, 0), (0, 0.001) and (0.001, 0) in
  anticlockwise order; \<open>tiny_angle\<close> is 0.001 degrees in radians. Then its mesh file.
\<close>

definition tiny_angle :: real where
  "tiny_angle = pi / 180000"

definition tiny_V0 :: Vertex where
  "tiny_V0 = \<lparr> x = 1, y = 0, z = 0, lat = 0, lon = 0,
               v_id = 0, isCorner = True, isAmbiguous = False, pIndices = [0, - 1] \<rparr>"

definition tiny_V1 :: Vertex where
  "tiny_V1 = \<lparr> x = cos tiny_angle, y = sin tiny_angle, z = 0, lat = 0, lon = 1 / 1000,
               v_id = 1, isCorner = True, isAmbiguous = False, pIndices = [0, - 1] \<rparr>"

definition tiny_V2 :: Vertex where
  "tiny_V2 = \<lparr> x = cos tiny_angle, y = 0, z = sin tiny_angle, lat = 1 / 1000, lon = 0,
               v_id = 2, isCorner = True, isAmbiguous = False, pIndices = [0, - 1] \<rparr>"

definition tiny_face :: Polygon where
  "tiny_face = \<lparr> p_id = 0, vIndices = [0, 1, 2], nIndices = [- 1, - 1, - 1],
                 vertices = [tiny_V0, tiny_V1, tiny_V2], isOneWay = True \<rparr>"

definition tiny_mesh :: Mesh where
  "tiny_mesh = \<lparr> m_vertices = [tiny_V0, tiny_V1, tiny_V2], m_polygons = [tiny_face] \<rparr>"

definition tiny_vlines :: "(real \<times> real \<times> int \<times> int list) list" where
  "tiny_vlines = [(0, 0, 2, [0, - 1]), (0, 1 / 1000, 2, [0, - 1]), (1 / 1000, 0, 2, [0, - 1])]"

definition tiny_plines :: "(int \<times> int list) list" where
  "tiny_plines = [(3, [0, 1, 2, - 1, - 1, - 1])]"

text \<open>
  Two points near the north pole, 5e-10 and 1.2e-9 degrees of latitude away from it and
  100 degrees of longitude apart.
\<close>

definition ex_near :: Point where
  "ex_near = \<lparr> x = cos ((90 - 5 / 10 ^ 10) * TO_RAD) * cos (0 * TO_RAD),
               y = cos ((90 - 5 / 10 ^ 10) * TO_RAD) * sin (0 * TO_RAD),
               z = sin ((90 - 5 / 10 ^ 10) * TO_RAD),
               lat = 90 - 5 / 10 ^ 10, lon = 0 \<rparr>"

definition ex_far :: Point where
  "ex_far = \<lparr> x = cos ((90 - 12 / 10 ^ 10) * TO_RAD) * cos (100 * TO_RAD),
                 y = cos ((90 - 12 / 10 ^ 10) * TO_RAD) * sin (100 * TO_RAD),
                 z = sin ((90 - 12 / 10 ^ 10) * TO_RAD),
                 lat = 90 - 12 / 10 ^ 10, lon = 100 \<rparr>"
section \<open>Basic facts of the geometry kernel and of node construction\<close>

lemma equals_refl: "0 < EPSILON \<Longrightarrow> equals EPSILON p p"
  by (simp add: equals_def isZero_def)

lemma getOrientation_same23: "0 < EPSILON \<Longrightarrow> getOrientation EPSILON p q q = COLLINEAR"
  by (simp add: getOrientation_def equals_refl)

lemma getOrientation_same12: "0 < EPSILON \<Longrightarrow> getOrientation EPSILON p p q = COLLINEAR"
  by (simp add: getOrientation_def equals_refl)

lemma SearchNode_new_degenerate:
  assumes "0 < EPSILON" "p_id nextPolygon \<noteq> - 1"
  shows "SearchNode_new EPSILON parent root' goal goal rv lv nextPolygon g goal =
     Inr (SearchNode parent root' goal goal rv lv nextPolygon g (distance EPSILON root' goal) goal)"
  using assms
  by (simp add: SearchNode_new_def getOrientation_same23 getOrientation_same12)

lemma SearchNode_new_Inr_fields:
  assumes "SearchNode_new EPSILON parent root' right left rightVertex leftVertex nextPolygon g goal = Inr n"
  shows "n_parent n = parent" "n_root n = root'" "n_right n = right" "n_left n = left"
    "n_rightVertex n = rightVertex" "n_leftVertex n = leftVertex"
    "n_nextPolygon n = nextPolygon" "n_g n = g" "n_goal n = goal"
    "getOrientation EPSILON root' right left \<noteq> CLOCKWISE" "p_id nextPolygon \<noteq> - 1"
proof -
  from assms have a: "getOrientation EPSILON root' right left \<noteq> CLOCKWISE"
    and b: "p_id nextPolygon \<noteq> - 1"
    by (simp_all add: SearchNode_new_def split: if_splits)
  from assms a b have "\<exists>hv. n = SearchNode parent root' right left rightVertex leftVertex nextPolygon g hv goal"
    by (simp add: SearchNode_new_def split: if_splits sum.splits) blast+
  then obtain hv where n: "n = SearchNode parent root' right left rightVertex leftVertex nextPolygon g hv goal" ..
  show "n_parent n = parent" "n_root n = root'" "n_right n = right" "n_left n = left"
    "n_rightVertex n = rightVertex" "n_leftVertex n = leftVertex"
    "n_nextPolygon n = nextPolygon" "n_g n = g" "n_goal n = goal"
    by (simp_all add: n)
  show "getOrientation EPSILON root' right left \<noteq> CLOCKWISE" by (rule a)
  show "p_id nextPolygon \<noteq> - 1" by (rule b)
qed

section \<open>Evaluation of the concrete mesh\<close>

lemmas ex_defs = ex_EPSILON_def ex_N_def ex_A_def ex_B_def ex_face_def ex_mesh_def ex_G_def ex_S_def
lemmas geo_defs = getOrientation_def equals_def isZero_def isPolar_def isEqual_def cross_def dot_def
   Point.truncate_def

lemma sqrt2_big: "1 / 10 ^ 9 < sqrt 2 / 2" "\<not> sqrt 2 / 2 < 1 / 10 ^ 9"
proof -
  have "1 \<le> sqrt 2" by simp
  then have "1 / 2 \<le> sqrt 2 / 2" by simp
  moreover have "(1::real) / 10 ^ 9 < 1 / 2" by simp
  ultimately show "1 / 10 ^ 9 < sqrt 2 / 2" by linarith
  then show "\<not> sqrt 2 / 2 < 1 / 10 ^ 9" by simp
qed

lemma ex_Point_new:
  "Point_new 45 45 None = Inr ex_G"
  "Point_new (- 45) 45 None = Inr ex_S"
  "Point_new 90 0 None = Inr (Point.truncate ex_N)"
  "Point_new 0 0 None = Inr (Point.truncate ex_A)"
  "Point_new 0 90 None = Inr (Point.truncate ex_B)"
  by (simp_all add: Point_new_def TO_RAD_def ex_defs cos_45 sin_45 Point.truncate_def)

lemma ex_orientations:
  "getOrientation ex_EPSILON ex_S (Point.truncate ex_B) (Point.truncate ex_A) = ANTICLOCKWISE"
  "getOrientation ex_EPSILON ex_G (Point.truncate ex_B) (Point.truncate ex_A) = CLOCKWISE"
  "getOrientation ex_EPSILON ex_S (Point.truncate ex_B) ex_G = ANTICLOCKWISE"
  "getOrientation ex_EPSILON ex_S (Point.truncate ex_A) ex_G = CLOCKWISE"
  "getOrientation ex_EPSILON ex_N ex_A ex_G = ANTICLOCKWISE"
  "getOrientation ex_EPSILON ex_A ex_B ex_G = ANTICLOCKWISE"
  "getOrientation ex_EPSILON ex_B ex_N ex_G = ANTICLOCKWISE"
  using sqrt2_big by (simp_all add: ex_defs geo_defs)

lemma ex_not_equals:
  "\<not> equals ex_EPSILON ex_S (Point.truncate ex_A)"
  "\<not> equals ex_EPSILON ex_S (Point.truncate ex_B)"
  "\<not> equals ex_EPSILON ex_G ex_N"
  "\<not> equals ex_EPSILON ex_G ex_A"
  "\<not> equals ex_EPSILON ex_G ex_B"
  "\<not> equals ex_EPSILON ex_S ex_G"
  by (simp_all add: ex_defs geo_defs)

lemma ex_distance: "distance ex_EPSILON ex_S ex_G = 90"
  by (simp add: distance_def cosDistance_def ex_defs geo_defs TO_RAD_def TO_DEG_def cos_45 sin_45)

lemma ex_node_new:
  "SearchNode_new ex_EPSILON None ex_S (Point.truncate ex_B) (Point.truncate ex_A)
     (Some ex_B) (Some ex_A) ex_face 0 ex_G = Inr ex_node"
  by (simp add: SearchNode_new_def ex_orientations ex_not_equals ex_distance ex_node_def)
     (simp add: ex_face_def)

lemma ex_containsPoint_G:
  "containsPoint ex_mesh ex_EPSILON ex_face ex_G =
     Inr \<lparr> pc_type = INSIDE, pc_adjPoly = Obstacle, pc_verts = [] \<rparr>"
proof -
  have vs: "vertices ex_face = [ex_N, ex_A, ex_B]" by (simp add: ex_face_def)
  show ?thesis
    unfolding containsPoint_def
    apply (subst containsPoint_loop.simps)
    apply (simp add: vs v_def ex_not_equals ex_orientations)
    apply (subst containsPoint_loop.simps)
    apply (simp add: vs v_def ex_not_equals ex_orientations)
    apply (subst containsPoint_loop.simps)
    apply (simp add: vs v_def ex_not_equals ex_orientations)
    apply (subst containsPoint_loop.simps)
    apply (simp add: vs v_def ex_not_equals ex_orientations)
    done
qed

lemma ex_strictlyConvex: "strictlyConvex ex_EPSILON (vertices ex_face)"
proof -
  have vs: "vertices ex_face = [ex_N, ex_A, ex_B]" by (simp add: ex_face_def)
  have o: "getOrientation ex_EPSILON ex_N ex_A ex_B = ANTICLOCKWISE"
    "getOrientation ex_EPSILON ex_A ex_B ex_N = ANTICLOCKWISE"
    "getOrientation ex_EPSILON ex_B ex_N ex_A = ANTICLOCKWISE"
    by (simp_all add: ex_defs geo_defs)
  have "getOrientation ex_EPSILON ([ex_N, ex_A, ex_B] ! i) ([ex_N, ex_A, ex_B] ! ((i + 1) mod 3))
          ([ex_N, ex_A, ex_B] ! k) = ANTICLOCKWISE"
    if "i < 3" "k < 3" "k \<noteq> i" "k \<noteq> (i + 1) mod 3" for i k :: nat
  proof -
    from that(1) consider "i = 0" | "i = 1" | "i = 2" by linarith
    then show ?thesis
    proof cases
      case 1
      with that have "k = 2" by simp
      with 1 show ?thesis by (simp add: o)
    next
      case 2
      with that have "k = 0" by simp
      with 2 show ?thesis by (simp add: o)
    next
      case 3
      with that have "k = 1" by simp
      with 3 show ?thesis by (simp add: o)
    qed
  qed
  then show ?thesis by (simp add: strictlyConvex_def vs)
qed

section \<open>Point location never fails on a point of the unit sphere\<close>

text \<open>
  The only assertions that \<open>containsPoint\<close> and \<open>getPointLocation\<close> can reach are
  those of \<open>negate\<close> (through \<open>isBounded\<close>): the zero test of \<open>fromVector\<close> and the
  range checks of the \<open>Point\<close> constructor. For a point built by \<open>new Point(lat, lon)\<close>
  the vector has norm 1, so with a tolerance of at most 1 none of them fires.
\<close>

lemma atan2_bounds: "- pi \<le> atan2 b a \<and> atan2 b a \<le> pi"
proof -
  have l: "- (pi / 2) < arctan (b / a)" and u: "arctan (b / a) < pi / 2"
    by (rule arctan_lbound, rule arctan_ubound)
  have p: "0 < pi" by (rule pi_gt_zero)
  consider "0 < a" | "a < 0" "0 \<le> b" | "a < 0" "b < 0" | "a = 0"
    by linarith
  then show ?thesis
  proof cases
    case 1
    then have "atan2 b a = arctan (b / a)" by (simp add: atan2_def)
    then show ?thesis using l u p by linarith
  next
    case 2
    then have "b / a \<le> 0" by (simp add: divide_nonneg_neg)
    then have "arctan (b / a) \<le> 0" by (simp only: arctan_le_zero_iff)
    moreover have "atan2 b a = arctan (b / a) + pi" using 2 by (simp add: atan2_def)
    ultimately show ?thesis using l p by linarith
  next
    case 3
    then have "0 < b / a" by (simp add: divide_neg_neg)
    then have "0 < arctan (b / a)" by (simp only: zero_less_arctan_iff)
    moreover have "atan2 b a = arctan (b / a) - pi" using 3 by (simp add: atan2_def)
    ultimately show ?thesis using u p by linarith
  next
    case 4
    then have "atan2 b a = pi / 2 \<or> atan2 b a = - (pi / 2) \<or> atan2 b a = 0"
      by (simp add: atan2_def)
    then show ?thesis using p by linarith
  qed
qed

lemma deg_bounds:
  "- (pi / 2) \<le> t \<Longrightarrow> t \<le> pi / 2 \<Longrightarrow> - 90 \<le> t * TO_DEG \<and> t * TO_DEG \<le> 90"
  "- pi \<le> s \<Longrightarrow> s \<le> pi \<Longrightarrow> - 180 \<le> s * TO_DEG \<and> s * TO_DEG \<le> 180"
  using pi_gt_zero by (simp_all add: TO_DEG_def field_simps)

lemma z_over_norm: "\<bar>z u / normV u\<bar> \<le> 1"
proof -
  have "(z u)\<^sup>2 \<le> (x u)\<^sup>2 + (y u)\<^sup>2 + (z u)\<^sup>2" by simp
  then have "sqrt ((z u)\<^sup>2) \<le> normV u" unfolding normV_def by (rule real_sqrt_le_mono)
  then have a: "\<bar>z u\<bar> \<le> normV u" by simp
  have b: "0 \<le> normV u" by (simp add: normV_def)
  show ?thesis
  proof (cases "normV u = 0")
    case True
    then show ?thesis by simp
  next
    case False
    with a b show ?thesis by (simp add: field_simps)
  qed
qed

lemma Point_new_total:
  "- 90 \<le> la \<Longrightarrow> la \<le> 90 \<Longrightarrow> - 180 \<le> lo \<Longrightarrow> lo \<le> 180 \<Longrightarrow> \<exists>q. Point_new la lo vec = Inr q"
  by (cases vec) (simp_all add: Point_new_def)

lemma fromVector_total:
  assumes "\<not> isZero EPSILON (normV vec)"
  shows "\<exists>q. fromVector EPSILON vec b = Inr q"
proof -
  have "- 1 \<le> z vec / normV vec" "z vec / normV vec \<le> 1"
    using z_over_norm[of vec] by linarith+
  then have "- (pi / 2) \<le> arcsin (z vec / normV vec)" "arcsin (z vec / normV vec) \<le> pi / 2"
    using arcsin_bounded by blast+
  then have la: "- 90 \<le> arcsin (z vec / normV vec) * TO_DEG"
    "arcsin (z vec / normV vec) * TO_DEG \<le> 90"
    using deg_bounds(1) by blast+
  have lo: "- 180 \<le> atan2 (y vec) (x vec) * TO_DEG" "atan2 (y vec) (x vec) * TO_DEG \<le> 180"
    using deg_bounds(2) atan2_bounds by blast+
  show ?thesis
    using assms Point_new_total[OF la lo]
    by (simp add: fromVector_def Let_def normalise_def)
qed

lemma normV_negate: "normV (Vector_negate p) = normV p"
  by (simp add: normV_def Vector_negate_def)

lemma negate_total:
  assumes "normV p = 1" "EPSILON \<le> 1"
  shows "\<exists>q. negate EPSILON p = Inr q"
  unfolding negate_def
  using assms by (intro fromVector_total) (simp add: normV_negate isZero_def)

lemma isBounded_total:
  assumes "normV p = 1" "EPSILON \<le> 1"
  shows "\<exists>b. isBounded EPSILON p r l = Inr b"
proof -
  from negate_total[OF assms] obtain q where "negate EPSILON p = Inr q" ..
  then show ?thesis by (auto simp add: isBounded_def Let_def)
qed

lemma containsPoint_loop_total:
  assumes "normV p = 1" "EPSILON \<le> 1"
  shows "\<exists>c. containsPoint_loop m EPSILON polygon p onEdge i = Inr c"
proof (induction "length (vertices polygon) - i" arbitrary: i onEdge)
  case 0
  then show ?case by (subst containsPoint_loop.simps) simp
next
  case (Suc n)
  then have i: "i < length (vertices polygon)" and n: "n = length (vertices polygon) - (i + 1)"
    by simp_all
  from isBounded_total[OF assms] obtain b where
    b: "isBounded EPSILON p (v polygon i) (v polygon (i + 1)) = Inr b" by blast
  from Suc.hyps(1)[OF n] have ih: "\<exists>c. containsPoint_loop m EPSILON polygon p oe (i + 1) = Inr c" for oe
    by blast
  show ?case
    apply (subst containsPoint_loop.simps)
    using i ih[of b] ih[of onEdge] ih[of False] by (auto simp add: Let_def b simp del: One_nat_def)
qed

lemma containsPoint_total:
  assumes "normV p = 1" "EPSILON \<le> 1"
  shows "\<exists>c. containsPoint m EPSILON polygon p = Inr c"
  unfolding containsPoint_def by (rule containsPoint_loop_total[OF assms])

lemma getPointLocation_loop_total:
  assumes "normV p = 1" "EPSILON \<le> 1"
  shows "\<exists>pl. getPointLocation_loop m EPSILON p ps = Inr pl"
proof (induction ps)
  case Nil
  show ?case by simp
next
  case (Cons polygon rest)
  from containsPoint_total[OF assms] obtain c where
    c: "containsPoint m EPSILON polygon p = Inr c" by blast
  show ?case using Cons by (cases "pc_type c") (simp_all add: c)
qed

lemma getPointLocation_total:
  assumes "normV p = 1" "EPSILON \<le> 1"
  shows "\<exists>pl. getPointLocation m EPSILON p = Inr pl"
  unfolding getPointLocation_def by (rule getPointLocation_loop_total[OF assms])

lemma Point_new_unit:
  assumes "Point_new la lo None = Inr p"
  shows "normV p = 1"
proof -
  from assms have p: "p = \<lparr> x = cos (la * TO_RAD) * cos (lo * TO_RAD),
                      y = cos (la * TO_RAD) * sin (lo * TO_RAD),
                      z = sin (la * TO_RAD), lat = la, lon = lo \<rparr>"
    by (simp add: Point_new_def split: if_splits)
  have "(cos (la * TO_RAD) * cos (lo * TO_RAD))\<^sup>2 + (cos (la * TO_RAD) * sin (lo * TO_RAD))\<^sup>2
      = (cos (la * TO_RAD))\<^sup>2 * ((cos (lo * TO_RAD))\<^sup>2 + (sin (lo * TO_RAD))\<^sup>2)"
    by (simp only: power_mult_distrib distrib_left)
  also have "\<dots> = (cos (la * TO_RAD))\<^sup>2" by simp
  finally have "(cos (la * TO_RAD) * cos (lo * TO_RAD))\<^sup>2 + (cos (la * TO_RAD) * sin (lo * TO_RAD))\<^sup>2
        + (sin (la * TO_RAD))\<^sup>2 = 1" by simp
  then show ?thesis by (simp only: p normV_def Vector.simps real_sqrt_one)
qed

section \<open>Point equality\<close>

text \<open>
  What \<open>Point.equals\<close> computes: the latitudes agree within EPSILON, and the receiver is
  within EPSILON of a pole or the longitudes agree within EPSILON.
\<close>

lemma equals_iff:
  "equals EPSILON p q =
     (\<bar>lat p - lat q\<bar> < EPSILON \<and>
      (\<bar>\<bar>lat p\<bar> - 90\<bar> < EPSILON \<or> \<bar>lon p - lon q\<bar> < EPSILON))"
  by (simp add: equals_def isPolar_def isEqual_def isZero_def)

text \<open>
  Where \<open>equals\<close> agrees with the test on both points: for all points \<open>p\<close> and \<open>q\<close> such
  that \<open>q\<close> is within EPSILON of a pole whenever \<open>p\<close> is, \<open>p.equals(q)\<close> holds if and only
  if the latitudes agree within EPSILON and either both points are within EPSILON of a
  pole or the longitudes agree within EPSILON.
\<close>

lemma equals_polar_alike:
  assumes "\<bar>\<bar>lat p\<bar> - 90\<bar> < EPSILON \<longrightarrow> \<bar>\<bar>lat q\<bar> - 90\<bar> < EPSILON"
  shows "equals EPSILON p q =
     (\<bar>lat p - lat q\<bar> < EPSILON \<and>
      ((\<bar>\<bar>lat p\<bar> - 90\<bar> < EPSILON \<and> \<bar>\<bar>lat q\<bar> - 90\<bar> < EPSILON) \<or>
       \<bar>lon p - lon q\<bar> < EPSILON))"
  using assms by (auto simp add: equals_def isPolar_def isEqual_def isZero_def)

lemma equals_polar_alike_example:
  "(\<bar>\<bar>lat ex_pole\<bar> - 90\<bar> < ex_EPSILON \<and> \<bar>\<bar>lat ex_near\<bar> - 90\<bar> < ex_EPSILON) \<and>
   \<bar>lat ex_pole - lat ex_near\<bar> < ex_EPSILON \<and> equals ex_EPSILON ex_pole ex_near"
  using equals_polar_alike[of ex_pole ex_EPSILON ex_near]
  by (simp add: ex_pole_def ex_near_def ex_EPSILON_def)

text \<open>
  The polar test is made within the tolerance, in both generations: with
  EPSILON = 1e-9, the pole \<open>(90, 0)\<close> equals the point \<open>(90 - 5e-10, 100)\<close>, whose
  latitude is not 90 and whose longitude is 100 degrees away, and the earlier
  generation's \<open>eq\<close> gives the same answer.
\<close>

lemma equals_pole_tolerance:
  "\<not> (equals (1 / 10 ^ 9)
         \<lparr> x = 0, y = 0, z = 1, lat = 90, lon = 0 \<rparr>
         \<lparr> x = 0, y = 0, z = 1, lat = 90 - 5 / 10 ^ 10, lon = 100 \<rparr>
       = (\<bar>lat \<lparr> x = 0, y = 0, z = 1, lat = 90, lon = 0 \<rparr>
            - lat \<lparr> x = 0, y = 0, z = 1, lat = 90 - 5 / 10 ^ 10, lon = 100 \<rparr>\<bar> < 1 / 10 ^ 9 \<and>
          ((\<bar>lat \<lparr> x = 0, y = 0, z = 1, lat = 90, lon = 0 \<rparr>\<bar> = (90::real) \<and>
            \<bar>lat \<lparr> x = 0, y = 0, z = 1, lat = 90 - 5 / 10 ^ 10, lon = 100 \<rparr>\<bar> = (90::real)) \<or>
           \<bar>lon \<lparr> x = 0, y = 0, z = 1, lat = 90, lon = 0 \<rparr>
              - lon \<lparr> x = 0, y = 0, z = 1, lat = 90 - 5 / 10 ^ 10, lon = 100 \<rparr>\<bar> < 1 / 10 ^ 9)))
     \<and> eq_legacy (1 / 10 ^ 9)
         \<lparr> x = 0, y = 0, z = 1, lat = 90, lon = 0 \<rparr>
         \<lparr> x = 0, y = 0, z = 1, lat = 90 - 5 / 10 ^ 10, lon = 100 \<rparr>"
  by (simp add: equals_def eq_legacy_def isPolar_def isEqual_def isZero_def)

lemma ex_near_Point_new:
  "Point_new (90 - 5 / 10 ^ 10) 0 None = Inr ex_near"
  "Point_new (90 - 12 / 10 ^ 10) 100 None = Inr ex_far"
  by (simp_all add: Point_new_def ex_near_def ex_far_def)

text \<open>
  Claim C6 fails on the code. \<open>equals\<close> makes the polar test on the receiver alone.
  With EPSILON = 1e-9, the point (90 - 5e-10, 0) is within EPSILON of the pole and the
  point (90 - 1.2e-9, 100) is not; their latitudes agree within EPSILON and their
  longitudes are 100 degrees apart, so they are not both polar, whether polar is read
  exactly or within EPSILON. The first equals the second, the second does not equal the
  first, and the earlier generation's \<open>eq\<close>, which tests both points, says no both ways.
\<close>

theorem equals_receiver_only:
  "Point_new (90 - 5 / 10 ^ 10) 0 None = Inr ex_near \<and>
   Point_new (90 - 12 / 10 ^ 10) 100 None = Inr ex_far \<and>
   \<bar>lat ex_near - lat ex_far\<bar> < ex_EPSILON \<and>
   \<bar>\<bar>lat ex_near\<bar> - 90\<bar> < ex_EPSILON \<and>
   \<not> \<bar>\<bar>lat ex_far\<bar> - 90\<bar> < ex_EPSILON \<and>
   \<not> \<bar>lon ex_near - lon ex_far\<bar> < ex_EPSILON \<and>
   equals ex_EPSILON ex_near ex_far \<and>
   \<not> equals ex_EPSILON ex_far ex_near \<and>
   \<not> eq_legacy ex_EPSILON ex_near ex_far \<and>
   \<not> eq_legacy ex_EPSILON ex_far ex_near"
proof -
  have e: "equals ex_EPSILON ex_near ex_far" "\<not> equals ex_EPSILON ex_far ex_near"
    "\<not> eq_legacy ex_EPSILON ex_near ex_far" "\<not> eq_legacy ex_EPSILON ex_far ex_near"
    "\<bar>lat ex_near - lat ex_far\<bar> < ex_EPSILON" "\<bar>\<bar>lat ex_near\<bar> - 90\<bar> < ex_EPSILON"
    "\<not> \<bar>\<bar>lat ex_far\<bar> - 90\<bar> < ex_EPSILON" "\<not> \<bar>lon ex_near - lon ex_far\<bar> < ex_EPSILON"
    by (simp_all add: equals_def eq_legacy_def isPolar_def isEqual_def isZero_def ex_near_def
          ex_far_def ex_EPSILON_def)
  show ?thesis by (simp only: ex_near_Point_new e simp_thms)
qed

section \<open>Search node construction\<close>

text \<open>
  Claim C5. A node that the constructor returns has a root that is not \<open>CLOCKWISE\<close> of
  its interval (right, left) and a next polygon that is not the obstacle sentinel
  (id -1); when the root is clockwise of the interval, or the next polygon is the
  sentinel, the constructor fails with an assertion error and returns no node.
\<close>

theorem SearchNode_new_invariants:
  "(SearchNode_new EPSILON parent root' right left rightVertex leftVertex nextPolygon g goal = Inr n \<longrightarrow>
      getOrientation EPSILON (n_root n) (n_right n) (n_left n) \<noteq> CLOCKWISE \<and>
      p_id (n_nextPolygon n) \<noteq> - 1) \<and>
   (getOrientation EPSILON root' right left = CLOCKWISE \<or> p_id nextPolygon = - 1 \<longrightarrow>
      (\<exists>msg. SearchNode_new EPSILON parent root' right left rightVertex leftVertex nextPolygon g goal
               = Inl (AssertionError msg)))"
proof (intro conjI impI)
  assume "SearchNode_new EPSILON parent root' right left rightVertex leftVertex nextPolygon g goal = Inr n"
  note f = SearchNode_new_Inr_fields[OF this]
  show "getOrientation EPSILON (n_root n) (n_right n) (n_left n) \<noteq> CLOCKWISE"
    using f(10) by (simp add: f)
  show "p_id (n_nextPolygon n) \<noteq> - 1"
    using f(11) by (simp add: f)
next
  assume "getOrientation EPSILON root' right left = CLOCKWISE \<or> p_id nextPolygon = - 1"
  then show "\<exists>msg. SearchNode_new EPSILON parent root' right left rightVertex leftVertex nextPolygon g goal
               = Inl (AssertionError msg)"
    by (auto simp: SearchNode_new_def)
qed

theorem SearchNode_new_invariants_witness:
  "getOrientation ex_EPSILON (n_root ex_node) (n_right ex_node) (n_left ex_node) \<noteq> CLOCKWISE \<and>
   p_id (n_nextPolygon ex_node) \<noteq> - 1 \<and>
   (\<exists>msg. SearchNode_new ex_EPSILON None ex_S (Point.truncate ex_B) (Point.truncate ex_A)
             (Some ex_B) (Some ex_A) Obstacle 0 ex_G = Inl (AssertionError msg))"
  using SearchNode_new_invariants[of ex_EPSILON None ex_S "Point.truncate ex_B" "Point.truncate ex_A"
          "Some ex_B" "Some ex_A" ex_face 0 ex_G ex_node]
        SearchNode_new_invariants[of ex_EPSILON None ex_S "Point.truncate ex_B" "Point.truncate ex_A"
          "Some ex_B" "Some ex_A" Obstacle 0 ex_G ex_node]
        ex_node_new
  by (simp add: Obstacle_def)

text \<open>
  What the constructor computes as \<open>h\<close>: the distance from the root to the goal when the
  root equals an end of the interval; otherwise the goal is first replaced by the result
  of \<open>reflectPoint\<close> across (right, left) when it is \<open>ANTICLOCKWISE\<close> of
  (goal, right, left), and \<open>h\<close> goes through right, through left, or straight to that
  point.
\<close>

lemma SearchNode_new_h:
  assumes "SearchNode_new EPSILON parent root' right left rightVertex leftVertex nextPolygon g goal = Inr n"
  shows "if equals EPSILON root' right \<or> equals EPSILON root' left
         then n_h n = distance EPSILON root' goal
         else \<exists>goal'.
                (if getOrientation EPSILON goal right left = ANTICLOCKWISE
                 then reflectPoint EPSILON goal right left = Inr goal'
                 else goal' = goal) \<and>
                n_h n =
                  (if getOrientation EPSILON root' right goal' = CLOCKWISE
                   then distance EPSILON root' right + distance EPSILON right goal'
                   else if getOrientation EPSILON root' left goal' = ANTICLOCKWISE
                   then distance EPSILON root' left + distance EPSILON left goal'
                   else distance EPSILON root' goal')"
proof (cases "equals EPSILON root' right \<or> equals EPSILON root' left")
  case True
  with assms show ?thesis
    by (auto simp: SearchNode_new_def split: if_splits)
next
  case False
  show ?thesis
  proof (cases "getOrientation EPSILON goal right left = ANTICLOCKWISE")
    case True
    with False assms obtain e where e: "reflectPoint EPSILON goal right left = Inr e"
      by (cases "reflectPoint EPSILON goal right left") (simp_all add: SearchNode_new_def split: if_splits)
    with True False assms show ?thesis
      by (simp add: SearchNode_new_def split: if_splits) (use e in auto)
  next
    case nrefl: False
    with False assms show ?thesis
      by (simp add: SearchNode_new_def split: if_splits) auto
  qed
qed

lemma SearchNode_new_h_example:
  "SearchNode_new ex_EPSILON None ex_S (Point.truncate ex_B) (Point.truncate ex_A)
     (Some ex_B) (Some ex_A) ex_face 0 ex_G = Inr ex_node \<and>
   n_h ex_node = distance ex_EPSILON ex_S ex_G \<and> n_h ex_node = 90"
  using SearchNode_new_h[OF ex_node_new] ex_node_new
  by (simp add: ex_not_equals ex_orientations ex_distance)

text \<open>
  Claim C3. The terminal node of a popped node whose next polygon contains the goal:
  the construction succeeds, and the new root is right, left or the old root according
  to the two orientation tests, with \<open>g\<close> increased by the distance of the turn.
\<close>

theorem genFinalNode_visibility:
  assumes "0 < EPSILON" and "p_id (n_nextPolygon node) \<noteq> - 1"
    and "containsPoint m EPSILON (n_nextPolygon node) (n_goal node) = Inr c"
    and "pc_type c \<noteq> OUTSIDE"
  shows "\<exists>fin. genFinalNode m EPSILON node = Inr fin \<and>
           n_parent fin = Some node \<and>
           n_right fin = n_goal node \<and> n_left fin = n_goal node \<and>
           n_h fin = distance EPSILON (n_root fin) (n_goal node) \<and>
           (if getOrientation EPSILON (n_root node) (n_right node) (n_goal node) \<noteq> ANTICLOCKWISE
            then n_root fin = n_right node \<and>
                 n_g fin = n_g node + distance EPSILON (n_root node) (n_right node)
            else if getOrientation EPSILON (n_root node) (n_left node) (n_goal node) \<noteq> CLOCKWISE
            then n_root fin = n_left node \<and>
                 n_g fin = n_g node + distance EPSILON (n_root node) (n_left node)
            else n_root fin = n_root node \<and> n_g fin = n_g node)"
  using assms
  by (simp add: genFinalNode_def SearchNode_new_degenerate Let_def)

theorem genFinalNode_visibility_witness:
  "\<exists>fin. genFinalNode ex_mesh ex_EPSILON ex_node = Inr fin \<and>
         n_parent fin = Some ex_node \<and> n_root fin = ex_S \<and> n_g fin = 0 \<and> n_h fin = 90"
proof -
  have e: "0 < ex_EPSILON" by (simp add: ex_EPSILON_def)
  have p: "p_id (n_nextPolygon ex_node) \<noteq> - 1" by (simp add: ex_node_def ex_face_def)
  have c: "containsPoint ex_mesh ex_EPSILON (n_nextPolygon ex_node) (n_goal ex_node) =
             Inr \<lparr> pc_type = INSIDE, pc_adjPoly = Obstacle, pc_verts = [] \<rparr>"
    using ex_containsPoint_G by (simp add: ex_node_def)
  have t: "pc_type \<lparr> pc_type = INSIDE, pc_adjPoly = Obstacle, pc_verts = [] \<rparr> \<noteq> OUTSIDE" by simp
  from genFinalNode_visibility[OF e p c t]
  show ?thesis
    by (auto simp: ex_node_def ex_orientations ex_distance)
qed

section \<open>Containment of a polygon's own vertices\<close>

lemma getOrientation_ACW_distinct:
  assumes "getOrientation EPSILON p q r = ANTICLOCKWISE"
  shows "\<not> equals EPSILON p q" "\<not> equals EPSILON p r" "\<not> equals EPSILON q r"
  using assms by (simp_all add: getOrientation_def split: if_splits)

lemma strictlyConvexD:
  "strictlyConvex EPSILON vs \<Longrightarrow> i < length vs \<Longrightarrow> k < length vs \<Longrightarrow> k \<noteq> i \<Longrightarrow>
   k \<noteq> (i + 1) mod length vs \<Longrightarrow>
   getOrientation EPSILON (vs ! i) (vs ! ((i + 1) mod length vs)) (vs ! k) = ANTICLOCKWISE"
  by (simp add: strictlyConvex_def)

lemma strictlyConvex_distinct:
  assumes conv: "strictlyConvex EPSILON vs" and k: "k < length vs" and i: "i < length vs" and ne: "i \<noteq> k"
  shows "\<not> equals EPSILON (vs ! k) (vs ! i)"
proof (cases "i = (k + 1) mod length vs")
  case False
  with conv k i ne have "getOrientation EPSILON (vs ! k) (vs ! ((k + 1) mod length vs)) (vs ! i) = ANTICLOCKWISE"
    by (simp add: strictlyConvex_def)
  then show ?thesis by (rule getOrientation_ACW_distinct)
next
  case True
  from conv have n3: "3 \<le> length vs" by (simp add: strictlyConvex_def)
  have "\<exists>j<3. j \<noteq> a \<and> j \<noteq> b" for a b :: nat by presburger
  then have "\<exists>j<3. j \<noteq> k \<and> j \<noteq> (k + 1) mod length vs" .
  then obtain j where j3: "j < 3" and j': "j \<noteq> k" "j \<noteq> (k + 1) mod length vs"
    by blast
  from j3 n3 have j: "j < length vs" by simp
  with conv k j' have "getOrientation EPSILON (vs ! k) (vs ! ((k + 1) mod length vs)) (vs ! j) = ANTICLOCKWISE"
    by (simp add: strictlyConvex_def)
  then have "\<not> equals EPSILON (vs ! k) (vs ! ((k + 1) mod length vs))"
    by (rule getOrientation_ACW_distinct)
  with True show ?thesis by simp
qed

lemma containsPoint_loop_vertex:
  assumes eps: "0 < EPSILON" and conv: "strictlyConvex EPSILON (vertices P)"
    and k: "k < length (vertices P)"
  shows "i \<le> k \<Longrightarrow> (i < k \<longrightarrow> \<not> onEdge) \<Longrightarrow>
     containsPoint_loop m EPSILON P (vertices P ! k) onEdge i =
       Inr \<lparr> pc_type = ON_VERTEX, pc_adjPoly = Obstacle, pc_verts = [vertices P ! k] \<rparr>"
proof (induction "k - i" arbitrary: i onEdge)
  case 0
  then have ik: "i = k" by simp
  show ?case
    using k eps by (subst containsPoint_loop.simps) (simp add: ik v_def equals_refl)
next
  case (Suc d)
  then have ik: "i < k" and noEdge: "\<not> onEdge" by auto
  let ?vs = "vertices P"
  let ?res = "Inr \<lparr> pc_type = ON_VERTEX, pc_adjPoly = Obstacle, pc_verts = [?vs ! k] \<rparr>
                :: error + PolyContainment"
  have vi: "v P i = ?vs ! i" using ik k by (simp add: v_def)
  have vi1: "v P (Suc i) = ?vs ! Suc i" using ik k by (simp add: v_def)
  have ne: "\<not> equals EPSILON (?vs ! k) (?vs ! i)"
    using strictlyConvex_distinct[OF conv k] ik k by simp
  have step: "containsPoint_loop m EPSILON P (?vs ! k) onEdge i =
      (let orientation = getOrientation EPSILON (?vs ! i) (?vs ! Suc i) (?vs ! k)
       in if orientation = COLLINEAR
          then (case isBounded EPSILON (?vs ! k) (?vs ! i) (?vs ! Suc i) of
                  Inl e \<Rightarrow> Inl e
                | Inr b \<Rightarrow> containsPoint_loop m EPSILON P (?vs ! k) b (Suc i))
          else if orientation = CLOCKWISE
          then Inr \<lparr> pc_type = OUTSIDE, pc_adjPoly = Obstacle, pc_verts = [] \<rparr>
          else containsPoint_loop m EPSILON P (?vs ! k) onEdge (Suc i))"
    using ik k ne noEdge by (subst containsPoint_loop.simps) (simp add: vi vi1 Let_def cong: sum.case_cong)
  show ?case
  proof (cases "Suc i = k")
    case True
    have ori: "getOrientation EPSILON (?vs ! i) (?vs ! Suc i) (?vs ! k) = COLLINEAR"
      unfolding True using eps by (rule getOrientation_same23)
    have bnd: "isBounded EPSILON (?vs ! k) (?vs ! i) (?vs ! Suc i) = Inr True"
      unfolding True using eps by (simp add: isBounded_def equals_refl)
    have IH: "containsPoint_loop m EPSILON P (?vs ! k) True (Suc i) = ?res"
      using Suc.hyps(1)[of "Suc i" True] Suc.hyps(2) True by auto
    show ?thesis by (simp add: step ori bnd IH)
  next
    case False
    with ik have lt: "Suc i < k" by simp
    have md: "(i + 1) mod length ?vs = Suc i" using lt k by simp
    have "getOrientation EPSILON (?vs ! i) (?vs ! ((i + 1) mod length ?vs)) (?vs ! k) = ANTICLOCKWISE"
      using k ik lt by (intro strictlyConvexD[OF conv]) (simp_all add: md)
    with md have ori: "getOrientation EPSILON (?vs ! i) (?vs ! Suc i) (?vs ! k) = ANTICLOCKWISE"
      by simp
    have IH: "containsPoint_loop m EPSILON P (?vs ! k) onEdge (Suc i) = ?res"
      using Suc.hyps(1)[of "Suc i" onEdge] Suc.hyps(2) lt noEdge by auto
    show ?thesis by (simp add: step ori IH)
  qed
qed


text \<open>
  Where the round trip holds: for a polygon whose ring is strictly convex in
  anticlockwise order under \<open>getOrientation\<close> (every triple product above EPSILON), and
  every vertex of the ring, \<open>containsPoint\<close> returns \<open>ON_VERTEX\<close> with that vertex.
\<close>

lemma containsPoint_vertex_roundtrip:
  assumes "0 < EPSILON" and "strictlyConvex EPSILON (vertices P)" and "k < length (vertices P)"
  shows "containsPoint m EPSILON P (vertices P ! k) =
           Inr \<lparr> pc_type = ON_VERTEX, pc_adjPoly = Obstacle, pc_verts = [vertices P ! k] \<rparr>"
  unfolding containsPoint_def
  using containsPoint_loop_vertex[OF assms, of 0 False m] by simp

lemma containsPoint_vertex_roundtrip_example:
  "containsPoint ex_mesh ex_EPSILON ex_face ex_A =
     Inr \<lparr> pc_type = ON_VERTEX, pc_adjPoly = Obstacle, pc_verts = [ex_A] \<rparr>"
proof -
  have e: "0 < ex_EPSILON" by (simp add: ex_EPSILON_def)
  have k: "1 < length (vertices ex_face)" by (simp add: ex_face_def)
  show ?thesis
    using containsPoint_vertex_roundtrip[OF e ex_strictlyConvex k, of ex_mesh]
    by (simp add: ex_face_def)
qed

section \<open>Reflection across a great circle\<close>

lemma arcsin_sqrt2: "arcsin (sqrt 2 / 2) = pi / 4" "arcsin (- (sqrt 2 / 2)) = - (pi / 4)"
proof -
  have "arcsin (sin (pi / 4)) = pi / 4" by (rule arcsin_sin) simp_all
  then show a: "arcsin (sqrt 2 / 2) = pi / 4" by (simp only: sin_45)
  have "sqrt 2 \<le> 2" by (rule real_le_lsqrt) simp_all
  moreover have "0 \<le> sqrt 2" by simp
  ultimately have "arcsin (- (sqrt 2 / 2)) = - arcsin (sqrt 2 / 2)"
    by (intro arcsin_minus) linarith+
  then show "arcsin (- (sqrt 2 / 2)) = - (pi / 4)" by (simp only: a)
qed

lemma sqrt_half: "sqrt (1 / 2) = sqrt 2 / 2"
proof -
  have "sqrt ((sqrt 2 / 2)\<^sup>2) = sqrt 2 / 2" by (simp only: real_sqrt_abs) simp
  moreover have "(sqrt 2 / 2)\<^sup>2 = 1 / 2" by (simp add: power2_eq_square)
  ultimately show ?thesis by simp
qed

lemma sqrt2_scaled: "1 < sqrt 2 * 500000000" "1 < sqrt 2 * 1000000000"
proof -
  have "1 \<le> sqrt 2" by simp
  then show "1 < sqrt 2 * 500000000" "1 < sqrt 2 * 1000000000" by linarith+
qed

lemma l_cross: "cross_legacy ex_EPSILON (Point.truncate ex_A) ex_L = Inr (Point.truncate ex_N)"
  using sqrt2_scaled
  by (simp add: cross_legacy_def fromCartesian_legacy_def ex_A_def ex_L_def ex_N_def
        Point.truncate_def ex_EPSILON_def TO_DEG_def atan2_def Let_def sqrt_half)

lemma l_scale: "scale_legacy ex_EPSILON (Point.truncate ex_N) (sqrt 2)
   = Inr \<lparr> x = 0, y = 0, z = sqrt 2, lat = 90, lon = 0 \<rparr>"
   "scale_legacy ex_EPSILON (Point.truncate ex_N) (- sqrt 2)
   = Inr \<lparr> x = 0, y = 0, z = - sqrt 2, lat = - 90, lon = 0 \<rparr>"
proof -
  note b = sqrt2_scaled
  show "scale_legacy ex_EPSILON (Point.truncate ex_N) (sqrt 2)
   = Inr \<lparr> x = 0, y = 0, z = sqrt 2, lat = 90, lon = 0 \<rparr>"
   "scale_legacy ex_EPSILON (Point.truncate ex_N) (- sqrt 2)
   = Inr \<lparr> x = 0, y = 0, z = - sqrt 2, lat = - 90, lon = 0 \<rparr>"
    using b
    by (simp_all add: scale_legacy_def fromCartesian_legacy_def ex_N_def
        Point.truncate_def ex_EPSILON_def TO_DEG_def atan2_def Let_def)
qed

lemma l_sub: "subtract_legacy ex_EPSILON ex_P \<lparr> x = 0, y = 0, z = sqrt 2, lat = 90, lon = 0 \<rparr> = Inr ex_P'"
   "subtract_legacy ex_EPSILON ex_P' \<lparr> x = 0, y = 0, z = - sqrt 2, lat = - 90, lon = 0 \<rparr> = Inr ex_P"
proof -
  have n: "sqrt (sqrt 2 / 2 * (sqrt 2 / 2) + 0 * 0 + sqrt 2 / 2 * (sqrt 2 / 2)) = 1"
    by simp
  have s1: "sqrt 2 / 2 - sqrt 2 = - (sqrt 2 / 2)" by simp
  have s2: "- (sqrt 2 / 2) + sqrt 2 = sqrt 2 / 2" by simp
  show "subtract_legacy ex_EPSILON ex_P \<lparr> x = 0, y = 0, z = sqrt 2, lat = 90, lon = 0 \<rparr> = Inr ex_P'"
    using sqrt2_scaled
    by (simp add: subtract_legacy_def fromCartesian_legacy_def ex_P_def ex_P'_def s1 n
        ex_EPSILON_def TO_DEG_def atan2_def Let_def arcsin_sqrt2)
  show "subtract_legacy ex_EPSILON ex_P' \<lparr> x = 0, y = 0, z = - sqrt 2, lat = - 90, lon = 0 \<rparr> = Inr ex_P"
    using sqrt2_scaled
    by (simp add: subtract_legacy_def fromCartesian_legacy_def ex_P_def ex_P'_def s2 n
        ex_EPSILON_def TO_DEG_def atan2_def Let_def arcsin_sqrt2)
qed

lemma ex_reflect_P: "reflectPoint ex_EPSILON ex_P ex_A ex_L = Inr (Point.truncate ex_A)"
proof -
  have c: "cross ex_A ex_L = \<lparr> x = 0, y = 0, z = sqrt 2 / 2 \<rparr>"
    by (simp add: cross_def ex_A_def ex_L_def)
  have d: "dot ex_P \<lparr> x = 0, y = 0, z = sqrt 2 / 2 \<rparr> = 1 / 2"
    by (simp add: dot_def ex_P_def)
  have s: "subtract ex_P (scale \<lparr> x = 0, y = 0, z = sqrt 2 / 2 \<rparr> 1)
             = \<lparr> x = sqrt 2 / 2, y = 0, z = 0 \<rparr>"
    by (simp add: subtract_def scale_def ex_P_def)
  have n: "normV \<lparr> x = sqrt 2 / 2, y = 0, z = 0 \<rparr> = sqrt 2 / 2"
    by (simp add: normV_def)
  have f: "fromVector ex_EPSILON \<lparr> x = sqrt 2 / 2, y = 0, z = 0 \<rparr> True = Inr (Point.truncate ex_A)"
    using sqrt2_big
    by (simp add: fromVector_def n isZero_def ex_EPSILON_def normalise_def scale_def atan2_def
          TO_DEG_def Point_new_def ex_A_def Point.truncate_def)
  show ?thesis
    by (simp add: reflectPoint_def c d s f Let_def)
qed

lemma ex_reflect_A: "reflectPoint ex_EPSILON (Point.truncate ex_A) ex_A ex_L = Inr (Point.truncate ex_A)"
proof -
  have c: "cross ex_A ex_L = \<lparr> x = 0, y = 0, z = sqrt 2 / 2 \<rparr>"
    by (simp add: cross_def ex_A_def ex_L_def)
  have d: "dot (Point.truncate ex_A) \<lparr> x = 0, y = 0, z = sqrt 2 / 2 \<rparr> = 0"
    by (simp add: dot_def ex_A_def Point.truncate_def)
  have s: "subtract (Point.truncate ex_A) (scale \<lparr> x = 0, y = 0, z = sqrt 2 / 2 \<rparr> 0)
             = \<lparr> x = 1, y = 0, z = 0 \<rparr>"
    by (simp add: subtract_def scale_def ex_A_def Point.truncate_def)
  have n: "normV \<lparr> x = 1, y = 0, z = 0 \<rparr> = 1"
    by (simp add: normV_def)
  have f: "fromVector ex_EPSILON \<lparr> x = 1, y = 0, z = 0 \<rparr> True = Inr (Point.truncate ex_A)"
    by (simp add: fromVector_def n isZero_def ex_EPSILON_def normalise_def scale_def atan2_def
          TO_DEG_def Point_new_def ex_A_def Point.truncate_def)
  show ?thesis
    by (simp add: reflectPoint_def c d s f Let_def)
qed

text \<open>
  The pole (90, 0) has no image at all: its reflection across the circle through (0, 0)
  and (0, 45) is computed as the zero vector, and \<open>fromVector\<close> fails.
\<close>

lemma ex_reflect_N: "reflectPoint ex_EPSILON ex_N ex_A ex_L = Inl (AssertionError ''Cannot create a point from a zero vector'')"
proof -
  have c: "cross ex_A ex_L = \<lparr> x = 0, y = 0, z = sqrt 2 / 2 \<rparr>"
    by (simp add: cross_def ex_A_def ex_L_def)
  have d: "dot ex_N \<lparr> x = 0, y = 0, z = sqrt 2 / 2 \<rparr> = sqrt 2 / 2"
    by (simp add: dot_def ex_N_def)
  have s: "subtract ex_N (scale \<lparr> x = 0, y = 0, z = sqrt 2 / 2 \<rparr> (sqrt 2))
             = \<lparr> x = 0, y = 0, z = 0 \<rparr>"
    by (simp add: subtract_def scale_def ex_N_def)
  have n: "normV \<lparr> x = 0, y = 0, z = 0 \<rparr> = 0"
    by (simp add: normV_def)
  show ?thesis
    by (simp add: reflectPoint_def c d s Let_def fromVector_def n isZero_def ex_EPSILON_def)
qed

text \<open>
  Claim C7 fails on the code. \<open>reflectPoint\<close> computes \<open>p - 2 (p . N) N\<close> with
  \<open>N = r x l\<close> not normalised, which is a reflection only when \<open>r\<close> and \<open>l\<close> are
  orthogonal. Across the circle through (0, 0) and (0, 45) the point (45, 0) is sent to
  (0, 0), which is sent to itself: two reflections do not give back a point equal to
  (45, 0).
\<close>

theorem reflectPoint_not_involution:
  "reflectPoint ex_EPSILON ex_P ex_A ex_L = Inr (Point.truncate ex_A) \<and>
   reflectPoint ex_EPSILON (Point.truncate ex_A) ex_A ex_L = Inr (Point.truncate ex_A) \<and>
   \<not> equals ex_EPSILON (Point.truncate ex_A) ex_P \<and>
   \<not> equals ex_EPSILON ex_P (Point.truncate ex_A)"
  by (simp add: ex_reflect_P ex_reflect_A) (simp add: ex_P_def ex_A_def geo_defs ex_EPSILON_def)

text \<open>
  The earlier generation's \<open>Mesh.reflectPoint\<close> normalises \<open>N\<close> (its \<open>cross\<close> goes
  through \<open>fromCartesian\<close>); on the same input it sends (45, 0) to (-45, 0) and back.
\<close>

lemma reflectPoint_legacy_twice:
  "reflectPoint_legacy ex_EPSILON ex_P (Point.truncate ex_A) ex_L = Inr ex_P'"
  "reflectPoint_legacy ex_EPSILON ex_P' (Point.truncate ex_A) ex_L = Inr ex_P"
proof -
  have d: "2 * dot ex_P (Point.truncate ex_N) = sqrt 2" "2 * dot ex_P' (Point.truncate ex_N) = - sqrt 2"
    by (simp_all add: dot_def ex_P_def ex_P'_def ex_N_def Point.truncate_def)
  show "reflectPoint_legacy ex_EPSILON ex_P (Point.truncate ex_A) ex_L = Inr ex_P'"
    unfolding reflectPoint_legacy_def l_cross sum.case d l_scale by (rule l_sub)
  show "reflectPoint_legacy ex_EPSILON ex_P' (Point.truncate ex_A) ex_L = Inr ex_P"
    unfolding reflectPoint_legacy_def l_cross sum.case d l_scale by (rule l_sub)
qed
section \<open>Reading a mesh with adjacent obstacle sectors\<close>

lemma ex_read: "read ex_vlines ex_plines = Inr ex_mesh"
proof -
  have v: "mapE readVertexLine (zip [0..<length ex_vlines] ex_vlines)
         = Inr [ex_N\<lparr>isCorner := False\<rparr>, ex_A\<lparr>isCorner := False\<rparr>, ex_B\<lparr>isCorner := False\<rparr>]"
    by (simp add: ex_vlines_def upt_rec readVertexLine_def Vertex_new_def Point_new_def TO_RAD_def
          ex_N_def ex_A_def ex_B_def)
  have p: "mapE readPolygonLine (zip [0..<length ex_plines] ex_plines)
         = Inr [ex_face\<lparr>vertices := []\<rparr>]"
    by (simp add: ex_plines_def upt_rec readPolygonLine_def Polygon_new_def ex_face_def)
  have sp: "mapE (setPolygons (length [ex_face\<lparr>vertices := []\<rparr>]))
              [ex_N\<lparr>isCorner := False\<rparr>, ex_A\<lparr>isCorner := False\<rparr>, ex_B\<lparr>isCorner := False\<rparr>]
         = Inr [ex_N, ex_A, ex_B]"
    by (simp add: setPolygons_def ex_N_def ex_A_def ex_B_def)
  have sv: "setVertices [ex_N, ex_A, ex_B] (ex_face\<lparr>vertices := []\<rparr>) = Inr ex_face"
    by (simp add: setVertices_def ex_face_def)
  have sn: "setNeighbours (length [ex_face\<lparr>vertices := []\<rparr>]) ex_face = Inr ex_face"
    by (simp add: setNeighbours_def ex_face_def)
  show ?thesis
    unfolding read_def v p sum.case sp
    by (simp only: mapE.simps sv sn sum.case ex_mesh_def)
qed

lemma ex_read_adj: "read ex_vlines_adj ex_plines = Inr ex_mesh_adj"
proof -
  let ?f = "ex_face\<lparr>vertices := [ex_N_adj, ex_A, ex_B]\<rparr>"
  have v: "mapE readVertexLine (zip [0..<length ex_vlines_adj] ex_vlines_adj)
         = Inr [ex_N_adj\<lparr>isCorner := False, isAmbiguous := False\<rparr>, ex_A\<lparr>isCorner := False\<rparr>,
                ex_B\<lparr>isCorner := False\<rparr>]"
    by (simp add: ex_vlines_adj_def upt_rec readVertexLine_def Vertex_new_def Point_new_def TO_RAD_def
          ex_N_adj_def ex_A_def ex_B_def)
  have p: "mapE readPolygonLine (zip [0..<length ex_plines] ex_plines)
         = Inr [ex_face\<lparr>vertices := []\<rparr>]"
    by (simp add: ex_plines_def upt_rec readPolygonLine_def Polygon_new_def ex_face_def)
  have sp: "mapE (setPolygons (length [ex_face\<lparr>vertices := []\<rparr>]))
              [ex_N_adj\<lparr>isCorner := False, isAmbiguous := False\<rparr>, ex_A\<lparr>isCorner := False\<rparr>,
               ex_B\<lparr>isCorner := False\<rparr>]
         = Inr [ex_N_adj, ex_A, ex_B]"
    by (simp add: setPolygons_def ex_N_adj_def ex_A_def ex_B_def)
  have sv: "setVertices [ex_N_adj, ex_A, ex_B] (ex_face\<lparr>vertices := []\<rparr>) = Inr ?f"
    by (simp add: setVertices_def ex_face_def)
  have sn: "setNeighbours (length [ex_face\<lparr>vertices := []\<rparr>]) ?f = Inr ?f"
    by (simp add: setNeighbours_def ex_face_def)
  show ?thesis
    unfolding read_def v p sum.case sp
    by (simp only: mapE.simps sv sn sum.case ex_mesh_adj_def)
qed

text \<open>
  The earlier generation asserts the value of \<open>findIndex\<close> itself, so its check fires
  only when the pair of adjacent obstacle sectors starts at index 0.
\<close>

lemma findIndex_zero_iff: "findIndex pred n = 0 \<longleftrightarrow> 0 < n \<and> pred 0"
proof (cases "0 < n")
  case False
  then show ?thesis by (simp add: findIndex_def)
next
  case True
  then have up: "[0..<n] = 0 # [1..<n]" by (simp add: upt_conv_Cons)
  show ?thesis
  proof (cases "pred 0")
    case p: True
    with True show ?thesis by (simp add: findIndex_def up)
  next
    case np: False
    have "(case filter pred [1..<n] of [] \<Rightarrow> - 1 | i # _ \<Rightarrow> int i) \<noteq> 0"
    proof (cases "filter pred [1..<n]")
      case Nil
      then show ?thesis by simp
    next
      case (Cons i rest)
      then have "i \<in> set (filter pred [1..<n])" by simp
      then have "0 < i" by simp
      with Cons show ?thesis by simp
    qed
    with np True show ?thesis by (simp add: findIndex_def up)
  qed
qed

lemma adjacentObstacles_zero_iff:
  "adjacentObstacles ps = 0 \<longleftrightarrow> ps \<noteq> [] \<and> ps ! 0 = - 1 \<and> ps ! (1 mod length ps) = - 1"
  by (simp add: adjacentObstacles_def findIndex_zero_iff)

text \<open>
  Claim C8 fails on the code. A vertex line whose incident list is \<open>0 -1 -1\<close> has two
  adjacent obstacle sectors; the earlier generation's check lets it pass (the pair
  starts at index 1), and the current \<open>Mesh.read\<close>, which has no such check, returns a
  mesh that holds the vertex with that list.
\<close>

theorem read_accepts_adjacent_obstacles:
  "readVertexLine_legacy 1 (0, 90, 0, 3, [0, - 1, - 1]) = Inr ex_N_adj \<and>
   read ex_vlines_adj ex_plines = Inr ex_mesh_adj \<and>
   pIndices (m_vertices ex_mesh_adj ! 0) = [0, - 1, - 1]"
proof -
  have "adjacentObstacles [0, - 1, - 1] \<noteq> 0"
    by (simp add: adjacentObstacles_zero_iff)
  then have "readVertexLine_legacy 1 (0, 90, 0, 3, [0, - 1, - 1]) = Inr ex_N_adj"
    by (simp add: readVertexLine_legacy_def Point_new_def TO_RAD_def ex_N_adj_def)
  then show ?thesis by (simp add: ex_read_adj) (simp add: ex_mesh_adj_def ex_N_adj_def)
qed
section \<open>The priority queue\<close>

lemma heap_parent_less: "0 < i \<Longrightarrow> heap_parent i < i"
  by (simp add: heap_parent_def)

lemma heap_parent_left [simp]: "heap_parent (heap_left i) = i"
  by (simp add: heap_parent_def heap_left_def)

lemma heap_parent_right [simp]: "heap_parent (heap_right i) = i"
  by (simp add: heap_parent_def heap_right_def)

lemma heap_child_cases: "0 < c \<Longrightarrow> c = heap_left (heap_parent c) \<or> c = heap_right (heap_parent c)"
  by (simp add: heap_parent_def heap_left_def heap_right_def) linarith

lemma heap_children_pos [simp]: "0 < heap_left i" "0 < heap_right i" "heap_left i < heap_right i"
  "i < heap_left i" "i < heap_right i" "heap_left i \<noteq> heap_right i"
  by (simp_all add: heap_left_def heap_right_def)

lemma length_heap_swap [simp]: "length (heap_swap h i j) = length h"
  by (simp add: heap_swap_def)

lemma nth_heap_swap:
  "i < length h \<Longrightarrow> j < length h \<Longrightarrow>
   heap_swap h i j ! k = (if k = j then h ! i else if k = i then h ! j else h ! k)"
  by (simp add: heap_swap_def nth_list_update)

lemma mset_heap_swap: "i < length h \<Longrightarrow> j < length h \<Longrightarrow> mset (heap_swap h i j) = mset h"
  unfolding heap_swap_def by (simp add: mset_swap)

lemma swo_asym: "strictWeakOrder cmp \<Longrightarrow> cmp a b \<Longrightarrow> \<not> cmp b a"
  unfolding strictWeakOrder_def by blast

lemma swo_trans: "strictWeakOrder cmp \<Longrightarrow> cmp a b \<Longrightarrow> cmp b c \<Longrightarrow> cmp a c"
  unfolding strictWeakOrder_def by blast

lemma swo_negtrans: "strictWeakOrder cmp \<Longrightarrow> \<not> cmp a b \<Longrightarrow> \<not> cmp b c \<Longrightarrow> \<not> cmp a c"
  unfolding strictWeakOrder_def by blast

lemma swo_irrefl: "strictWeakOrder cmp \<Longrightarrow> \<not> cmp a a"
  unfolding strictWeakOrder_def by blast

subsection \<open>siftUp\<close>

lemma except_up_step:
  assumes swo: "strictWeakOrder cmp" and inv: "except_up cmp h k" and k: "k < length h" "0 < k"
    and c: "cmp (h ! k) (h ! heap_parent k)"
  shows "except_up cmp (heap_swap h k (heap_parent k)) (heap_parent k)"
proof -
  let ?p = "heap_parent k"
  let ?h = "heap_swap h k ?p"
  have pk: "?p < k" using k by (simp add: heap_parent_less)
  then have pl: "?p < length h" using k by simp
  have nth: "?h ! j = (if j = ?p then h ! k else if j = k then h ! ?p else h ! j)" for j
    using nth_heap_swap[OF k(1) pl] by simp
  from inv have e1: "\<And>i. i < length h \<Longrightarrow> 0 < i \<Longrightarrow> i \<noteq> k \<Longrightarrow> \<not> cmp (h ! i) (h ! heap_parent i)"
    and e2: "\<And>c. c < length h \<Longrightarrow> heap_parent c = k \<Longrightarrow> 0 < c \<Longrightarrow> \<not> cmp (h ! c) (h ! ?p)"
    using k by (auto simp: except_up_def)
  have a: "\<not> cmp (?h ! i) (?h ! heap_parent i)" if i: "i < length h" "0 < i" "i \<noteq> ?p" for i
  proof (cases "i = k")
    case True
    then show ?thesis using pk swo_asym[OF swo c] by (simp add: nth)
  next
    case False
    have ipar: "heap_parent i < i" using i by (simp add: heap_parent_less)
    show ?thesis
    proof (cases "heap_parent i = k")
      case True
      then show ?thesis using e2[OF i(1) True i(2)] False i pk by (simp add: nth)
    next
      case nk: False
      show ?thesis
      proof (cases "heap_parent i = ?p")
        case True
        have "\<not> cmp (h ! i) (h ! ?p)" using e1[OF i(1,2) False] True by simp
        then have "\<not> cmp (h ! i) (h ! k)" using swo_trans[OF swo _ c] by blast
        then show ?thesis using True False i by (simp add: nth)
      next
        case False2: False
        then show ?thesis using e1[OF i(1,2) False] False nk i by (simp add: nth)
      qed
    qed
  qed
  have b: "\<not> cmp (?h ! c) (?h ! heap_parent ?p)"
    if cc: "c < length h" "0 < ?p" "heap_parent c = ?p" "0 < c" for c
  proof -
    have pp: "heap_parent ?p < ?p" using cc by (simp add: heap_parent_less)
    have edge_p: "\<not> cmp (h ! ?p) (h ! heap_parent ?p)" using e1[OF pl cc(2)] pk by simp
    have cp: "c \<noteq> ?p" using cc heap_parent_less[of c] by auto
    show ?thesis
    proof (cases "c = k")
      case True
      then show ?thesis using edge_p pp pk by (simp add: nth)
    next
      case False
      have "\<not> cmp (h ! c) (h ! ?p)" using e1[OF cc(1,4) False] cc by simp
      then have "\<not> cmp (h ! c) (h ! heap_parent ?p)" using swo_negtrans[OF swo _ edge_p] by blast
      then show ?thesis using False cp pp pk by (simp add: nth)
    qed
  qed
  show ?thesis unfolding except_up_def using a b by simp
qed

lemma siftUp_loop_inv:
  "strictWeakOrder cmp \<Longrightarrow> except_up cmp h k \<Longrightarrow> k < length h \<Longrightarrow>
   heap_inv cmp (siftUp_loop cmp h k)"
proof (induction cmp h k rule: siftUp_loop.induct)
  case (1 cmp h k)
  show ?case
  proof (cases "k > 0 \<and> cmp (h ! k) (h ! heap_parent k)")
    case True
    then have "except_up cmp (heap_swap h k (heap_parent k)) (heap_parent k)"
      using except_up_step[OF 1(2,3,4)] by blast
    moreover have "heap_parent k < length (heap_swap h k (heap_parent k))"
      using True 1(4) heap_parent_less[of k] by simp
    ultimately show ?thesis using 1(1)[OF True 1(2)] True by (subst siftUp_loop.simps) simp
  next
    case False
    have "heap_inv cmp h"
      unfolding heap_inv_def
    proof (intro allI impI)
      fix i assume "i < length h" "0 < i"
      then show "\<not> cmp (h ! i) (h ! heap_parent i)"
        using False 1(3) by (cases "i = k") (auto simp: except_up_def)
    qed
    then show ?thesis using False by (subst siftUp_loop.simps) auto
  qed
qed

lemma siftUp_loop_mset: "k < length h \<Longrightarrow> mset (siftUp_loop cmp h k) = mset h"
proof (induction cmp h k rule: siftUp_loop.induct)
  case (1 cmp h k)
  show ?case
  proof (cases "k > 0 \<and> cmp (h ! k) (h ! heap_parent k)")
    case True
    then have p: "heap_parent k < length h" using 1(2) heap_parent_less[of k] by simp
    then show ?thesis using 1 True by (subst siftUp_loop.simps) (simp add: mset_heap_swap)
  next
    case False
    then show ?thesis by (subst siftUp_loop.simps) auto
  qed
qed

lemma siftUp_inv:
  assumes "strictWeakOrder cmp" "heap_inv cmp h"
  shows "heap_inv cmp (siftUp cmp (h @ [a]))"
proof -
  have "except_up cmp (h @ [a]) (length h)"
    unfolding except_up_def
  proof (intro conjI allI impI)
    fix i assume i: "i < length (h @ [a])" "0 < i \<and> i \<noteq> length h"
    then have "i < length h" by simp
    moreover then have "heap_parent i < length h" using i heap_parent_less[of i] by simp
    ultimately show "\<not> cmp ((h @ [a]) ! i) ((h @ [a]) ! heap_parent i)"
      using assms(2) i by (simp add: heap_inv_def nth_append)
  next
    fix c assume "c < length (h @ [a])" "0 < length h \<and> heap_parent c = length h \<and> 0 < c"
    then show "\<not> cmp ((h @ [a]) ! c) ((h @ [a]) ! heap_parent (length h))"
      using heap_parent_less[of c] by simp
  qed
  then show ?thesis
    unfolding siftUp_def using siftUp_loop_inv[OF assms(1), of "h @ [a]" "length h"] by simp
qed

lemma siftUp_mset: "mset (siftUp cmp (h @ [a])) = mset h + {#a#}"
  unfolding siftUp_def using siftUp_loop_mset[of "length h" "h @ [a]" cmp] by simp

lemma push_inv: "strictWeakOrder cmp \<Longrightarrow> heap_inv cmp h \<Longrightarrow> heap_inv cmp (push cmp h as)"
  by (induction as arbitrary: h) (simp_all add: siftUp_inv)

lemma push_mset: "mset (push cmp h as) = mset h + mset as"
  by (induction as arbitrary: h) (simp_all add: siftUp_mset)

subsection \<open>siftDown\<close>

lemma except_down_step:
  assumes swo: "strictWeakOrder cmp" and inv: "except_down cmp h k" and k: "k < length h"
    and cond: "(heap_left k < length h \<and> cmp (h ! heap_left k) (h ! k)) \<or>
               (heap_right k < length h \<and> cmp (h ! heap_right k) (h ! k))"
    and m: "m = (if heap_right k < length h \<and> cmp (h ! heap_right k) (h ! heap_left k)
                 then heap_right k else heap_left k)"
  shows "except_down cmp (heap_swap h k m) m \<and> m < length h \<and> k < m"
proof -
  let ?l = "heap_left k" and ?r = "heap_right k"
  let ?h = "heap_swap h k m"
  have ll: "?l < length h" using cond less_trans[OF heap_children_pos(3)[of k]] by blast
  have ml: "m < length h" using m ll by auto
  have km: "k < m" using m by auto
  have pm: "heap_parent m = k" using m by auto
  have mpos: "0 < m" using km by simp
  have nth: "?h ! j = (if j = m then h ! k else if j = k then h ! m else h ! j)" for j
    using nth_heap_swap[OF k ml] by simp
  from inv have e1: "\<And>i. i < length h \<Longrightarrow> 0 < i \<Longrightarrow> heap_parent i \<noteq> k \<Longrightarrow>
      \<not> cmp (h ! i) (h ! heap_parent i)"
    and e2: "\<And>c. c < length h \<Longrightarrow> 0 < k \<Longrightarrow> heap_parent c = k \<Longrightarrow> 0 < c \<Longrightarrow>
      \<not> cmp (h ! c) (h ! heap_parent k)"
    by (auto simp: except_down_def)
  text \<open>The chosen child precedes the node, and no child precedes the chosen child.\<close>
  have mk: "cmp (h ! m) (h ! k)"
  proof (cases "?r < length h \<and> cmp (h ! ?r) (h ! ?l)")
    case True
    then have "m = ?r" using m by simp
    moreover have "cmp (h ! ?r) (h ! k)"
      using cond True swo_trans[OF swo, of "h ! ?r" "h ! ?l" "h ! k"] by blast
    ultimately show ?thesis by simp
  next
    case False
    then have ml': "m = ?l" using m by auto
    show ?thesis
    proof (cases "cmp (h ! ?l) (h ! k)")
      case True
      then show ?thesis using ml' by simp
    next
      case nl: False
      then have r: "?r < length h" "cmp (h ! ?r) (h ! k)" using cond by auto
      with False have "\<not> cmp (h ! ?r) (h ! ?l)" by simp
      then have "\<not> cmp (h ! ?r) (h ! k)" using swo_negtrans[OF swo _ nl] by blast
      with r show ?thesis by simp
    qed
  qed
  have sib: "\<not> cmp (h ! c) (h ! m)" if c: "c < length h" "heap_parent c = k" "0 < c" for c
  proof -
    from heap_child_cases[OF c(3)] c(2) have cc: "c = ?l \<or> c = ?r" by simp
    show ?thesis
    proof (cases "?r < length h \<and> cmp (h ! ?r) (h ! ?l)")
      case True
      then have mr: "m = ?r" using m by simp
      from cc show ?thesis
      proof
        assume "c = ?l"
        then show ?thesis using mr True swo_asym[OF swo, of "h ! ?r" "h ! ?l"] by simp
      next
        assume "c = ?r"
        then show ?thesis using mr swo_irrefl[OF swo] by simp
      qed
    next
      case False
      then have ml': "m = ?l" using m by auto
      from cc show ?thesis
      proof
        assume "c = ?l"
        then show ?thesis using ml' swo_irrefl[OF swo] by simp
      next
        assume "c = ?r"
        then show ?thesis using ml' False c by simp
      qed
    qed
  qed
  have a: "\<not> cmp (?h ! i) (?h ! heap_parent i)"
    if i: "i < length h" "0 < i" "heap_parent i \<noteq> m" for i
  proof -
    have ipar: "heap_parent i < i" using i by (simp add: heap_parent_less)
    show ?thesis
    proof (cases "i = k")
      case True
      then have kpos: "0 < k" using i by simp
      have "heap_parent k \<noteq> m" "heap_parent k \<noteq> k" using km heap_parent_less[OF kpos] by auto
      moreover have "\<not> cmp (h ! m) (h ! heap_parent k)" using e2[OF ml kpos pm mpos] .
      ultimately show ?thesis using True km by (simp add: nth)
    next
      case ik: False
      show ?thesis
      proof (cases "i = m")
        case True
        then show ?thesis using pm km swo_asym[OF swo mk] by (simp add: nth)
      next
        case im: False
        show ?thesis
        proof (cases "heap_parent i = k")
          case True
          then show ?thesis using sib[OF i(1) True i(2)] im ik km by (simp add: nth)
        next
          case False
          then show ?thesis using e1[OF i(1,2) False] im ik i(3) by (simp add: nth)
        qed
      qed
    qed
  qed
  have b: "\<not> cmp (?h ! c) (?h ! heap_parent m)"
    if c: "c < length h" "heap_parent c = m" "0 < c" for c
  proof -
    have "c \<noteq> m" "c \<noteq> k" using c km heap_parent_less[OF c(3)] by auto
    moreover have "\<not> cmp (h ! c) (h ! m)" using e1[OF c(1,3)] c(2) km by simp
    ultimately show ?thesis using pm km by (simp add: nth)
  qed
  have "except_down cmp ?h m" unfolding except_down_def using a b by simp
  with ml km show ?thesis by simp
qed

lemma siftDown_loop_inv:
  "strictWeakOrder cmp \<Longrightarrow> except_down cmp h k \<Longrightarrow> k < length h \<Longrightarrow>
   heap_inv cmp (siftDown_loop cmp h k)"
proof (induction cmp h k rule: siftDown_loop.induct)
  case (1 cmp h k)
  let ?cond = "(heap_left k < length h \<and> cmp (h ! heap_left k) (h ! k)) \<or>
               (heap_right k < length h \<and> cmp (h ! heap_right k) (h ! k))"
  let ?m = "if heap_right k < length h \<and> cmp (h ! heap_right k) (h ! heap_left k)
            then heap_right k else heap_left k"
  show ?case
  proof (cases ?cond)
    case True
    from except_down_step[OF 1(2,3,4) True refl]
    have st: "except_down cmp (heap_swap h k ?m) ?m" "?m < length h" by simp_all
    have "heap_inv cmp (siftDown_loop cmp (heap_swap h k ?m) ?m)"
      using 1(1)[OF True refl 1(2) st(1)] st(2) by simp
    then show ?thesis using True by (subst siftDown_loop.simps) (simp add: Let_def)
  next
    case False
    have "heap_inv cmp h"
      unfolding heap_inv_def
    proof (intro allI impI)
      fix i assume i: "i < length h" "0 < i"
      show "\<not> cmp (h ! i) (h ! heap_parent i)"
      proof (cases "heap_parent i = k")
        case True
        from heap_child_cases[OF i(2)] True have "i = heap_left k \<or> i = heap_right k" by simp
        then show ?thesis using False i True by auto
      next
        case nk: False
        then show ?thesis using 1(3) i by (simp add: except_down_def)
      qed
    qed
    then show ?thesis using False by (subst siftDown_loop.simps) auto
  qed
qed

lemma siftDown_loop_mset: "k < length h \<Longrightarrow> mset (siftDown_loop cmp h k) = mset h"
proof (induction cmp h k rule: siftDown_loop.induct)
  case (1 cmp h k)
  let ?cond = "(heap_left k < length h \<and> cmp (h ! heap_left k) (h ! k)) \<or>
               (heap_right k < length h \<and> cmp (h ! heap_right k) (h ! k))"
  let ?m = "if heap_right k < length h \<and> cmp (h ! heap_right k) (h ! heap_left k)
            then heap_right k else heap_left k"
  show ?case
  proof (cases ?cond)
    case True
    have "heap_left k < length h" using True less_trans[OF heap_children_pos(3)[of k]] by blast
    then have ml: "?m < length h" by simp
    have "mset (siftDown_loop cmp (heap_swap h k ?m) ?m) = mset (heap_swap h k ?m)"
      using 1(1)[OF True refl] ml by simp
    then show ?thesis using True 1(2) ml
      by (subst siftDown_loop.simps) (simp add: Let_def mset_heap_swap)
  next
    case False
    then show ?thesis by (subst siftDown_loop.simps) auto
  qed
qed

lemma siftDown_loop_Nil: "siftDown_loop cmp [] k = []"
  by (subst siftDown_loop.simps) simp

subsection \<open>pop\<close>

lemma heap_root_minimal:
  assumes swo: "strictWeakOrder cmp" and inv: "heap_inv cmp h"
  shows "i < length h \<Longrightarrow> \<not> cmp (h ! i) (h ! 0)"
proof (induction i rule: less_induct)
  case (less i)
  show ?case
  proof (cases "i = 0")
    case True
    then show ?thesis using swo_irrefl[OF swo] by simp
  next
    case False
    then have p: "heap_parent i < i" by (simp add: heap_parent_less)
    then have "\<not> cmp (h ! heap_parent i) (h ! 0)" using less by simp
    moreover have "\<not> cmp (h ! i) (h ! heap_parent i)"
      using inv less.prems False by (simp add: heap_inv_def)
    ultimately show ?thesis using swo_negtrans[OF swo] by blast
  qed
qed

lemma mset_butlast_last: "xs \<noteq> [] \<Longrightarrow> mset (butlast xs) = mset xs - {#last xs#}"
proof -
  assume "xs \<noteq> []"
  then have "xs = butlast xs @ [last xs]" by simp
  then have "mset xs = mset (butlast xs) + {#last xs#}" by (metis mset_append mset_single_iff_right mset.simps(2) mset_zero_iff union_mset_add_mset_right add.right_neutral)
  then show ?thesis by simp
qed

lemma pop_heap:
  assumes swo: "strictWeakOrder cmp" and inv: "heap_inv cmp h" and ne: "h \<noteq> []"
  shows "\<exists>h'. pop cmp h = Inr (h ! 0, h') \<and> mset h' = mset h - {#h ! 0#} \<and> heap_inv cmp h'"
proof (cases "length h - 1 > 0")
  case False
  with ne have l: "length h = 1" by (cases h) auto
  then obtain a where h: "h = [a]" by (cases h) auto
  show ?thesis
    by (simp add: pop_def h siftDown_def siftDown_loop_Nil heap_inv_def)
next
  case True
  define n where "n = length h"
  define h1 where "h1 = heap_swap h 0 (n - 1)"
  define h2 where "h2 = butlast h1"
  have n: "0 < n" "n - 1 < n" "0 < n - 1" using True ne by (simp_all add: n_def)
  have nth1: "h1 ! j = (if j = n - 1 then h ! 0 else if j = 0 then h ! (n - 1) else h ! j)" for j
    unfolding h1_def using nth_heap_swap[of 0 h "n - 1" j] n by (simp add: n_def)
  have l1: "length h1 = n" by (simp add: h1_def n_def)
  have l2: "length h2 = n - 1" by (simp add: h2_def l1)
  have nth2: "h2 ! j = (if j = 0 then h ! (n - 1) else h ! j)" if "j < n - 1" for j
    using that nth1[of j] by (simp add: h2_def nth_butlast l1)
  have h1ne: "h1 \<noteq> []" using l1 n by auto
  have "last h1 = h1 ! (n - 1)" using h1ne by (simp add: last_conv_nth l1)
  then have last1: "last h1 = h ! 0" using nth1[of "n - 1"] by simp
  have "mset h1 = mset h" unfolding h1_def using mset_heap_swap[of 0 h "n - 1"] n by (simp add: n_def)
  then have ms: "mset h2 = mset h - {#h ! 0#}"
    using mset_butlast_last[OF h1ne] last1 by (simp add: h2_def)
  have ed: "except_down cmp h2 0"
    unfolding except_down_def
  proof (intro conjI allI impI)
    fix i assume i: "i < length h2" "0 < i \<and> heap_parent i \<noteq> 0"
    then have il: "i < n - 1" by (simp add: l2)
    have pl: "heap_parent i < n - 1" using il i(2) heap_parent_less[of i] by simp
    have "\<not> cmp (h ! i) (h ! heap_parent i)" using inv il i(2) by (simp add: heap_inv_def n_def)
    then show "\<not> cmp (h2 ! i) (h2 ! heap_parent i)"
      using i(2) by (simp add: nth2[OF il] nth2[OF pl])
  next
    fix c assume "c < length h2" "(0::nat) < 0 \<and> heap_parent c = 0 \<and> 0 < c"
    then show "\<not> cmp (h2 ! c) (h2 ! heap_parent 0)" by simp
  qed
  have "0 < length h2" using n by (simp add: l2)
  then have hi: "heap_inv cmp (siftDown cmp h2)" and hm: "mset (siftDown cmp h2) = mset h2"
    unfolding siftDown_def using siftDown_loop_inv[OF swo ed] siftDown_loop_mset[of 0 h2 cmp] by simp_all
  have "pop cmp h = Inr (h ! 0, siftDown cmp h2)"
    using True ne by (simp add: pop_def Let_def h2_def h1_def n_def)
  then show ?thesis using hi hm ms by simp
qed

subsection \<open>The order of search nodes\<close>

lemma lt_iff: "lt a b \<longleftrightarrow> n_f a < n_f b \<or> (n_f a = n_f b \<and> n_g a > n_g b)"
  by (auto simp: lt_def)

lemma strictWeakOrder_lt: "strictWeakOrder lt"
  unfolding strictWeakOrder_def lt_iff by auto

lemma queueState_heap_inv:
  assumes swo: "strictWeakOrder cmp"
  shows "queueState cmp h \<Longrightarrow> heap_inv cmp h"
proof (induction rule: queueState.induct)
  case constructed
  show ?case by (simp add: heap_inv_def)
next
  case (pushed heap as)
  then show ?case using push_inv[OF swo] by simp
next
  case (popped heap a heap')
  then have ne: "heap \<noteq> []" by (auto simp: pop_def)
  from pop_heap[OF swo popped.IH ne] popped.hyps(2) show ?case by auto
qed

text \<open>
  The queue on nodes whose costs are real numbers (no NaN), with heap indices as natural
  numbers (the 32-bit shifts of the source agree with them below \<open>2^30\<close> elements).
  \<open>pop\<close> fails on the empty queue. On every non-empty state of a queue ordered by \<open>lt\<close>
  it returns an element of the queue that no element precedes, and the new queue is the
  old one with one copy of that element removed.
\<close>

lemma pop_minimal:
  "pop lt [] = Inl (AssertionError ''Cannot pop from an empty priority queue'') \<and>
   (\<forall>a b. lt a b = (n_f a < n_f b \<or> (n_f a = n_f b \<and> n_g a > n_g b))) \<and>
   (queueState lt heap \<and> heap \<noteq> [] \<longrightarrow>
      (\<exists>a heap'. pop lt heap = Inr (a, heap') \<and> a \<in> set heap \<and>
         (\<forall>b \<in> set heap. \<not> lt b a) \<and> mset heap' = mset heap - {#a#}))"
proof (intro conjI impI allI)
  show "pop lt [] = Inl (AssertionError ''Cannot pop from an empty priority queue'')"
    by (simp add: pop_def)
  show "lt a b = (n_f a < n_f b \<or> (n_f a = n_f b \<and> n_g a > n_g b))" for a b
    by (rule lt_iff)
  assume q: "queueState lt heap \<and> heap \<noteq> []"
  then have inv: "heap_inv lt heap" using queueState_heap_inv[OF strictWeakOrder_lt] by simp
  from pop_heap[OF strictWeakOrder_lt inv] q obtain heap' where
    p: "pop lt heap = Inr (heap ! 0, heap')" "mset heap' = mset heap - {#heap ! 0#}" by blast
  have "\<forall>b \<in> set heap. \<not> lt b (heap ! 0)"
    using heap_root_minimal[OF strictWeakOrder_lt inv] by (auto simp: in_set_conv_nth)
  moreover have "heap ! 0 \<in> set heap" using q by simp
  ultimately show "\<exists>a heap'. pop lt heap = Inr (a, heap') \<and> a \<in> set heap \<and>
         (\<forall>b \<in> set heap. \<not> lt b a) \<and> mset heap' = mset heap - {#a#}"
    using p by blast
qed

lemma ex_push: "push lt [] [ex_node, ex_node_far, ex_node_tie] = [ex_node_tie, ex_node_far, ex_node]"
proof -
  have f: "n_f ex_node = 90" "n_f ex_node_tie = 90" "n_f ex_node_far = 95"
    "n_g ex_node = 0" "n_g ex_node_tie = 10" "n_g ex_node_far = 5"
    by (simp_all add: n_f_def ex_node_def ex_node_tie_def ex_node_far_def)
  have l: "lt ex_node_tie ex_node" "\<not> lt ex_node_far ex_node" "\<not> lt ex_node ex_node_tie"
    by (simp_all add: lt_def f)
  have s1: "siftUp lt [ex_node] = [ex_node]"
    unfolding siftUp_def by (subst siftUp_loop.simps) simp
  have s2: "siftUp lt [ex_node, ex_node_far] = [ex_node, ex_node_far]"
    unfolding siftUp_def
    by (subst siftUp_loop.simps) (simp add: heap_parent_def l)
  have s3: "siftUp lt [ex_node, ex_node_far, ex_node_tie] = [ex_node_tie, ex_node_far, ex_node]"
    unfolding siftUp_def
    apply (subst siftUp_loop.simps)
    apply (simp add: heap_parent_def l heap_swap_def)
    apply (subst siftUp_loop.simps)
    apply simp
    done
  show ?thesis by (simp add: s1 s2 s3)
qed

lemma pop_minimal_example:
  "queueState lt [ex_node_tie, ex_node_far, ex_node] \<and>
   (\<exists>a heap'. pop lt [ex_node_tie, ex_node_far, ex_node] = Inr (a, heap') \<and>
      a \<in> set [ex_node_tie, ex_node_far, ex_node] \<and>
      (\<forall>b. b \<in> set [ex_node_tie, ex_node_far, ex_node] \<longrightarrow> \<not> lt b a) \<and>
      mset heap' = mset [ex_node_tie, ex_node_far, ex_node] - {#a#})"
proof -
  have q: "queueState lt [ex_node_tie, ex_node_far, ex_node]"
    using queueState.pushed[OF queueState.constructed, of lt "[ex_node, ex_node_far, ex_node_tie]"]
    by (simp only: ex_push)
  then show ?thesis
    using pop_minimal[of "[ex_node_tie, ex_node_far, ex_node]"] by auto
qed

section \<open>SearchInstance.search\<close>

lemma mapE_Inr_set: "mapE f xs = Inr ys \<Longrightarrow> b \<in> set ys \<Longrightarrow> \<exists>a \<in> set xs. f a = Inr b"
proof (induction xs arbitrary: ys)
  case Nil
  then show ?case by simp
next
  case (Cons a as)
  then show ?case by (auto split: sum.splits)
qed

lemma readPolygonLine_id: "readPolygonLine (i, n, rest) = Inr q \<Longrightarrow> p_id q = int i"
  by (auto simp: readPolygonLine_def Polygon_new_def split: if_splits)

lemma setVertices_id: "setVertices mvs q = Inr q' \<Longrightarrow> p_id q' = p_id q"
  by (auto simp: setVertices_def split: sum.splits)

lemma setNeighbours_id: "setNeighbours P q = Inr q' \<Longrightarrow> p_id q' = p_id q"
  by (auto simp: setNeighbours_def split: sum.splits prod.splits)

lemma read_p_id:
  assumes "read vlines plines = Inr m" "Q \<in> set (m_polygons m)"
  shows "p_id Q \<noteq> - 1"
proof -
  from assms(1) obtain vs ps0 ps where
    p0: "mapE readPolygonLine (zip [0..<length plines] plines) = Inr ps0"
    and p1: "mapE (\<lambda>polygon. case setVertices vs polygon of Inl e \<Rightarrow> Inl e
                     | Inr polygon' \<Rightarrow> setNeighbours (length ps0) polygon') ps0 = Inr ps"
    and m: "m = \<lparr> m_vertices = vs, m_polygons = ps \<rparr>"
    by (auto simp: read_def split: sum.splits)
  from assms(2) m have "Q \<in> set ps" by simp
  with mapE_Inr_set[OF p1] obtain q where q: "q \<in> set ps0"
    and s: "(case setVertices vs q of Inl e \<Rightarrow> Inl e
             | Inr polygon' \<Rightarrow> setNeighbours (length ps0) polygon') = Inr Q"
    by blast
  from s have id: "p_id Q = p_id q"
    by (auto split: sum.splits simp: setVertices_id setNeighbours_id)
  from q mapE_Inr_set[OF p0] obtain l where "readPolygonLine l = Inr q"
    by blast
  then have "0 \<le> p_id q" by (cases l) (auto dest: readPolygonLine_id)
  with id show ?thesis by simp
qed

lemma getPointLocation_loop_ids:
  assumes "\<forall>Q \<in> set (m_polygons m). p_id Q \<noteq> - 1"
  shows "getPointLocation_loop m EPSILON p ps = Inr pl \<Longrightarrow> set ps \<subseteq> set (m_polygons m)
         \<Longrightarrow> Q \<in> set (pl_polygons pl) \<Longrightarrow> p_id Q \<noteq> - 1"
proof (induction ps)
  case Nil
  then show ?case by auto
next
  case (Cons polygon rest)
  then show ?case using assms
    by (auto split: sum.splits PolyContainmentType.splits if_splits)
qed

lemma getPointLocation_ids:
  assumes "\<forall>Q \<in> set (m_polygons m). p_id Q \<noteq> - 1" "getPointLocation m EPSILON p = Inr pl"
    "Q \<in> set (pl_polygons pl)"
  shows "p_id Q \<noteq> - 1"
  using getPointLocation_loop_ids[OF assms(1), of EPSILON p "m_polygons m" pl Q] assms(2,3)
  by (simp add: getPointLocation_def)

lemma getPointLocation_loop_obstacle:
  "getPointLocation_loop m EPSILON p ps = Inr pl \<Longrightarrow> pl_polygons pl \<noteq> [] \<Longrightarrow> pl_type pl \<noteq> L_IN_OBSTACLE"
proof (induction ps)
  case Nil
  then show ?case by auto
next
  case (Cons polygon rest)
  then show ?case
    by (auto split: sum.splits PolyContainmentType.splits if_splits)
qed

text \<open>
  Where the direct path is returned: the polygon that \<open>genInitNodes\<close> visits first is
  among the end polygons.
\<close>

lemma search_first_polygon:
  assumes "0 < EPSILON" and "read vlines plines = Inr m"
    and "getPointLocation m EPSILON end' = Inr plEnd"
    and "getPointLocation m EPSILON start = Inr plStart"
    and "pl_polygons plStart = polygon # rest"
    and "list_ex (\<lambda>p. p_id p = p_id polygon) (pl_polygons plEnd)"
  shows "search m EPSILON start end' = Some (Inr ([start, end'], distance EPSILON start end'))"
proof -
  have ids: "\<forall>Q \<in> set (m_polygons m). p_id Q \<noteq> - 1"
    using read_p_id[OF assms(2)] by blast
  have "polygon \<in> set (pl_polygons plStart)" by (simp add: assms(5))
  then have id: "p_id polygon \<noteq> - 1" using getPointLocation_ids[OF ids assms(4)] by blast
  have t: "pl_type plStart \<noteq> L_IN_OBSTACLE"
    using getPointLocation_loop_obstacle[of m EPSILON start "m_polygons m" plStart] assms(4,5)
    by (simp add: getPointLocation_def)
  have ne: "pl_polygons plEnd \<noteq> []" using assms(6) by auto
  have g: "genInitNodes m EPSILON start end' (pl_polygons plEnd) [] =
      Inr ([], Some (SearchNode None start end' end' None None polygon 0
                       (distance EPSILON start end') end'))"
    by (simp add: genInitNodes_def assms(4,5,6) t SearchNode_new_degenerate[OF assms(1) id])
  show ?thesis by (simp add: search_def assms(3) ne g Let_def)
qed

lemma searchLoop_empty: "searchLoop m EPSILON end' endPolygons [] history = Some (Inr ([], 0))"
  by (subst searchLoop.simps) (simp add: isEmpty_def)

lemma ex_contains_S:
  "containsPoint ex_mesh ex_EPSILON ex_face ex_S =
     Inr \<lparr> pc_type = OUTSIDE, pc_adjPoly = Obstacle, pc_verts = [] \<rparr>"
proof -
  have vs: "vertices ex_face = [ex_N, ex_A, ex_B]" by (simp add: ex_face_def)
  have e: "\<not> equals ex_EPSILON ex_S ex_N" "\<not> equals ex_EPSILON ex_S ex_A"
    by (simp_all add: ex_defs geo_defs)
  have o: "getOrientation ex_EPSILON ex_N ex_A ex_S = ANTICLOCKWISE"
    "getOrientation ex_EPSILON ex_A ex_B ex_S = CLOCKWISE"
    using sqrt2_big by (simp_all add: ex_defs geo_defs)
  show ?thesis
    unfolding containsPoint_def
    apply (subst containsPoint_loop.simps)
    apply (simp add: vs v_def e o)
    apply (subst containsPoint_loop.simps)
    apply (simp add: vs v_def e o)
    done
qed

lemma ex_location_S:
  "getPointLocation ex_mesh ex_EPSILON ex_S =
     Inr \<lparr> pl_type = L_IN_OBSTACLE, pl_polygons = [], pl_vertices = [] \<rparr>"
  by (simp add: getPointLocation_def ex_mesh_def ex_contains_S[unfolded ex_mesh_def])

text \<open>
  Claim C2. For a tolerance of at most 1 and start and end points built by
  \<open>new Point(lat, lon)\<close>: when the start point is located in an obstacle, \<open>search\<close>
  returns the empty path and length 0; when the end point is located in an obstacle, it
  returns the empty path and length 0; and whenever the loop of \<open>search\<close> finds the
  open list empty, it returns the empty path and length 0. In each case \<open>search\<close>
  returns (the result is \<open>Some\<close>) and what it returns is no error (\<open>Inr\<close>).
\<close>

theorem search_no_path:
  assumes "EPSILON \<le> 1"
    and "Point_new slat slon None = Inr start" and "Point_new elat elon None = Inr end'"
  shows "(getPointLocation m EPSILON start =
            Inr \<lparr> pl_type = L_IN_OBSTACLE, pl_polygons = [], pl_vertices = [] \<rparr>
          \<longrightarrow> search m EPSILON start end' = Some (Inr ([], 0))) \<and>
         (getPointLocation m EPSILON end' =
            Inr \<lparr> pl_type = L_IN_OBSTACLE, pl_polygons = [], pl_vertices = [] \<rparr>
          \<longrightarrow> search m EPSILON start end' = Some (Inr ([], 0))) \<and>
         searchLoop m EPSILON end' endPolygons [] history = Some (Inr ([], 0))"
proof (intro conjI impI)
  assume s: "getPointLocation m EPSILON start =
            Inr \<lparr> pl_type = L_IN_OBSTACLE, pl_polygons = [], pl_vertices = [] \<rparr>"
  from getPointLocation_total[OF Point_new_unit[OF assms(3)] assms(1)]
  obtain plEnd where e: "getPointLocation m EPSILON end' = Inr plEnd" by blast
  have g: "genInitNodes m EPSILON start end' (pl_polygons plEnd) [] = Inr ([], None)"
    by (simp add: genInitNodes_def s)
  show "search m EPSILON start end' = Some (Inr ([], 0))"
    by (simp add: search_def e g searchLoop_empty Let_def)
next
  assume e: "getPointLocation m EPSILON end' =
            Inr \<lparr> pl_type = L_IN_OBSTACLE, pl_polygons = [], pl_vertices = [] \<rparr>"
  show "search m EPSILON start end' = Some (Inr ([], 0))"
    by (simp add: search_def e)
next
  show "searchLoop m EPSILON end' endPolygons [] history = Some (Inr ([], 0))"
    by (rule searchLoop_empty)
qed

theorem search_no_path_witness:
  "ex_EPSILON \<le> 1 \<and> Point_new (- 45) 45 None = Inr ex_S \<and> Point_new 45 45 None = Inr ex_G \<and>
   getPointLocation ex_mesh ex_EPSILON ex_S =
     Inr \<lparr> pl_type = L_IN_OBSTACLE, pl_polygons = [], pl_vertices = [] \<rparr> \<and>
   search ex_mesh ex_EPSILON ex_S ex_G = Some (Inr ([], 0)) \<and>
   search ex_mesh ex_EPSILON ex_G ex_S = Some (Inr ([], 0)) \<and>
   searchLoop ex_mesh ex_EPSILON ex_G [ex_face] [] Map.empty = Some (Inr ([], 0))"
proof -
  have E: "ex_EPSILON \<le> 1" by (simp add: ex_EPSILON_def)
  note a = search_no_path[OF E ex_Point_new(2) ex_Point_new(1), of ex_mesh "[ex_face]" Map.empty]
  note b = search_no_path[OF E ex_Point_new(1) ex_Point_new(2), of ex_mesh "[ex_face]" Map.empty]
  show ?thesis using a b E by (simp add: ex_location_S ex_Point_new)
qed

section \<open>Start and end in a common polygon that is not visited first\<close>

lemmas tri_defs = tri_A_def tri_L_def tri_P_def tri_N_def tri_Q_def ex_pole_def ex_P_def ex_EPSILON_def

lemma tri_read: "read tri_vlines tri_plines = Inr tri_mesh"
proof -
  let ?c = "\<lambda>u. u\<lparr>isCorner := False\<rparr>"
  have v: "mapE readVertexLine (zip [0..<length tri_vlines] tri_vlines)
         = Inr [?c tri_A, ?c tri_L, ?c tri_P, ?c tri_N, ?c tri_Q]"
    by (simp add: tri_vlines_def upt_rec readVertexLine_def Vertex_new_def Point_new_def TO_RAD_def
          tri_defs cos_45 sin_45)
  let ?ps = "[tri_low\<lparr>vertices := [], isOneWay := True\<rparr>, tri_high\<lparr>vertices := []\<rparr>,
              tri_south\<lparr>vertices := []\<rparr>]"
  have p: "mapE readPolygonLine (zip [0..<length tri_plines] tri_plines) = Inr ?ps"
    by (simp add: tri_plines_def upt_rec readPolygonLine_def Polygon_new_def
          tri_low_def tri_high_def tri_south_def)
  have sp: "mapE (setPolygons (length ?ps)) [?c tri_A, ?c tri_L, ?c tri_P, ?c tri_N, ?c tri_Q]
         = Inr [tri_A, tri_L, tri_P, tri_N, tri_Q]"
    by (simp add: setPolygons_def tri_defs)
  have sv: "setVertices [tri_A, tri_L, tri_P, tri_N, tri_Q] (tri_low\<lparr>vertices := [], isOneWay := True\<rparr>)
              = Inr (tri_low\<lparr>isOneWay := True\<rparr>)"
    "setVertices [tri_A, tri_L, tri_P, tri_N, tri_Q] (tri_high\<lparr>vertices := []\<rparr>) = Inr tri_high"
    "setVertices [tri_A, tri_L, tri_P, tri_N, tri_Q] (tri_south\<lparr>vertices := []\<rparr>) = Inr tri_south"
    by (simp_all add: setVertices_def tri_low_def tri_high_def tri_south_def)
  have sn: "setNeighbours (length ?ps) (tri_low\<lparr>isOneWay := True\<rparr>) = Inr tri_low"
    "setNeighbours (length ?ps) tri_high = Inr tri_high"
    "setNeighbours (length ?ps) tri_south = Inr tri_south"
    by (simp_all add: setNeighbours_def tri_low_def tri_high_def tri_south_def)
  show ?thesis
    unfolding read_def v p sum.case sp
    by (simp only: mapE.simps sv sn sum.case tri_mesh_def)
qed

lemma tri_Point_new:
  "Point_new 45 0 None = Inr ex_P" "Point_new 90 0 None = Inr ex_pole"
  by (simp_all add: Point_new_def TO_RAD_def tri_defs cos_45 sin_45)

lemma tri_vs:
  "vertices tri_low = [tri_A, tri_L, tri_P]" "vertices tri_high = [tri_N, tri_P, tri_L]"
  "p_id tri_low = 0" "p_id tri_high = 1" "p_id tri_south = 2"
  by (simp_all add: tri_low_def tri_high_def tri_south_def)

lemma tri_equals:
  "\<not> equals ex_EPSILON ex_pole tri_A" "\<not> equals ex_EPSILON ex_pole tri_L"
  "equals ex_EPSILON ex_pole tri_N"
  "\<not> equals ex_EPSILON ex_P tri_A" "\<not> equals ex_EPSILON ex_P tri_L"
  "equals ex_EPSILON ex_P tri_P"
  "\<not> equals ex_EPSILON ex_P (Point.truncate tri_A)" "\<not> equals ex_EPSILON ex_P (Point.truncate tri_L)"
  by (simp_all add: tri_defs geo_defs)

lemma tri_orientations:
  "getOrientation ex_EPSILON tri_A tri_L ex_pole = ANTICLOCKWISE"
  "getOrientation ex_EPSILON tri_L tri_P ex_pole = CLOCKWISE"
  "getOrientation ex_EPSILON tri_A tri_L ex_P = ANTICLOCKWISE"
  "getOrientation ex_EPSILON tri_L tri_P ex_P = COLLINEAR"
  "getOrientation ex_EPSILON ex_P tri_A tri_L = ANTICLOCKWISE"
  "getOrientation ex_EPSILON ex_P (Point.truncate tri_A) (Point.truncate tri_L) = ANTICLOCKWISE"
  "getOrientation ex_EPSILON ex_pole (Point.truncate tri_A) (Point.truncate tri_L) = ANTICLOCKWISE"
  using sqrt2_big by (simp_all add: tri_defs geo_defs)

lemma tri_contains_pole_low:
  "containsPoint tri_mesh ex_EPSILON tri_low ex_pole =
     Inr \<lparr> pc_type = OUTSIDE, pc_adjPoly = Obstacle, pc_verts = [] \<rparr>"
  unfolding containsPoint_def
  apply (subst containsPoint_loop.simps)
  apply (simp add: tri_vs v_def tri_equals tri_orientations)
  apply (subst containsPoint_loop.simps)
  apply (simp add: tri_vs v_def tri_equals tri_orientations)
  done

lemma tri_contains_pole_high:
  "containsPoint tri_mesh ex_EPSILON tri_high ex_pole =
     Inr \<lparr> pc_type = ON_VERTEX, pc_adjPoly = Obstacle, pc_verts = [tri_N] \<rparr>"
  unfolding containsPoint_def
  apply (subst containsPoint_loop.simps)
  apply (simp add: tri_vs v_def tri_equals tri_orientations)
  done

lemma tri_contains_P_low:
  "containsPoint tri_mesh ex_EPSILON tri_low ex_P =
     Inr \<lparr> pc_type = ON_VERTEX, pc_adjPoly = Obstacle, pc_verts = [tri_P] \<rparr>"
proof -
  have b: "isBounded ex_EPSILON ex_P tri_L tri_P = Inr True"
    by (simp add: isBounded_def tri_equals)
  show ?thesis
    unfolding containsPoint_def
    apply (subst containsPoint_loop.simps)
    apply (simp add: tri_vs v_def tri_equals tri_orientations)
    apply (subst containsPoint_loop.simps)
    apply (simp add: tri_vs v_def tri_equals tri_orientations b)
    apply (subst containsPoint_loop.simps)
    apply (simp add: tri_vs v_def tri_equals tri_orientations)
    done
qed

lemma tri_contains_P_high:
  "containsPoint tri_mesh ex_EPSILON tri_high ex_P =
     Inr \<lparr> pc_type = ON_VERTEX, pc_adjPoly = Obstacle, pc_verts = [tri_P] \<rparr>"
proof -
  have e: "\<not> equals ex_EPSILON ex_P tri_N" by (simp add: tri_defs geo_defs)
  have o: "getOrientation ex_EPSILON tri_N tri_P ex_P = COLLINEAR"
    by (simp add: tri_defs geo_defs)
  have b: "isBounded ex_EPSILON ex_P tri_N tri_P = Inr True"
    by (simp add: isBounded_def tri_equals)
  show ?thesis
    unfolding containsPoint_def
    apply (subst containsPoint_loop.simps)
    apply (simp add: tri_vs v_def tri_equals e o b)
    apply (subst containsPoint_loop.simps)
    apply (simp add: tri_vs v_def tri_equals tri_orientations)
    done
qed

lemma tri_resolve:
  "polygonsOf tri_mesh tri_N = [tri_high, Obstacle]"
  "polygonsOf tri_mesh tri_P = [tri_low, tri_high, Obstacle]"
  "neighbours tri_mesh tri_low = [Obstacle, tri_south, tri_high]"
  by (simp_all add: polygonsOf_def neighbours_def resolve_def tri_mesh_def tri_defs tri_low_def)

lemma tri_location_pole:
  "getPointLocation tri_mesh ex_EPSILON ex_pole =
     Inr \<lparr> pl_type = L_ON_UNAMBIG_CORNER_VERTEX, pl_polygons = [tri_high], pl_vertices = [tri_N] \<rparr>"
proof -
  have f: "isCorner tri_N" "\<not> isAmbiguous tri_N" by (simp_all add: tri_N_def)
  show ?thesis
    by (simp add: getPointLocation_def tri_mesh_def tri_contains_pole_low[unfolded tri_mesh_def]
        tri_contains_pole_high[unfolded tri_mesh_def] tri_resolve[unfolded tri_mesh_def] f
        Obstacle_def tri_vs)
qed

lemma tri_location_P:
  "getPointLocation tri_mesh ex_EPSILON ex_P =
     Inr \<lparr> pl_type = L_ON_UNAMBIG_CORNER_VERTEX, pl_polygons = [tri_low, tri_high],
           pl_vertices = [tri_P] \<rparr>"
proof -
  have f: "isCorner tri_P" "\<not> isAmbiguous tri_P" by (simp_all add: tri_P_def)
  show ?thesis
    by (simp add: getPointLocation_def tri_mesh_def tri_contains_P_low[unfolded tri_mesh_def]
        tri_resolve[unfolded tri_mesh_def] f Obstacle_def tri_vs)
qed

lemma tri_reflect:
  "reflectPoint ex_EPSILON ex_pole (Point.truncate tri_A) (Point.truncate tri_L)
     = Inl (AssertionError ''Cannot create a point from a zero vector'')"
proof -
  have c: "cross (Point.truncate tri_A) (Point.truncate tri_L) = \<lparr> x = 0, y = 0, z = sqrt 2 / 2 \<rparr>"
    by (simp add: cross_def tri_defs Point.truncate_def)
  have d: "dot ex_pole \<lparr> x = 0, y = 0, z = sqrt 2 / 2 \<rparr> = sqrt 2 / 2"
    by (simp add: dot_def ex_pole_def)
  have s: "subtract ex_pole (scale \<lparr> x = 0, y = 0, z = sqrt 2 / 2 \<rparr> (sqrt 2))
             = \<lparr> x = 0, y = 0, z = 0 \<rparr>"
    by (simp add: subtract_def scale_def ex_pole_def)
  have n: "normV \<lparr> x = 0, y = 0, z = 0 \<rparr> = 0"
    by (simp add: normV_def)
  show ?thesis
    by (simp add: reflectPoint_def c d s Let_def fromVector_def n isZero_def ex_EPSILON_def)
qed

lemma tri_seed:
  "SearchNode_new ex_EPSILON None ex_P (Point.truncate tri_A) (Point.truncate tri_L)
     (Some tri_A) (Some tri_L) tri_south 0 ex_pole
     = Inl (AssertionError ''Cannot create a point from a zero vector'')"
  by (simp add: SearchNode_new_def tri_orientations tri_equals tri_vs tri_reflect)

lemma tri_genInitNodes:
  "genInitNodes tri_mesh ex_EPSILON ex_P ex_pole [tri_high] []
     = Inl (AssertionError ''Cannot create a point from a zero vector'')"
  by (simp add: genInitNodes_def tri_location_P tri_vs tri_orientations tri_resolve tri_seed upt_rec)

lemma strictlyConvex_triangle:
  assumes "getOrientation EPSILON a b c = ANTICLOCKWISE"
    "getOrientation EPSILON b c a = ANTICLOCKWISE"
    "getOrientation EPSILON c a b = ANTICLOCKWISE"
  shows "strictlyConvex EPSILON [a, b, c]"
proof -
  have "getOrientation EPSILON ([a, b, c] ! i) ([a, b, c] ! ((i + 1) mod 3)) ([a, b, c] ! k)
          = ANTICLOCKWISE"
    if "i < 3" "k < 3" "k \<noteq> i" "k \<noteq> (i + 1) mod 3" for i k :: nat
  proof -
    from that(1) consider "i = 0" | "i = 1" | "i = 2" by linarith
    then show ?thesis
    proof cases
      case 1
      with that have "k = 2" by simp
      with 1 show ?thesis by (simp add: assms)
    next
      case 2
      with that have "k = 0" by simp
      with 2 show ?thesis by (simp add: assms)
    next
      case 3
      with that have "k = 1" by simp
      with 3 show ?thesis by (simp add: assms)
    qed
  qed
  then show ?thesis by (simp add: strictlyConvex_def)
qed

lemma tri_strictlyConvex:
  "strictlyConvex ex_EPSILON (vertices tri_low)"
  "strictlyConvex ex_EPSILON (vertices tri_high)"
  "strictlyConvex ex_EPSILON (vertices tri_south)"
proof -
  have o: "getOrientation ex_EPSILON tri_A tri_L tri_P = ANTICLOCKWISE"
    "getOrientation ex_EPSILON tri_L tri_P tri_A = ANTICLOCKWISE"
    "getOrientation ex_EPSILON tri_P tri_A tri_L = ANTICLOCKWISE"
    "getOrientation ex_EPSILON tri_N tri_P tri_L = ANTICLOCKWISE"
    "getOrientation ex_EPSILON tri_P tri_L tri_N = ANTICLOCKWISE"
    "getOrientation ex_EPSILON tri_L tri_N tri_P = ANTICLOCKWISE"
    "getOrientation ex_EPSILON tri_L tri_A tri_Q = ANTICLOCKWISE"
    "getOrientation ex_EPSILON tri_A tri_Q tri_L = ANTICLOCKWISE"
    "getOrientation ex_EPSILON tri_Q tri_L tri_A = ANTICLOCKWISE"
    using sqrt2_big by (simp_all add: tri_defs geo_defs)
  show "strictlyConvex ex_EPSILON (vertices tri_low)"
    "strictlyConvex ex_EPSILON (vertices tri_high)"
    "strictlyConvex ex_EPSILON (vertices tri_south)"
    by (simp_all add: tri_low_def tri_high_def tri_south_def strictlyConvex_triangle o)
qed

text \<open>
  Claim C1 fails on the code. In the mesh of three triangles read from \<open>tri_vlines\<close> and
  \<open>tri_plines\<close>, the points (45, 0) and (90, 0) are both vertices of the traversable
  triangle \<open>tri_high\<close>. The start (45, 0) is located in \<open>tri_low\<close> and \<open>tri_high\<close>, in
  that order, and the end (90, 0) in \<open>tri_high\<close>. \<open>genInitNodes\<close> tests one polygon at a
  time: it first seeds the edges of \<open>tri_low\<close>, and the heuristic of the seed across the
  edge from (0, 0) to (0, 45) reflects the goal (90, 0) with \<open>reflectPoint\<close>, which
  computes the zero vector. \<open>search\<close> throws instead of returning the path from start to
  end.
\<close>

theorem search_same_polygon_raises:
  "read tri_vlines tri_plines = Inr tri_mesh \<and>
   Point_new 45 0 None = Inr ex_P \<and> Point_new 90 0 None = Inr ex_pole \<and>
   containsPoint tri_mesh ex_EPSILON tri_high ex_P =
     Inr \<lparr> pc_type = ON_VERTEX, pc_adjPoly = Obstacle, pc_verts = [tri_P] \<rparr> \<and>
   containsPoint tri_mesh ex_EPSILON tri_high ex_pole =
     Inr \<lparr> pc_type = ON_VERTEX, pc_adjPoly = Obstacle, pc_verts = [tri_N] \<rparr> \<and>
   p_id tri_high = 1 \<and>
   getPointLocation tri_mesh ex_EPSILON ex_P =
     Inr \<lparr> pl_type = L_ON_UNAMBIG_CORNER_VERTEX, pl_polygons = [tri_low, tri_high],
           pl_vertices = [tri_P] \<rparr> \<and>
   getPointLocation tri_mesh ex_EPSILON ex_pole =
     Inr \<lparr> pl_type = L_ON_UNAMBIG_CORNER_VERTEX, pl_polygons = [tri_high],
           pl_vertices = [tri_N] \<rparr> \<and>
   search tri_mesh ex_EPSILON ex_P ex_pole
     = Some (Inl (AssertionError ''Cannot create a point from a zero vector''))"
  by (simp add: tri_read tri_Point_new tri_contains_P_high tri_contains_pole_high tri_vs
        search_def tri_location_pole tri_location_P tri_genInitNodes)

section \<open>The heuristic and the mirror image of the goal\<close>

lemma ex_reflect_P_trunc:
  "reflectPoint ex_EPSILON ex_P (Point.truncate ex_A) ex_L = Inr (Point.truncate ex_A)"
proof -
  have c: "cross (Point.truncate ex_A) ex_L = \<lparr> x = 0, y = 0, z = sqrt 2 / 2 \<rparr>"
    by (simp add: cross_def ex_A_def ex_L_def Point.truncate_def)
  have d: "dot ex_P \<lparr> x = 0, y = 0, z = sqrt 2 / 2 \<rparr> = 1 / 2"
    by (simp add: dot_def ex_P_def)
  have s: "subtract ex_P (scale \<lparr> x = 0, y = 0, z = sqrt 2 / 2 \<rparr> 1)
             = \<lparr> x = sqrt 2 / 2, y = 0, z = 0 \<rparr>"
    by (simp add: subtract_def scale_def ex_P_def)
  have n: "normV \<lparr> x = sqrt 2 / 2, y = 0, z = 0 \<rparr> = sqrt 2 / 2"
    by (simp add: normV_def)
  have f: "fromVector ex_EPSILON \<lparr> x = sqrt 2 / 2, y = 0, z = 0 \<rparr> True = Inr (Point.truncate ex_A)"
    using sqrt2_big
    by (simp add: fromVector_def n isZero_def ex_EPSILON_def normalise_def scale_def atan2_def
          TO_DEG_def Point_new_def ex_A_def Point.truncate_def)
  show ?thesis
    by (simp add: reflectPoint_def c d s f Let_def)
qed

lemma arccos_sqrt2: "arccos (- (sqrt 2 / 2)) = 3 * pi / 4"
proof -
  have "arccos (cos (3 * pi / 4)) = 3 * pi / 4" by (rule arccos_cos) simp_all
  moreover have "cos (3 * pi / 4) = - (sqrt 2 / 2)"
  proof -
    have "cos (pi - pi / 4) = - cos (pi / 4)" by (rule cos_pi_minus)
    moreover have "pi - pi / 4 = 3 * pi / 4" by simp
    ultimately show ?thesis by (simp add: cos_45)
  qed
  ultimately show ?thesis by simp
qed

lemma ex_h_orientations:
  "getOrientation ex_EPSILON ex_pole (Point.truncate ex_A) ex_L = ANTICLOCKWISE"
  "getOrientation ex_EPSILON ex_P (Point.truncate ex_A) ex_L = ANTICLOCKWISE"
  "getOrientation ex_EPSILON ex_pole (Point.truncate ex_A) (Point.truncate ex_A) = COLLINEAR"
  "getOrientation ex_EPSILON ex_pole ex_L (Point.truncate ex_A) = CLOCKWISE"
  "getOrientation ex_EPSILON ex_pole (Point.truncate ex_A) ex_P' = COLLINEAR"
  "getOrientation ex_EPSILON ex_pole ex_L ex_P' = CLOCKWISE"
  "\<not> equals ex_EPSILON ex_pole (Point.truncate ex_A)" "\<not> equals ex_EPSILON ex_pole ex_L"
  using sqrt2_big
  by (simp_all add: ex_pole_def ex_A_def ex_L_def ex_P_def ex_P'_def ex_EPSILON_def geo_defs)

lemma ex_h_distances:
  "distance ex_EPSILON ex_pole (Point.truncate ex_A) = 90"
  "distance ex_EPSILON ex_pole ex_P' = 135"
  by (simp_all add: distance_def cosDistance_def ex_pole_def ex_A_def ex_P'_def ex_EPSILON_def
        geo_defs TO_RAD_def TO_DEG_def cos_45 sin_45 arccos_sqrt2)

text \<open>
  Claim C4 fails on the code. For the root (90, 0), the interval from (0, 0) to (0, 45)
  and the goal (45, 0), the goal is \<open>ANTICLOCKWISE\<close> of the interval and has to be
  reflected. Its mirror image across the great circle through (0, 0) and (0, 45), the
  equator, is (-45, 0), which the earlier generation's \<open>reflectPoint\<close> returns, and the
  heuristic of the specification for that image is 135. The constructor takes the
  result of the current \<open>reflectPoint\<close>, which is (0, 0), and sets \<open>h\<close> = 90.
\<close>

theorem SearchNode_new_h_not_mirror:
  "SearchNode_new ex_EPSILON None ex_pole (Point.truncate ex_A) ex_L None None ex_face 0 ex_P
     = Inr (SearchNode None ex_pole (Point.truncate ex_A) ex_L None None ex_face 0 90 ex_P) \<and>
   getOrientation ex_EPSILON ex_P (Point.truncate ex_A) ex_L = ANTICLOCKWISE \<and>
   reflectPoint ex_EPSILON ex_P (Point.truncate ex_A) ex_L = Inr (Point.truncate ex_A) \<and>
   reflectPoint_legacy ex_EPSILON ex_P (Point.truncate ex_A) ex_L = Inr ex_P' \<and>
   h_spec ex_EPSILON ex_pole (Point.truncate ex_A) ex_L ex_P' = 135"
proof -
  have id: "p_id ex_face \<noteq> - 1" by (simp add: ex_face_def)
  have n: "SearchNode_new ex_EPSILON None ex_pole (Point.truncate ex_A) ex_L None None ex_face 0 ex_P
     = Inr (SearchNode None ex_pole (Point.truncate ex_A) ex_L None None ex_face 0 90 ex_P)"
    by (simp add: SearchNode_new_def ex_h_orientations id ex_reflect_P_trunc ex_h_distances)
  have h: "h_spec ex_EPSILON ex_pole (Point.truncate ex_A) ex_L ex_P' = 135"
    by (simp add: h_spec_def ex_h_orientations ex_h_distances)
  show ?thesis
    by (simp only: n h ex_h_orientations ex_reflect_P_trunc reflectPoint_legacy_twice simp_thms)
qed

section \<open>Containment of the vertices of a small polygon\<close>

lemma tiny_bounds:
  "0 < tiny_angle" "tiny_angle < 1 / 40000" "0 < sin tiny_angle" "sin tiny_angle < 1 / 40000"
  "0 < cos tiny_angle" "sin tiny_angle * sin tiny_angle < 1 / 10 ^ 9"
  "(cos tiny_angle)\<^sup>2 + (sin tiny_angle)\<^sup>2 = 1"
proof -
  show t0: "0 < tiny_angle" by (simp add: tiny_angle_def)
  have "pi < 4" using pi_less_4 by simp
  then show t1: "tiny_angle < 1 / 40000" by (simp add: tiny_angle_def)
  have tp: "tiny_angle < pi / 2" using t1 pi_ge_two by linarith
  then have "tiny_angle < pi" using pi_gt_zero by linarith
  then show s0: "0 < sin tiny_angle" using t0 by (simp add: sin_gt_zero)
  have "sin tiny_angle \<le> tiny_angle" using t0 by (intro sin_x_le_x) simp
  then show s1: "sin tiny_angle < 1 / 40000" using t1 by linarith
  show "0 < cos tiny_angle" using t0 tp by (intro cos_gt_zero) simp_all
  have "sin tiny_angle * sin tiny_angle \<le> (1 / 40000) * (1 / 40000)"
    using s0 s1 by (intro mult_mono) simp_all
  then show "sin tiny_angle * sin tiny_angle < 1 / 10 ^ 9" by simp
  show "(cos tiny_angle)\<^sup>2 + (sin tiny_angle)\<^sup>2 = 1" by simp
qed

lemma tiny_read: "read tiny_vlines tiny_plines = Inr tiny_mesh"
proof -
  let ?c = "\<lambda>u. u\<lparr>isCorner := False\<rparr>"
  have v: "mapE readVertexLine (zip [0..<length tiny_vlines] tiny_vlines)
         = Inr [?c tiny_V0, ?c tiny_V1, ?c tiny_V2]"
    by (simp add: tiny_vlines_def upt_rec readVertexLine_def Vertex_new_def Point_new_def TO_RAD_def
          tiny_V0_def tiny_V1_def tiny_V2_def tiny_angle_def)
  have p: "mapE readPolygonLine (zip [0..<length tiny_plines] tiny_plines)
         = Inr [tiny_face\<lparr>vertices := []\<rparr>]"
    by (simp add: tiny_plines_def upt_rec readPolygonLine_def Polygon_new_def tiny_face_def)
  have sp: "mapE (setPolygons (length [tiny_face\<lparr>vertices := []\<rparr>]))
              [?c tiny_V0, ?c tiny_V1, ?c tiny_V2] = Inr [tiny_V0, tiny_V1, tiny_V2]"
    by (simp add: setPolygons_def tiny_V0_def tiny_V1_def tiny_V2_def)
  have sv: "setVertices [tiny_V0, tiny_V1, tiny_V2] (tiny_face\<lparr>vertices := []\<rparr>) = Inr tiny_face"
    by (simp add: setVertices_def tiny_face_def)
  have sn: "setNeighbours (length [tiny_face\<lparr>vertices := []\<rparr>]) tiny_face = Inr tiny_face"
    by (simp add: setNeighbours_def tiny_face_def)
  show ?thesis
    unfolding read_def v p sum.case sp
    by (simp only: mapE.simps sv sn sum.case tiny_mesh_def)
qed

lemma negate_lat:
  assumes "normV p = 1" "EPSILON \<le> 1"
  shows "\<exists>q. negate EPSILON p = Inr q \<and> lat q = arcsin (- z p) * TO_DEG"
proof -
  from negate_total[OF assms] obtain q where q: "negate EPSILON p = Inr q" ..
  have n: "normV (Vector_negate p) = 1" by (simp add: normV_negate assms)
  from q have "lat q = arcsin (z (Vector_negate p) / normV (Vector_negate p)) * TO_DEG"
    by (auto simp add: negate_def fromVector_def Let_def normalise_def Point_new_def
          split: if_splits)
  then have "lat q = arcsin (- z p) * TO_DEG"
    by (simp only: n div_by_1) (simp add: Vector_negate_def)
  with q show ?thesis by blast
qed

lemma tiny_equals:
  "\<not> equals ex_EPSILON tiny_V2 tiny_V0" "\<not> equals ex_EPSILON tiny_V2 tiny_V1"
  "\<not> equals ex_EPSILON tiny_V0 tiny_V1" "\<not> equals ex_EPSILON tiny_V0 tiny_V2"
  "\<not> equals ex_EPSILON tiny_V1 tiny_V2"
  by (simp_all add: tiny_V0_def tiny_V1_def tiny_V2_def ex_EPSILON_def equals_def isZero_def
        isPolar_def isEqual_def)

lemma tiny_triple: "dot (cross tiny_V0 tiny_V1) tiny_V2 = sin tiny_angle * sin tiny_angle"
  by (simp add: dot_def cross_def tiny_V0_def tiny_V1_def tiny_V2_def)

lemma tiny_orientation: "getOrientation ex_EPSILON tiny_V0 tiny_V1 tiny_V2 = COLLINEAR"
proof -
  have "0 \<le> sin tiny_angle * sin tiny_angle" by simp
  then have "\<not> sin tiny_angle * sin tiny_angle > ex_EPSILON"
    "\<not> sin tiny_angle * sin tiny_angle < - ex_EPSILON"
    using tiny_bounds(6) unfolding ex_EPSILON_def by linarith+
  then show ?thesis
    by (simp add: getOrientation_def tiny_equals Let_def tiny_triple)
qed

lemma tiny_isBounded: "isBounded ex_EPSILON tiny_V2 tiny_V0 tiny_V1 = Inr True"
proof -
  have u: "normV tiny_V2 = 1"
    using tiny_bounds(7) by (simp add: normV_def tiny_V2_def)
  have E: "ex_EPSILON \<le> 1" by (simp add: ex_EPSILON_def)
  from negate_lat[OF u E] obtain q where q: "negate ex_EPSILON tiny_V2 = Inr q"
    and l: "lat q = arcsin (- z tiny_V2) * TO_DEG" by blast
  have s: "- 1 \<le> sin tiny_angle" "sin tiny_angle \<le> 1" by simp_all
  have t: "- (pi / 2) \<le> tiny_angle" "tiny_angle \<le> pi / 2"
    using tiny_bounds(1,2) pi_ge_two by linarith+
  have "arcsin (- sin tiny_angle) = - arcsin (sin tiny_angle)" by (rule arcsin_minus[OF s])
  also have "\<dots> = - tiny_angle" using arcsin_sin[OF t] by simp
  finally have "lat q = - tiny_angle * TO_DEG" using l by (simp add: tiny_V2_def)
  then have lq: "lat q = - (1 / 1000)" by (simp add: tiny_angle_def TO_DEG_def)
  have e: "\<not> equals ex_EPSILON q tiny_V0" "\<not> equals ex_EPSILON q tiny_V1"
    by (simp_all add: equals_def isZero_def lq tiny_V0_def tiny_V1_def ex_EPSILON_def)
  have d1: "dot (cross tiny_V0 tiny_V2) (cross tiny_V0 tiny_V1) = 0"
    by (simp add: dot_def cross_def tiny_V0_def tiny_V1_def tiny_V2_def)
  have d2: "dot (cross tiny_V1 tiny_V2) (cross tiny_V1 tiny_V0)
              = sin tiny_angle * sin tiny_angle * cos tiny_angle"
    by (simp add: dot_def cross_def tiny_V0_def tiny_V1_def tiny_V2_def)
  have "0 \<le> sin tiny_angle * sin tiny_angle * cos tiny_angle"
    using tiny_bounds(3,5) by simp
  moreover have d4: "0 \<le> ex_EPSILON" by (simp add: ex_EPSILON_def)
  ultimately have d3: "- ex_EPSILON \<le> sin tiny_angle * sin tiny_angle * cos tiny_angle"
    by linarith
  show ?thesis
    by (simp add: isBounded_def tiny_equals q e Let_def d1 d2 d3 d4)
qed

text \<open>
  Claim C10 fails on the code. The triangle (0, 0), (0, 0.001), (0.001, 0) is read as a
  mesh and its ring is anticlockwise (the triple product of its vertices is positive),
  but the triple product is below EPSILON = 1e-9. For the third vertex \<open>containsPoint\<close>
  finds it \<open>COLLINEAR\<close> with the first edge and bounded by it, and at the second vertex
  it returns \<open>ON_EDGE\<close> with the ends of the first edge, before it has compared the
  point with the third vertex.
\<close>

theorem containsPoint_own_vertex_on_edge:
  "read tiny_vlines tiny_plines = Inr tiny_mesh \<and>
   vertices tiny_face = [tiny_V0, tiny_V1, tiny_V2] \<and>
   0 < dot (cross tiny_V0 tiny_V1) tiny_V2 \<and>
   containsPoint tiny_mesh ex_EPSILON tiny_face tiny_V2 =
     Inr \<lparr> pc_type = ON_EDGE, pc_adjPoly = Obstacle, pc_verts = [tiny_V0, tiny_V1] \<rparr>"
proof -
  have vs: "vertices tiny_face = [tiny_V0, tiny_V1, tiny_V2]" by (simp add: tiny_face_def)
  have nb: "neighbours tiny_mesh tiny_face = [Obstacle, Obstacle, Obstacle]"
    by (simp add: neighbours_def resolve_def tiny_face_def)
  have tp: "0 < dot (cross tiny_V0 tiny_V1) tiny_V2"
    using tiny_bounds(3) by (simp add: tiny_triple)
  have c: "containsPoint tiny_mesh ex_EPSILON tiny_face tiny_V2 =
     Inr \<lparr> pc_type = ON_EDGE, pc_adjPoly = Obstacle, pc_verts = [tiny_V0, tiny_V1] \<rparr>"
    unfolding containsPoint_def
    apply (subst containsPoint_loop.simps)
    apply (simp add: vs v_def tiny_equals tiny_orientation tiny_isBounded)
    apply (subst containsPoint_loop.simps)
    apply (simp add: vs v_def tiny_equals nb)
    done
  show ?thesis by (simp only: tiny_read vs tp c simp_thms)
qed

section \<open>The priority queue on nodes whose heuristic is NaN\<close>

text \<open>
  On costs read as JavaScript numbers \<open>lt_number\<close> is \<open>lt\<close> wherever the costs are
  numbers.
\<close>

lemma lt_number_costs: "lt_number (costs a) (costs b) = lt a b"
  by (auto simp add: lt_number_def costs_def c_f_def lt_def n_f_def)

lemma ex_costs_lt:
  "\<not> lt_number ex_cNaN ex_c3" "\<not> lt_number ex_c5 ex_c3" "\<not> lt_number ex_c1 ex_cNaN"
  "\<not> lt_number ex_cNaN ex_c1" "\<not> lt_number ex_c5 ex_c1" "lt_number ex_c1 ex_c3"
  by (simp_all add: lt_number_def c_f_def ex_c3_def ex_cNaN_def ex_c5_def ex_c1_def)

lemma ex_costs_push:
  "push lt_number [] [ex_c3, ex_cNaN, ex_c5, ex_c1] = [ex_c3, ex_cNaN, ex_c5, ex_c1]"
proof -
  have s1: "siftUp lt_number [ex_c3] = [ex_c3]"
    unfolding siftUp_def by (subst siftUp_loop.simps) simp
  have s2: "siftUp lt_number [ex_c3, ex_cNaN] = [ex_c3, ex_cNaN]"
    unfolding siftUp_def by (subst siftUp_loop.simps) (simp add: heap_parent_def ex_costs_lt)
  have s3: "siftUp lt_number [ex_c3, ex_cNaN, ex_c5] = [ex_c3, ex_cNaN, ex_c5]"
    unfolding siftUp_def by (subst siftUp_loop.simps) (simp add: heap_parent_def ex_costs_lt)
  have s4: "siftUp lt_number [ex_c3, ex_cNaN, ex_c5, ex_c1] = [ex_c3, ex_cNaN, ex_c5, ex_c1]"
    unfolding siftUp_def by (subst siftUp_loop.simps) (simp add: heap_parent_def ex_costs_lt)
  show ?thesis by (simp add: s1 s2 s3 s4)
qed

lemma ex_costs_pop:
  "pop lt_number [ex_c3, ex_cNaN, ex_c5, ex_c1] = Inr (ex_c3, [ex_c1, ex_cNaN, ex_c5])"
proof -
  have s: "siftDown lt_number [ex_c1, ex_cNaN, ex_c5] = [ex_c1, ex_cNaN, ex_c5]"
    unfolding siftDown_def
    by (subst siftDown_loop.simps) (simp add: heap_left_def heap_right_def ex_costs_lt)
  show ?thesis
    by (simp add: pop_def Let_def heap_swap_def s)
qed

text \<open>
  Claim C9 fails on the code. \<open>Math.acos\<close> returns NaN for an argument above 1, and
  \<open>cosDistance\<close> passes it its sum of products unclamped, so a node can have \<open>h\<close> = NaN.
  Every comparison with such a node is false. After the pushes of nodes with \<open>f\<close> = 3,
  NaN, 5 and 1, in this order, the node with \<open>f\<close> = 1 sits below the node with \<open>f\<close> = NaN
  and is never compared with the root: \<open>pop\<close> returns the node with \<open>f\<close> = 3 although the
  node with \<open>f\<close> = 1 is in the queue and precedes it. On the empty queue \<open>pop\<close> fails, as
  the claim says.
\<close>

theorem pop_not_minimal_with_NaN:
  "pop lt_number [] = Inl (AssertionError ''Cannot pop from an empty priority queue'') \<and>
   Math_acos (1 + 2 / 10 ^ 16) = NaN \<and>
   c_f ex_c3 = Num 3 \<and> c_f ex_cNaN = NaN \<and> c_f ex_c5 = Num 5 \<and> c_f ex_c1 = Num 1 \<and>
   push lt_number [] [ex_c3, ex_cNaN, ex_c5, ex_c1] = [ex_c3, ex_cNaN, ex_c5, ex_c1] \<and>
   pop lt_number [ex_c3, ex_cNaN, ex_c5, ex_c1] = Inr (ex_c3, [ex_c1, ex_cNaN, ex_c5]) \<and>
   lt_number ex_c1 ex_c3"
proof -
  have a: "Math_acos (1 + 2 / 10 ^ 16) = NaN" by (simp add: Math_acos_def)
  have f: "c_f ex_c3 = Num 3" "c_f ex_cNaN = NaN" "c_f ex_c5 = Num 5" "c_f ex_c1 = Num 1"
    by (simp_all add: c_f_def ex_c3_def ex_cNaN_def ex_c5_def ex_c1_def)
  have e: "pop lt_number [] = Inl (AssertionError ''Cannot pop from an empty priority queue'')"
    by (simp add: pop_def)
  show ?thesis
    by (simp only: e a f ex_costs_push ex_costs_pop ex_costs_lt simp_thms)
qed

end
